theory Spec2Isabelle
  imports Main "HOL-Library.List_Lexorder" "HOL-Library.Char_ord"
begin

section \<open>The glslang intermediate representation, as the traversers use it\<close>

text \<open>
  The traversers of \<^verbatim>\<open>ShaderCompilerTraversers.cpp\<close> edit a glslang abstract syntax tree in
  place, through raw pointers that are compared by identity. The tree is therefore modelled
  as a store: a list of nodes addressed by their index, with child slots holding optional
  addresses (\<open>None\<close> is the null pointer). Only the parts of glslang's types that the
  traversers read or write are kept; source locations are left out.
\<close>

datatype TBasicType = EbtVoid | EbtFloat | EbtInt | EbtUint | EbtBool | EbtSampler | EbtStruct | EbtBlock

datatype TStorageQualifier =
  EvqTemporary | EvqGlobal | EvqConst | EvqVaryingIn | EvqVaryingOut | EvqUniform | EvqBuffer | EvqShared

datatype TPrecisionQualifier = EpqNone | EpqLow | EpqMedium | EpqHigh

datatype TLayoutMatrix = ElmNone | ElmRowMajor | ElmColumnMajor

datatype TLayoutPacking = ElpNone | ElpShared | ElpStd140 | ElpStd430 | ElpPacked | ElpScalar

text \<open>
  The operators the traversers test or create, and a few others. glslang has one
  constructor operator for each basic type and size (\<open>EOpConstructFloat\<close>,
  \<open>EOpConstructVec2\<close>, \<open>EOpConstructIVec3\<close>, ...); they are written
  \<open>EOpConstruct b n\<close> here, for the basic type \<open>b\<close> and \<open>n\<close> components.
\<close>

datatype TOperator =
  EOpNull | EOpSequence | EOpLinkerObjects | EOpFunctionCall
  | EOpNegative | EOpDPdx | EOpDPdy | EOpDPdxFine | EOpDPdyFine | EOpDPdxCoarse | EOpDPdyCoarse
  | EOpAdd | EOpMul | EOpAssign
  | EOpIndexDirect | EOpIndexIndirect | EOpIndexDirectStruct | EOpVectorSwizzle
  | EOpConstruct TBasicType nat
  | EOpConstructTextureSampler | EOpTexture | EOpReturn

text \<open>
  \<open>layoutBinding\<close> and \<open>layoutLocation\<close> are numbers; \<open>clearLayout\<close> sets them to the
  values glslang reserves for "no binding" and "no location".
\<close>

record TQualifier =
  storage :: TStorageQualifier
  precision :: TPrecisionQualifier
  layoutMatrix :: TLayoutMatrix
  layoutPacking :: TLayoutPacking
  layoutBinding :: nat
  layoutLocation :: nat

definition layoutBindingEnd :: nat where
  "layoutBindingEnd = 65535"

definition layoutLocationEnd :: nat where
  "layoutLocationEnd = 4095"

definition clearLayout :: "TQualifier \<Rightarrow> TQualifier" where
  "clearLayout q = q\<lparr>layoutMatrix := ElmNone, layoutPacking := ElpNone,
     layoutBinding := layoutBindingEnd, layoutLocation := layoutLocationEnd\<rparr>"

definition isUniformOrBuffer :: "TQualifier \<Rightarrow> bool" where
  "isUniformOrBuffer q = (storage q = EvqUniform \<or> storage q = EvqBuffer)"

text \<open>
  \<open>TSampler\<close>: the field glslang calls \<open>sampler\<close> (a pure sampler, without a texture) is
  \<open>pureSampler\<close> here, the field it calls \<open>type\<close> is \<open>sampledType\<close>.
\<close>

record TSampler =
  sampledType :: TBasicType
  dim :: nat
  arrayed :: bool
  shadow :: bool
  ms :: bool
  image :: bool
  combined :: bool
  pureSampler :: bool

text \<open>The value of a zero-initialised \<open>TSampler\<close>, which is also what its \<open>clear\<close> leaves.\<close>

definition clearSampler :: TSampler where
  "clearSampler = \<lparr>sampledType = EbtVoid, dim = 0, arrayed = False, shadow = False, ms = False,
     image = False, combined = False, pureSampler = False\<rparr>"

text \<open>The value of a zero-initialised \<open>TQualifier\<close> (\<^verbatim>\<open>TQualifier qualifier{}\<close>).\<close>

definition zeroQualifier :: TQualifier where
  "zeroQualifier = \<lparr>storage = EvqTemporary, precision = EpqNone, layoutMatrix = ElmNone,
     layoutPacking = ElpNone, layoutBinding = 0, layoutLocation = 0\<rparr>"

text \<open>
  \<open>TType\<close>: a struct or block type owns the list of its members' types, so the type is
  recursive. The selectors carry the names of glslang's getters.
\<close>

datatype TType = TType
  (getBasicType: TBasicType)
  (getVectorSize: nat)
  (getMatrixCols: nat)
  (getMatrixRows: nat)
  (getArraySizes: "nat list option")
  (getQualifier: TQualifier)
  (getSampler: TSampler)
  (getFieldName: string)
  (getTypeName: string)
  (getStruct: "TType list option")

definition isMatrix :: "TType \<Rightarrow> bool" where
  "isMatrix t = (getMatrixCols t \<noteq> 0)"

definition isVector :: "TType \<Rightarrow> bool" where
  "isVector t = (getVectorSize t > 1)"

definition isArray :: "TType \<Rightarrow> bool" where
  "isArray t = (getArraySizes t \<noteq> None)"

definition isStruct :: "TType \<Rightarrow> bool" where
  "isStruct t = (getBasicType t = EbtStruct \<or> getBasicType t = EbtBlock)"

definition isScalar :: "TType \<Rightarrow> bool" where
  "isScalar t = (\<not> isVector t \<and> \<not> isMatrix t \<and> \<not> isStruct t \<and> \<not> isArray t)"

definition setBasicType :: "TBasicType \<Rightarrow> TType \<Rightarrow> TType" where
  "setBasicType b t = TType b (getVectorSize t) (getMatrixCols t) (getMatrixRows t)
     (getArraySizes t) (getQualifier t) (getSampler t) (getFieldName t) (getTypeName t) (getStruct t)"

definition setFieldName :: "string \<Rightarrow> TType \<Rightarrow> TType" where
  "setFieldName n t = TType (getBasicType t) (getVectorSize t) (getMatrixCols t) (getMatrixRows t)
     (getArraySizes t) (getQualifier t) (getSampler t) n (getTypeName t) (getStruct t)"

definition clearArraySizes :: "TType \<Rightarrow> TType" where
  "clearArraySizes t = TType (getBasicType t) (getVectorSize t) (getMatrixCols t) (getMatrixRows t)
     None (getQualifier t) (getSampler t) (getFieldName t) (getTypeName t) (getStruct t)"

text \<open>
  \<open>TPublicType\<close>, the builder the traversers fill in before they construct a \<open>TType\<close>
  from it. \<^verbatim>\<open>TPublicType publicType{}\<close> zero-initialises every member.
\<close>

record TPublicType =
  basicType :: TBasicType
  sampler :: TSampler
  qualifier :: TQualifier
  vectorSize :: nat
  matrixCols :: nat
  matrixRows :: nat
  arraySizes :: "nat list option"

definition zeroPublicType :: TPublicType where
  "zeroPublicType = \<lparr>basicType = EbtVoid, sampler = clearSampler, qualifier = zeroQualifier,
     vectorSize = 0, matrixCols = 0, matrixRows = 0, arraySizes = None\<rparr>"

definition setMatrix :: "nat \<Rightarrow> nat \<Rightarrow> TPublicType \<Rightarrow> TPublicType" where
  "setMatrix c r p = p\<lparr>matrixRows := r, matrixCols := c, vectorSize := 0\<rparr>"

definition setVector :: "nat \<Rightarrow> TPublicType \<Rightarrow> TPublicType" where
  "setVector s p = p\<lparr>matrixRows := 0, matrixCols := 0, vectorSize := s\<rparr>"

text \<open>
  \<^verbatim>\<open>TType(const TPublicType&)\<close>: the sampler descriptor is taken over only for a sampler
  type; no struct, no field name, no type name.
\<close>

definition TType_of_public :: "TPublicType \<Rightarrow> TType" where
  "TType_of_public p = TType (basicType p) (vectorSize p) (matrixCols p) (matrixRows p)
     (arraySizes p) (qualifier p)
     (if basicType p = EbtSampler then sampler p else clearSampler) [] [] None"

text \<open>
  \<^verbatim>\<open>TType(TTypeList* userDef, const TString& n, const TQualifier& q)\<close>, glslang's
  constructor for an interface block.
\<close>

definition TType_of_block :: "TType list \<Rightarrow> string \<Rightarrow> TQualifier \<Rightarrow> TType" where
  "TType_of_block members n q = TType EbtBlock 1 0 0 None q clearSampler [] n (Some members)"

text \<open>
  The type a \<open>TIntermOperator\<close> starts with when none is given (\<open>addUnaryNode\<close> and
  \<open>addBinaryNode\<close> without a type), and the type of an unsigned constant. Both come
  from glslang's constructor \<open>TType(basicType, storage)\<close>, which clears the qualifier,
  its layout included, before it sets the storage.
\<close>

definition defaultOperatorType :: TType where
  "defaultOperatorType = TType EbtFloat 1 0 0 None (clearLayout zeroQualifier) clearSampler [] [] None"

definition uintConstType :: TType where
  "uintConstType =
     TType EbtUint 1 0 0 None ((clearLayout zeroQualifier)\<lparr>storage := EvqConst\<rparr>) clearSampler [] [] None"

subsection \<open>Nodes and the store\<close>

type_synonym addr = nat
type_synonym ptr = "addr option"

text \<open>
  The node kinds of glslang. \<open>TIntermSelection\<close>, \<open>TIntermLoop\<close>, \<open>TIntermBranch\<close> and
  \<open>TIntermSwitch\<close> are the kinds that are neither aggregate, binary nor unary, and that
  have children.
\<close>

datatype TIntermNode =
    TIntermSymbol nat string TType
  | TIntermAggregate TOperator "ptr list" TType
  | TIntermBinary TOperator ptr ptr TType
  | TIntermUnary TOperator ptr TType
  | TIntermConstantUnion nat TType
  | TIntermSelection ptr ptr ptr TType
  | TIntermLoop ptr ptr ptr
  | TIntermBranch TOperator ptr
  | TIntermSwitch ptr ptr

text \<open>
  \<open>TIntermediate\<close>: the store of one stage's tree. \<open>released\<close> logs the roots handed to
  \<open>RemoveAllTreeNodes\<close>, in order; glslang's nodes live in a pool, so a released node's
  memory stays readable and the store keeps it.
\<close>

record TIntermediate =
  treeRoot :: ptr
  nodes :: "TIntermNode list"
  released :: "addr list"

datatype error =
    UnsupportedReplacementTarget
  | ArrayIndexingUnimplemented
  | AssertionFailed
  | InvalidAccess

text \<open>
  \<open>UnsupportedReplacementTarget\<close> is
  \<^verbatim>\<open>std::runtime_error{"Cannot replace symbol: node type handler unimplemented"}\<close>,
  \<open>ArrayIndexingUnimplemented\<close> is
  \<^verbatim>\<open>std::runtime_error{"Cannot replace symbol: array indexing handler unimplemented"}\<close>,
  \<open>AssertionFailed\<close> a failed \<open>assert\<close>, and \<open>InvalidAccess\<close> stands for what C++ leaves
  undefined: a null or dangling pointer dereferenced, a read out of range.
\<close>

definition getNode :: "TIntermediate \<Rightarrow> ptr \<Rightarrow> error + TIntermNode" where
  "getNode t p = (case p of
       None \<Rightarrow> Inl InvalidAccess
     | Some a \<Rightarrow> if a < length (nodes t) then Inr (nodes t ! a) else Inl InvalidAccess)"

definition setNode :: "addr \<Rightarrow> TIntermNode \<Rightarrow> TIntermediate \<Rightarrow> TIntermediate" where
  "setNode a n t = t\<lparr>nodes := (nodes t)[a := n]\<rparr>"

definition addNode :: "TIntermNode \<Rightarrow> TIntermediate \<Rightarrow> TIntermediate \<times> addr" where
  "addNode n t = (t\<lparr>nodes := nodes t @ [n]\<rparr>, length (nodes t))"

definition RemoveAllTreeNodes :: "ptr \<Rightarrow> TIntermediate \<Rightarrow> error + TIntermediate" where
  "RemoveAllTreeNodes p t = (case p of
       None \<Rightarrow> Inl InvalidAccess
     | Some a \<Rightarrow> Inr (t\<lparr>released := released t @ [a]\<rparr>))"

fun getAsAggregate :: "TIntermNode \<Rightarrow> (TOperator \<times> ptr list \<times> TType) option" where
  "getAsAggregate (TIntermAggregate op sq ty) = Some (op, sq, ty)"
| "getAsAggregate _ = None"

fun getAsBinaryNode :: "TIntermNode \<Rightarrow> (TOperator \<times> ptr \<times> ptr \<times> TType) option" where
  "getAsBinaryNode (TIntermBinary op l r ty) = Some (op, l, r, ty)"
| "getAsBinaryNode _ = None"

fun getAsUnaryNode :: "TIntermNode \<Rightarrow> (TOperator \<times> ptr \<times> TType) option" where
  "getAsUnaryNode (TIntermUnary op x ty) = Some (op, x, ty)"
| "getAsUnaryNode _ = None"

fun getAsSymbolNode :: "TIntermNode \<Rightarrow> (nat \<times> string \<times> TType) option" where
  "getAsSymbolNode (TIntermSymbol i n ty) = Some (i, n, ty)"
| "getAsSymbolNode _ = None"

text \<open>The name and the type of the symbol a \<open>TIntermSymbol*\<close> points to.\<close>

definition symbolName :: "TIntermediate \<Rightarrow> addr \<Rightarrow> error + string" where
  "symbolName t s = (case getNode t (Some s) of
       Inl e \<Rightarrow> Inl e
     | Inr n \<Rightarrow> (case getAsSymbolNode n of None \<Rightarrow> Inl InvalidAccess | Some (i, name, ty) \<Rightarrow> Inr name))"

definition symbolType :: "TIntermediate \<Rightarrow> addr \<Rightarrow> error + TType" where
  "symbolType t s = (case getNode t (Some s) of
       Inl e \<Rightarrow> Inl e
     | Inr n \<Rightarrow> (case getAsSymbolNode n of None \<Rightarrow> Inl InvalidAccess | Some (i, name, ty) \<Rightarrow> Inr ty))"

subsection \<open>\<open>std::map\<close> with string keys\<close>

text \<open>
  A \<^verbatim>\<open>std::map<std::string, V>\<close> is an association list kept in ascending key order
  (\<open>std::string\<close> compares bytewise, a proper prefix first); iterating the map walks the
  list. \<open>map_assign\<close> is \<^verbatim>\<open>m[k] = v\<close>; \<open>map_index\<close> is the read \<^verbatim>\<open>m[k]\<close>, which inserts a
  value-initialised entry (the null pointer) when the key is absent.
\<close>

fun map_assign :: "string \<Rightarrow> 'v \<Rightarrow> (string \<times> 'v) list \<Rightarrow> (string \<times> 'v) list" where
  "map_assign k v [] = [(k, v)]"
| "map_assign k v ((k', v') # m) =
     (if k < k' then (k, v) # (k', v') # m
      else if k = k' then (k, v) # m
      else (k', v') # map_assign k v m)"

definition map_find :: "(string \<times> 'v) list \<Rightarrow> string \<Rightarrow> 'v option" where
  "map_find m k = map_of m k"

definition map_index :: "(string \<times> ptr) list \<Rightarrow> string \<Rightarrow> ptr \<times> (string \<times> ptr) list" where
  "map_index m k = (case map_find m k of
       Some v \<Rightarrow> (v, m)
     | None \<Rightarrow> (None, map_assign k None m))"

section \<open>\<open>makeReplacements\<close>\<close>

text \<open>
  The body of the loop over the sequence of an aggregate parent: every slot that holds the
  symbol is released and overwritten, from the first slot to the last.
\<close>

fun replaceInSequence :: "addr \<Rightarrow> ptr \<Rightarrow> ptr list \<Rightarrow> addr list \<Rightarrow> ptr list \<times> addr list" where
  "replaceInSequence symbol replacement [] rel = ([], rel)"
| "replaceInSequence symbol replacement (c # cs) rel =
     (if c = Some symbol
      then (let (cs', rel') = replaceInSequence symbol replacement cs (rel @ [symbol])
            in (replacement # cs', rel'))
      else (let (cs', rel') = replaceInSequence symbol replacement cs rel
            in (c # cs', rel')))"

text \<open>One turn of the loop of \<open>makeReplacements\<close>, for the record \<open>(symbol, parent)\<close>.\<close>

definition replaceOne ::
  "(string \<times> ptr) list \<Rightarrow> addr \<times> ptr \<Rightarrow> TIntermediate \<Rightarrow> error + (string \<times> ptr) list \<times> TIntermediate" where
  "replaceOne nameToReplacement rec t =
     (case rec of (symbol, parent) \<Rightarrow>
      (case symbolName t symbol of
         Inl e \<Rightarrow> Inl e
       | Inr name \<Rightarrow>
          (case map_index nameToReplacement name of (replacement, m') \<Rightarrow>
           (case getNode t parent of
              Inl e \<Rightarrow> Inl e
            | Inr pn \<Rightarrow>
               (case pn of
                  TIntermAggregate op sq ty \<Rightarrow>
                    (case replaceInSequence symbol replacement sq (released t) of (sq', rel') \<Rightarrow>
                       Inr (m', setNode (the parent) (TIntermAggregate op sq' ty) (t\<lparr>released := rel'\<rparr>)))
                | TIntermBinary op l r ty \<Rightarrow>
                    (if l = Some symbol
                     then (case RemoveAllTreeNodes l t of
                             Inl e \<Rightarrow> Inl e
                           | Inr t' \<Rightarrow> Inr (m', setNode (the parent) (TIntermBinary op replacement r ty) t'))
                     else (case RemoveAllTreeNodes r t of
                             Inl e \<Rightarrow> Inl e
                           | Inr t' \<Rightarrow> Inr (m', setNode (the parent) (TIntermBinary op l replacement ty) t')))
                | TIntermUnary op x ty \<Rightarrow>
                    (case RemoveAllTreeNodes x t of
                       Inl e \<Rightarrow> Inl e
                     | Inr t' \<Rightarrow> Inr (m', setNode (the parent) (TIntermUnary op replacement ty) t'))
                | _ \<Rightarrow> Inl UnsupportedReplacementTarget)))))"

fun makeReplacementsLoop ::
  "(string \<times> ptr) list \<Rightarrow> (addr \<times> ptr) list \<Rightarrow> TIntermediate \<Rightarrow> error + TIntermediate" where
  "makeReplacementsLoop m [] t = Inr t"
| "makeReplacementsLoop m (rec # recs) t =
     (case replaceOne m rec t of
        Inl e \<Rightarrow> Inl e
      | Inr (m', t') \<Rightarrow> makeReplacementsLoop m' recs t')"

definition makeReplacements ::
  "(string \<times> ptr) list \<Rightarrow> (addr \<times> ptr) list \<Rightarrow> TIntermediate \<Rightarrow> error + TIntermediate" where
  "makeReplacements nameToReplacement symbolToParent t =
     makeReplacementsLoop nameToReplacement symbolToParent t"

section \<open>Paths and linker objects\<close>

text \<open>
  The traverser's \<open>path\<close> holds the ancestors of the node being visited, the root first;
  they are nodes of the store being traversed. \<open>getParentNode\<close> is its last element, or
  null when the path is empty.
\<close>

definition getParentNode :: "addr list \<Rightarrow> ptr" where
  "getParentNode path = (if path = [] then None else Some (last path))"

definition isLinkerObject :: "TIntermediate \<Rightarrow> addr list \<Rightarrow> bool" where
  "isLinkerObject t path =
     (if length path > 1
      then (case getNode t (Some (path ! 1)) of
              Inr (TIntermAggregate op sq ty) \<Rightarrow> op = EOpLinkerObjects
            | _ \<Rightarrow> False)
      else False)"

section \<open>\<open>UniformTypeChangeTraverser\<close>\<close>

text \<open>The type of a typed node; loops, branches and switches have none.\<close>

fun getType :: "TIntermNode \<Rightarrow> TType option" where
  "getType (TIntermSymbol i n ty) = Some ty"
| "getType (TIntermAggregate op sq ty) = Some ty"
| "getType (TIntermBinary op l r ty) = Some ty"
| "getType (TIntermUnary op x ty) = Some ty"
| "getType (TIntermConstantUnion v ty) = Some ty"
| "getType (TIntermSelection c a b ty) = Some ty"
| "getType _ = None"

fun setType :: "TType \<Rightarrow> TIntermNode \<Rightarrow> TIntermNode" where
  "setType ty (TIntermSymbol i n ty0) = TIntermSymbol i n ty"
| "setType ty (TIntermAggregate op sq ty0) = TIntermAggregate op sq ty"
| "setType ty (TIntermBinary op l r ty0) = TIntermBinary op l r ty"
| "setType ty (TIntermUnary op x ty0) = TIntermUnary op x ty"
| "setType ty (TIntermConstantUnion v ty0) = TIntermConstantUnion v ty"
| "setType ty (TIntermSelection c a b ty0) = TIntermSelection c a b ty"
| "setType ty n = n"

text \<open>
  glslang's \<open>TType::operator==\<close> compares the shape of two types, not their qualifiers
  or names.
\<close>

definition sameType :: "TType \<Rightarrow> TType \<Rightarrow> bool" where
  "sameType a b =
     (getBasicType a = getBasicType b \<and> getSampler a = getSampler b
      \<and> getVectorSize a = getVectorSize b \<and> getMatrixCols a = getMatrixCols b
      \<and> getMatrixRows a = getMatrixRows b \<and> getStruct a = getStruct b
      \<and> getArraySizes a = getArraySizes b)"

definition mapTypeToConstructorOp :: "TType \<Rightarrow> TOperator" where
  "mapTypeToConstructorOp ty = EOpConstruct (getBasicType ty) (getVectorSize ty)"

text \<open>
  Whether glslang's \<open>TIntermediate::addShapeConversion\<close> builds a conversion from a node
  of type \<open>nodeType\<close> to \<open>ty\<close>: not between equal shapes, never for structs and arrays,
  and only from a scalar to a vector, from a vector to a scalar, or from a vector to a
  smaller one.
\<close>

definition convertsShape :: "TType \<Rightarrow> TType \<Rightarrow> bool" where
  "convertsShape ty nodeType =
     (\<not> sameType nodeType ty
      \<and> \<not> (isStruct nodeType \<or> isArray nodeType \<or> isStruct ty \<or> isArray ty)
      \<and> ((isScalar nodeType \<and> isVector ty)
         \<or> (isVector nodeType \<and> isScalar ty)
         \<or> (isVector nodeType \<and> isVector ty \<and> getVectorSize nodeType > getVectorSize ty)))"

text \<open>
  \<open>addShapeConversion type node\<close> returns the node itself when it builds no conversion,
  and otherwise a new constructor aggregate of type \<open>type\<close> whose only child is the node.
\<close>

definition addShapeConversion :: "TType \<Rightarrow> addr \<Rightarrow> TIntermediate \<Rightarrow> error + TIntermediate \<times> addr" where
  "addShapeConversion ty node t =
     (case getNode t (Some node) of
        Inl e \<Rightarrow> Inl e
      | Inr n \<Rightarrow>
         (case getType n of
            None \<Rightarrow> Inl InvalidAccess
          | Some nodeType \<Rightarrow>
             if convertsShape ty nodeType
             then Inr (addNode (TIntermAggregate (mapTypeToConstructorOp ty) [Some node] ty) t)
             else Inr (t, node)))"

text \<open>The lambda \<open>injectShapeConversion\<close> of \<open>visitSymbol\<close>.\<close>

definition injectShapeConversion :: "addr \<Rightarrow> ptr \<Rightarrow> addr \<Rightarrow> TIntermediate \<Rightarrow> error + TIntermediate" where
  "injectShapeConversion node parent shapeConversion t =
     (case getNode t parent of
        Inl e \<Rightarrow> Inl e
      | Inr pn \<Rightarrow>
         (case pn of
            TIntermAggregate op sq ty \<Rightarrow>
              Inr (setNode (the parent)
                (TIntermAggregate op (map (\<lambda>c. if c = Some node then Some shapeConversion else c) sq) ty) t)
          | TIntermBinary op l r ty \<Rightarrow>
              (if l = Some node
               then Inr (setNode (the parent) (TIntermBinary op (Some shapeConversion) r ty) t)
               else Inr (setNode (the parent) (TIntermBinary op l (Some shapeConversion) ty) t))
          | TIntermUnary op x ty \<Rightarrow>
              Inr (setNode (the parent) (TIntermUnary op (Some shapeConversion) ty) t)
          | _ \<Rightarrow> Inl UnsupportedReplacementTarget))"

text \<open>The type every promoted uniform gets: a float \<open>vec4\<close> with the qualifier and the array sizes of the original.\<close>

definition promotedType :: "TType \<Rightarrow> TType" where
  "promotedType ty =
     TType_of_public
       ((setVector 4 (zeroPublicType\<lparr>qualifier := getQualifier ty, basicType := EbtFloat\<rparr>))
          \<lparr>arraySizes := getArraySizes ty\<rparr>)"

definition UniformTypeChangeTraverser_visitSymbol ::
  "addr list \<Rightarrow> addr \<Rightarrow> TIntermediate \<Rightarrow> error + TIntermediate" where
  "UniformTypeChangeTraverser_visitSymbol path symbol t =
     (case symbolType t symbol of
        Inl e \<Rightarrow> Inl e
      | Inr ty \<Rightarrow>
         if isUniformOrBuffer (getQualifier ty) \<and> getBasicType ty \<noteq> EbtSampler \<and> \<not> isMatrix ty
         then
           (let oldType = ty;
                newType = promotedType ty;
                t1 = setNode symbol (setType newType (nodes t ! symbol)) t
            in if \<not> isLinkerObject t1 path
               then
                 (let parent = getParentNode path
                  in if isArray newType
                     then
                       (case getNode t1 parent of
                          Inl e \<Rightarrow> Inl e
                        | Inr (TIntermBinary op l r bty) \<Rightarrow>
                            (let binary = the parent;
                                 oldType' = bty;
                                 binType = clearArraySizes newType;
                                 t2 = setNode binary (TIntermBinary op l r binType) t1
                             in (case addShapeConversion oldType' binary t2 of
                                   Inl e \<Rightarrow> Inl e
                                 | Inr (t3, shapeConversion) \<Rightarrow>
                                     if length path > 1
                                     then injectShapeConversion binary
                                            (Some (path ! (length path - 2))) shapeConversion t3
                                     else Inl AssertionFailed))
                        | Inr _ \<Rightarrow> Inl ArrayIndexingUnimplemented)
                     else
                       (case addShapeConversion oldType symbol t1 of
                          Inl e \<Rightarrow> Inl e
                        | Inr (t2, shapeConversion) \<Rightarrow>
                            injectShapeConversion symbol parent shapeConversion t2))
               else Inr t1)
         else Inr t)"

section \<open>Traversal\<close>

text \<open>
  glslang's \<open>TIntermNode::traverse\<close>, for a traverser that visits before the children
  and from left to right (the default, which every traverser of this file uses). The
  children of a node in the order they are traversed; the flag says that a null child is
  skipped (the others are dereferenced unchecked).
\<close>

fun traversalChildren :: "TIntermNode \<Rightarrow> (ptr \<times> bool) list" where
  "traversalChildren (TIntermSymbol i n ty) = []"
| "traversalChildren (TIntermConstantUnion v ty) = []"
| "traversalChildren (TIntermAggregate op sq ty) = map (\<lambda>c. (c, False)) sq"
| "traversalChildren (TIntermBinary op l r ty) = [(l, True), (r, True)]"
| "traversalChildren (TIntermUnary op x ty) = [(x, False)]"
| "traversalChildren (TIntermSelection c a b ty) = [(c, False), (a, True), (b, True)]"
| "traversalChildren (TIntermLoop body test terminal) = [(test, True), (body, True), (terminal, True)]"
| "traversalChildren (TIntermBranch op e) = [(e, True)]"
| "traversalChildren (TIntermSwitch c b) = [(c, False), (b, False)]"

text \<open>
  The traversal is generic in the traverser: \<open>tr\<close> reads the store out of the traverser's
  state, \<open>vs\<close> is its \<open>visitSymbol\<close> and \<open>vu\<close> its \<open>visitUnary\<close> before the operand (the
  result says whether to descend). A traverser may edit the tree while it is walked, so
  every child slot is read from the store when its turn comes. The first argument after
  the traverser is fuel: each call uses one unit, and \<open>None\<close> means that it ran out.
\<close>

fun traverse ::
  "('s \<Rightarrow> TIntermediate) \<Rightarrow> (addr list \<Rightarrow> addr \<Rightarrow> 's \<Rightarrow> error + 's) \<Rightarrow> (addr \<Rightarrow> 's \<Rightarrow> error + bool \<times> 's)
     \<Rightarrow> nat \<Rightarrow> addr list \<Rightarrow> ptr \<Rightarrow> 's \<Rightarrow> (error + 's) option"
and traverseChildren ::
  "('s \<Rightarrow> TIntermediate) \<Rightarrow> (addr list \<Rightarrow> addr \<Rightarrow> 's \<Rightarrow> error + 's) \<Rightarrow> (addr \<Rightarrow> 's \<Rightarrow> error + bool \<times> 's)
     \<Rightarrow> nat \<Rightarrow> addr list \<Rightarrow> addr \<Rightarrow> nat \<Rightarrow> 's \<Rightarrow> (error + 's) option"
where
  "traverse tr vs vu 0 path p s = None"
| "traverse tr vs vu (Suc n) path p s =
     (case getNode (tr s) p of
        Inl e \<Rightarrow> Some (Inl e)
      | Inr node \<Rightarrow>
         (case node of
            TIntermSymbol i name ty \<Rightarrow> Some (vs path (the p) s)
          | TIntermConstantUnion v ty \<Rightarrow> Some (Inr s)
          | TIntermUnary op x ty \<Rightarrow>
              (case vu (the p) s of
                 Inl e \<Rightarrow> Some (Inl e)
               | Inr (visit, s1) \<Rightarrow>
                   if visit then traverseChildren tr vs vu n (path @ [the p]) (the p) 0 s1
                   else Some (Inr s1))
          | _ \<Rightarrow> traverseChildren tr vs vu n (path @ [the p]) (the p) 0 s))"
| "traverseChildren tr vs vu 0 path a idx s = None"
| "traverseChildren tr vs vu (Suc n) path a idx s =
     (case getNode (tr s) (Some a) of
        Inl e \<Rightarrow> Some (Inl e)
      | Inr node \<Rightarrow>
         if idx < length (traversalChildren node)
         then (case traversalChildren node ! idx of
                 (c, skipped) \<Rightarrow>
                   if c = None
                   then (if skipped then traverseChildren tr vs vu n path a (Suc idx) s
                         else Some (Inl InvalidAccess))
                   else (case traverse tr vs vu n path c s of
                           None \<Rightarrow> None
                         | Some (Inl e) \<Rightarrow> Some (Inl e)
                         | Some (Inr s1) \<Rightarrow> traverseChildren tr vs vu n path a (Suc idx) s1))
         else Some (Inr s))"

text \<open>A traverser that does not override \<open>visitUnary\<close> descends into every unary node.\<close>

definition visitUnaryDefault :: "addr \<Rightarrow> 's \<Rightarrow> error + bool \<times> 's" where
  "visitUnaryDefault u s = Inr (True, s)"

text \<open>
  The symbols a traversal meets, with the path at each, in the order of the visits: the
  traversal of a traverser that only logs. A traverser whose \<open>visitSymbol\<close> leaves the
  tree alone makes the same visits, so its state after the traversal is \<open>foldVisits\<close> of
  its \<open>visitSymbol\<close> over this list.
\<close>

definition logVisit ::
  "addr list \<Rightarrow> addr \<Rightarrow> (addr list \<times> addr) list \<times> TIntermediate
     \<Rightarrow> error + (addr list \<times> addr) list \<times> TIntermediate" where
  "logVisit path symbol s = Inr (fst s @ [(path, symbol)], snd s)"

definition symbolVisits :: "nat \<Rightarrow> TIntermediate \<Rightarrow> (error + (addr list \<times> addr) list) option" where
  "symbolVisits fuel t =
     (case traverse snd logVisit visitUnaryDefault fuel [] (treeRoot t) ([], t) of
        None \<Rightarrow> None
      | Some (Inl e) \<Rightarrow> Some (Inl e)
      | Some (Inr (visits, t')) \<Rightarrow> Some (Inr visits))"

fun foldVisits ::
  "(addr list \<Rightarrow> addr \<Rightarrow> 's \<Rightarrow> error + 's) \<Rightarrow> (addr list \<times> addr) list \<Rightarrow> 's \<Rightarrow> error + 's" where
  "foldVisits vs [] s = Inr s"
| "foldVisits vs ((path, symbol) # rest) s =
     (case vs path symbol s of
        Inl e \<Rightarrow> Inl e
      | Inr s' \<Rightarrow> foldVisits vs rest s')"

text \<open>
  Modelled from the spec: \<open>IdGenerator\<close> is declared in \<^verbatim>\<open>ShaderCompilerTraversers.h\<close>, which
  is not among the sources. The spec asks of it only identifiers that increase and never
  repeat within one compilation: \<open>Next\<close> returns the counter and advances it.
\<close>

definition Next :: "nat \<Rightarrow> nat \<times> nat" where
  "Next ids = (ids, Suc ids)"

text \<open>
  The linker-object aggregate as the struct packer and the sampler splitter find it: the
  last child of the tree root, which is asserted to be a \<open>EOpLinkerObjects\<close> aggregate.
\<close>

definition linkerObjectAggregate :: "TIntermediate \<Rightarrow> error + addr \<times> ptr list \<times> TType" where
  "linkerObjectAggregate t =
     (case getNode t (treeRoot t) of
        Inl e \<Rightarrow> Inl e
      | Inr rn \<Rightarrow>
         (case getAsAggregate rn of
            None \<Rightarrow> Inl InvalidAccess
          | Some (rop, rsq, rty) \<Rightarrow>
             if rsq = [] then Inl InvalidAccess
             else (case getNode t (last rsq) of
                     Inl e \<Rightarrow> Inl e
                   | Inr ln \<Rightarrow>
                      (case getAsAggregate ln of
                         None \<Rightarrow> Inl InvalidAccess
                       | Some (lop, lsq, lty) \<Rightarrow>
                          if lop = EOpLinkerObjects then Inr (the (last rsq), lsq, lty)
                          else Inl AssertionFailed))))"

section \<open>\<open>NonSamplerUniformToStructTraverser\<close>\<close>

record NonSamplerUniformToStructTraverser =
  m_uniformNameToSymbol :: "(string \<times> addr) list"
  m_symbolsToParents :: "(addr \<times> ptr) list"

definition NonSamplerUniformToStructTraverser_visitSymbol ::
  "addr list \<Rightarrow> addr \<Rightarrow> NonSamplerUniformToStructTraverser \<times> TIntermediate
     \<Rightarrow> error + NonSamplerUniformToStructTraverser \<times> TIntermediate" where
  "NonSamplerUniformToStructTraverser_visitSymbol path symbol s =
     (case s of (tv, t) \<Rightarrow>
      (case getNode t (Some symbol) of
         Inr (TIntermSymbol i name ty) \<Rightarrow>
           if isUniformOrBuffer (getQualifier ty) \<and> getBasicType ty \<noteq> EbtSampler
           then (if isLinkerObject t path
                 then Inr (tv\<lparr>m_uniformNameToSymbol := map_assign name symbol (m_uniformNameToSymbol tv)\<rparr>, t)
                 else Inr (tv\<lparr>m_symbolsToParents := m_symbolsToParents tv @ [(symbol, getParentNode path)]\<rparr>, t))
           else Inr (tv, t)
       | _ \<Rightarrow> Inl InvalidAccess))"

text \<open>
  The qualifier shared by the members of the struct, set up before the loop over the
  candidates; the loop then reuses one \<open>publicType\<close> for all members.
\<close>

definition memberPublicType :: TPublicType where
  "memberPublicType =
     zeroPublicType\<lparr>qualifier := (clearLayout zeroQualifier)
       \<lparr>storage := EvqUniform, precision := EpqHigh, layoutMatrix := ElmColumnMajor,
        layoutPacking := ElpStd140\<rparr>\<rparr>"

text \<open>One turn of the loop that creates the member types: the new \<open>publicType\<close> and the member's type.\<close>

definition createMemberType :: "TPublicType \<Rightarrow> string \<Rightarrow> TType \<Rightarrow> TPublicType \<times> TType" where
  "createMemberType publicType name ty =
     (let p1 = (if isMatrix ty then setMatrix (getMatrixCols ty) (getMatrixRows ty) publicType
                else if isVector ty then setVector (getVectorSize ty) publicType
                else setVector 1 publicType);
          p2 = p1\<lparr>arraySizes := getArraySizes ty\<rparr>;
          newType = setBasicType (getBasicType ty) (setFieldName name (TType_of_public p2))
      in (p2, newType))"

fun createMemberTypes ::
  "TIntermediate \<Rightarrow> TPublicType \<Rightarrow> (string \<times> addr) list \<Rightarrow> error + TType list" where
  "createMemberTypes t publicType [] = Inr []"
| "createMemberTypes t publicType ((name, symbol) # rest) =
     (case symbolType t symbol of
        Inl e \<Rightarrow> Inl e
      | Inr ty \<Rightarrow>
         (case createMemberType publicType name ty of (p', newType) \<Rightarrow>
          (case createMemberTypes t p' rest of
             Inl e \<Rightarrow> Inl e
           | Inr members \<Rightarrow> Inr (newType # members))))"

definition structQualifier :: TQualifier where
  "structQualifier = (clearLayout zeroQualifier)
     \<lparr>storage := EvqUniform, layoutMatrix := ElmColumnMajor, layoutPacking := ElpStd140,
      layoutBinding := 0\<rparr>"

text \<open>
  The loop that creates one indexing operation per member, from index \<open>idx\<close> on:
  \<open>addConstantUnion\<close>, \<open>addBinaryNode\<close>, \<open>setType\<close>, and the entry of the map.
\<close>

fun createIndexOperations ::
  "addr \<Rightarrow> nat \<Rightarrow> TType list \<Rightarrow> (string \<times> ptr) list \<Rightarrow> TIntermediate
     \<Rightarrow> (string \<times> ptr) list \<times> TIntermediate" where
  "createIndexOperations structSymbol idx [] m t = (m, t)"
| "createIndexOperations structSymbol idx (memberType # rest) m t =
     (case addNode (TIntermConstantUnion idx uintConstType) t of (t1, right) \<Rightarrow>
      (case addNode (TIntermBinary EOpIndexDirectStruct (Some structSymbol) (Some right) memberType) t1 of
         (t2, binary) \<Rightarrow>
           createIndexOperations structSymbol (Suc idx) rest
             (map_assign (getFieldName memberType) (Some binary) m) t2))"

text \<open>
  The loop over the linker objects, from the last to the first: \<open>eraseLinkerObjects\<close>
  takes the sequence reversed and returns the entries that stay (reversed too) and the
  log of released nodes.
\<close>

fun eraseLinkerObjects ::
  "TIntermediate \<Rightarrow> (string \<times> addr) list \<Rightarrow> ptr list \<Rightarrow> addr list \<Rightarrow> error + ptr list \<times> addr list" where
  "eraseLinkerObjects t m [] rel = Inr ([], rel)"
| "eraseLinkerObjects t m (c # cs) rel =
     (case getNode t c of
        Inl e \<Rightarrow> Inl e
      | Inr n \<Rightarrow>
         (case getAsSymbolNode n of
            None \<Rightarrow>
              (case eraseLinkerObjects t m cs rel of
                 Inl e \<Rightarrow> Inl e
               | Inr (cs', rel') \<Rightarrow> Inr (c # cs', rel'))
          | Some (i, name, ty) \<Rightarrow>
              (case map_find m name of
                 None \<Rightarrow>
                   (case eraseLinkerObjects t m cs rel of
                      Inl e \<Rightarrow> Inl e
                    | Inr (cs', rel') \<Rightarrow> Inr (c # cs', rel'))
               | Some found \<Rightarrow> eraseLinkerObjects t m cs (rel @ [the c]))))"

text \<open>
  \<open>Traverse(intermediate, ids, scope)\<close> in two halves: what is built from the traverser's
  caches (the struct's members, the struct symbol, the indexing operations), and the
  edits of the tree. The allocation scope only owns the new types and is not modelled.
\<close>

definition buildStruct ::
  "NonSamplerUniformToStructTraverser \<Rightarrow> nat \<Rightarrow> TIntermediate
     \<Rightarrow> error + TType list \<times> addr \<times> (string \<times> ptr) list \<times> nat \<times> TIntermediate" where
  "buildStruct tv ids t =
     (case createMemberTypes t memberPublicType (m_uniformNameToSymbol tv) of
        Inl e \<Rightarrow> Inl e
      | Inr structMembers \<Rightarrow>
         (case Next ids of (newId, ids') \<Rightarrow>
          (case addNode (TIntermSymbol newId ''anon@0'' (TType_of_block structMembers ''Frame'' structQualifier)) t of
             (t1, structSymbol) \<Rightarrow>
               (case createIndexOperations structSymbol 0 structMembers [] t1 of
                  (originalNameToReplacement, t2) \<Rightarrow>
                    Inr (structMembers, structSymbol, originalNameToReplacement, ids', t2)))))"

definition NonSamplerUniformToStructTraverser_Traverse ::
  "nat \<Rightarrow> nat \<Rightarrow> TIntermediate \<Rightarrow> (error + nat \<times> TIntermediate) option" where
  "NonSamplerUniformToStructTraverser_Traverse fuel ids t =
     (case traverse snd NonSamplerUniformToStructTraverser_visitSymbol visitUnaryDefault fuel []
             (treeRoot t) (\<lparr>m_uniformNameToSymbol = [], m_symbolsToParents = []\<rparr>, t) of
        None \<Rightarrow> None
      | Some (Inl e) \<Rightarrow> Some (Inl e)
      | Some (Inr (tv, t0)) \<Rightarrow> Some
         (case buildStruct tv ids t0 of
            Inl e \<Rightarrow> Inl e
          | Inr (structMembers, structSymbol, originalNameToReplacement, ids', t2) \<Rightarrow>
             (case linkerObjectAggregate t2 of
                Inl e \<Rightarrow> Inl e
              | Inr (la, lsq, lty) \<Rightarrow>
                 (case eraseLinkerObjects t2 (m_uniformNameToSymbol tv) (rev lsq) (released t2) of
                    Inl e \<Rightarrow> Inl e
                  | Inr (kept, rel) \<Rightarrow>
                     (case makeReplacements originalNameToReplacement (m_symbolsToParents tv)
                             (setNode la (TIntermAggregate EOpLinkerObjects (Some structSymbol # rev kept) lty)
                                (t2\<lparr>released := rel\<rparr>)) of
                        Inl e \<Rightarrow> Inl e
                      | Inr t3 \<Rightarrow> Inr (ids', t3))))))"

section \<open>\<open>VertexVaryingInTraverser\<close>\<close>

text \<open>
  The traverser is compiled in one of two variants, chosen by the preprocessor condition
  \<^verbatim>\<open>__APPLE__ | APIOpenGL\<close>; the model takes the condition as the parameter \<open>packed\<close>.
  \<open>m_symbolsToParents\<close> of this class is \<open>m_varyingSymbolsToParents\<close> here.
\<close>

record VertexVaryingInTraverser =
  m_genericAttributesRunningCount :: nat
  m_varyingNameToSymbol :: "(string \<times> addr) list"
  m_varyingSymbolsToParents :: "(addr \<times> ptr) list"

definition VertexVaryingInTraverser_visitSymbol ::
  "addr list \<Rightarrow> addr \<Rightarrow> VertexVaryingInTraverser \<times> TIntermediate
     \<Rightarrow> error + VertexVaryingInTraverser \<times> TIntermediate" where
  "VertexVaryingInTraverser_visitSymbol path symbol s =
     (case s of (tv, t) \<Rightarrow>
      (case getNode t (Some symbol) of
         Inr (TIntermSymbol i name ty) \<Rightarrow>
           if storage (getQualifier ty) = EvqVaryingIn
           then (let tv1 = (if isLinkerObject t path
                            then tv\<lparr>m_varyingNameToSymbol := map_assign name symbol (m_varyingNameToSymbol tv)\<rparr>
                            else tv)
                 in Inr (tv1\<lparr>m_varyingSymbolsToParents :=
                               m_varyingSymbolsToParents tv1 @ [(symbol, getParentNode path)]\<rparr>, t))
           else Inr (tv, t)
       | _ \<Rightarrow> Inl InvalidAccess))"

definition s_attribName :: "string list" where
  "s_attribName =
     [''a_position'', ''a_normal'', ''a_tangent'', ''a_bitangent'',
      ''a_color0'', ''a_color1'', ''a_color2'', ''a_color3'',
      ''a_indices'', ''a_weight'',
      ''a_texcoord0'', ''a_texcoord1'', ''a_texcoord2'', ''a_texcoord3'',
      ''a_texcoord4'', ''a_texcoord5'', ''a_texcoord6'', ''a_texcoord7'']"

text \<open>
  \<open>bgfx::Attrib::Enum\<close>, whose values index bgfx's table of attribute names (the table
  \<open>s_attribName\<close> copies): \<open>Position\<close> is 0, \<open>TexCoord0\<close> is 10.
\<close>

datatype Attrib =
  Position | Normal | Tangent | Bitangent | Color0 | Color1 | Color2 | Color3
  | Indices | Weight
  | TexCoord0 | TexCoord1 | TexCoord2 | TexCoord3 | TexCoord4 | TexCoord5 | TexCoord6 | TexCoord7

fun attribValue :: "Attrib \<Rightarrow> nat" where
  "attribValue Position = 0"
| "attribValue Normal = 1"
| "attribValue Tangent = 2"
| "attribValue Bitangent = 3"
| "attribValue Color0 = 4"
| "attribValue Color1 = 5"
| "attribValue Color2 = 6"
| "attribValue Color3 = 7"
| "attribValue Indices = 8"
| "attribValue Weight = 9"
| "attribValue TexCoord0 = 10"
| "attribValue TexCoord1 = 11"
| "attribValue TexCoord2 = 12"
| "attribValue TexCoord3 = 13"
| "attribValue TexCoord4 = 14"
| "attribValue TexCoord5 = 15"
| "attribValue TexCoord6 = 16"
| "attribValue TexCoord7 = 17"

definition FIRST_GENERIC_ATTRIBUTE_LOCATION :: nat where
  "FIRST_GENERIC_ATTRIBUTE_LOCATION = 10"

text \<open>
  \<open>GetVaryingLocationAndNewNameForName\<close>: the location, the new name and the counter
  \<open>m_genericAttributesRunningCount\<close> afterwards. In the packed variant a counter beyond the
  table reads out of range. The counter and the location are \<open>unsigned int\<close> in the
  source and natural numbers here: the two agree as long as fewer than \<open>2 ^ 32\<close> names
  are counted.
\<close>

definition GetVaryingLocationAndNewNameForName ::
  "bool \<Rightarrow> nat \<Rightarrow> string \<Rightarrow> error + (nat \<times> string) \<times> nat" where
  "GetVaryingLocationAndNewNameForName packed count name =
     (if packed
      then (if count < length s_attribName then Inr ((count, s_attribName ! count), Suc count)
            else Inl InvalidAccess)
      else if name = ''position'' then Inr ((attribValue Position, ''a_position''), count)
      else if name = ''normal'' then Inr ((attribValue Normal, ''a_normal''), count)
      else if name = ''tangent'' then Inr ((attribValue Tangent, ''a_tangent''), count)
      else if name = ''uv'' then Inr ((attribValue TexCoord0, ''a_texcoord0''), count)
      else if name = ''uv2'' then Inr ((attribValue TexCoord1, ''a_texcoord1''), count)
      else if name = ''uv3'' then Inr ((attribValue TexCoord2, ''a_texcoord2''), count)
      else if name = ''uv4'' then Inr ((attribValue TexCoord3, ''a_texcoord3''), count)
      else if name = ''color'' then Inr ((attribValue Color0, ''a_color0''), count)
      else if name = ''matricesIndices'' then Inr ((attribValue Indices, ''a_indices''), count)
      else if name = ''matricesWeights'' then Inr ((attribValue Weight, ''a_weight''), count)
      else Inr ((FIRST_GENERIC_ATTRIBUTE_LOCATION + count, name), Suc count))"

text \<open>
  The loop that counts the UV coordinate variables beforehand, and its test of a name.
  The loop is compiled only when the condition \<open>packed\<close> is false.
\<close>

definition isUVName :: "string \<Rightarrow> bool" where
  "isUVName name = (length name \<ge> 2 \<and> name ! 0 = CHR ''u'' \<and> name ! 1 = CHR ''v'')"

fun precountUVs :: "(string \<times> addr) list \<Rightarrow> nat \<Rightarrow> nat" where
  "precountUVs [] count = count"
| "precountUVs ((name, symbol) # rest) count =
     (if isUVName name then precountUVs rest (Suc count) else precountUVs rest count)"

definition preprocessUVs :: "bool \<Rightarrow> VertexVaryingInTraverser \<Rightarrow> VertexVaryingInTraverser" where
  "preprocessUVs packed tv =
     (if packed then tv
      else tv\<lparr>m_genericAttributesRunningCount :=
                precountUVs (m_varyingNameToSymbol tv) (m_genericAttributesRunningCount tv)\<rparr>)"

text \<open>
  The state of the loop that creates the new symbols: the \<open>publicType\<close> it reuses, the
  counter, the identifiers, the two maps and the store.
\<close>

record VaryingLoopState =
  vl_publicType :: TPublicType
  vl_count :: nat
  vl_ids :: nat
  vl_originalNameToReplacement :: "(string \<times> ptr) list"
  vl_replacementToOriginalName :: "(string \<times> string) list"
  vl_tree :: TIntermediate

definition createVaryingSymbol :: "bool \<Rightarrow> string \<times> addr \<Rightarrow> VaryingLoopState \<Rightarrow> error + VaryingLoopState" where
  "createVaryingSymbol packed entry st =
     (case entry of (name, symbol) \<Rightarrow>
      (case symbolType (vl_tree st) symbol of
         Inl e \<Rightarrow> Inl e
       | Inr ty \<Rightarrow>
          (case GetVaryingLocationAndNewNameForName packed (vl_count st) name of
             Inl e \<Rightarrow> Inl e
           | Inr ((location, newName), count') \<Rightarrow>
              (let p0 = (vl_publicType st)\<lparr>qualifier := (getQualifier ty)\<lparr>layoutLocation := location\<rparr>\<rparr>;
                   p1 = (if isMatrix ty then setMatrix (getMatrixCols ty) (getMatrixRows ty) p0
                         else if isVector ty then setVector (getVectorSize ty) p0
                         else p0);
                   newType = setBasicType (getBasicType ty) (TType_of_public p1)
               in (case Next (vl_ids st) of (newId, ids') \<Rightarrow>
                   (case addNode (TIntermSymbol newId newName newType) (vl_tree st) of (t1, newSymbol) \<Rightarrow>
                      Inr (st\<lparr>vl_publicType := p1, vl_count := count', vl_ids := ids',
                              vl_originalNameToReplacement :=
                                map_assign name (Some newSymbol) (vl_originalNameToReplacement st),
                              vl_replacementToOriginalName :=
                                map_assign newName name (vl_replacementToOriginalName st),
                              vl_tree := t1\<rparr>)))))))"

fun createVaryingSymbols :: "bool \<Rightarrow> (string \<times> addr) list \<Rightarrow> VaryingLoopState \<Rightarrow> error + VaryingLoopState" where
  "createVaryingSymbols packed [] st = Inr st"
| "createVaryingSymbols packed (entry # rest) st =
     (case createVaryingSymbol packed entry st of
        Inl e \<Rightarrow> Inl e
      | Inr st' \<Rightarrow> createVaryingSymbols packed rest st')"

text \<open>The state in which the loop that creates the new symbols starts.\<close>

definition varyingLoopStart ::
  "VertexVaryingInTraverser \<Rightarrow> nat \<Rightarrow> (string \<times> string) list \<Rightarrow> TIntermediate \<Rightarrow> VaryingLoopState" where
  "varyingLoopStart tv ids replacementToOriginalName t =
     \<lparr>vl_publicType = zeroPublicType\<lparr>qualifier := clearLayout zeroQualifier\<rparr>,
      vl_count = m_genericAttributesRunningCount tv, vl_ids = ids,
      vl_originalNameToReplacement = [],
      vl_replacementToOriginalName = replacementToOriginalName, vl_tree = t\<rparr>"

text \<open>
  \<open>Traverse(intermediate, ids, replacementToOriginalName)\<close>; the result holds the
  identifiers, the side table and the tree.
\<close>

definition VertexVaryingInTraverser_Traverse ::
  "bool \<Rightarrow> nat \<Rightarrow> nat \<Rightarrow> (string \<times> string) list \<Rightarrow> TIntermediate
     \<Rightarrow> (error + nat \<times> (string \<times> string) list \<times> TIntermediate) option" where
  "VertexVaryingInTraverser_Traverse packed fuel ids replacementToOriginalName t =
     (case traverse snd VertexVaryingInTraverser_visitSymbol visitUnaryDefault fuel [] (treeRoot t)
             (\<lparr>m_genericAttributesRunningCount = 0, m_varyingNameToSymbol = [],
               m_varyingSymbolsToParents = []\<rparr>, t) of
        None \<Rightarrow> None
      | Some (Inl e) \<Rightarrow> Some (Inl e)
      | Some (Inr (tv, t0)) \<Rightarrow> Some
         (case createVaryingSymbols packed (m_varyingNameToSymbol tv)
                 (varyingLoopStart (preprocessUVs packed tv) ids replacementToOriginalName t0) of
            Inl e \<Rightarrow> Inl e
          | Inr st \<Rightarrow>
             (case makeReplacements (vl_originalNameToReplacement st) (m_varyingSymbolsToParents tv)
                     (vl_tree st) of
                Inl e \<Rightarrow> Inl e
              | Inr t1 \<Rightarrow> Inr (vl_ids st, vl_replacementToOriginalName st, t1))))"

section \<open>\<open>SamplerSplitterTraverser\<close>\<close>

text \<open>\<open>m_symbolsToParents\<close> of this class is \<open>m_samplerSymbolsToParents\<close> here.\<close>

record SamplerSplitterTraverser =
  m_samplerNameToSymbol :: "(string \<times> addr) list"
  m_samplerSymbolsToParents :: "(addr \<times> ptr) list"

definition SamplerSplitterTraverser_visitSymbol ::
  "addr list \<Rightarrow> addr \<Rightarrow> SamplerSplitterTraverser \<times> TIntermediate
     \<Rightarrow> error + SamplerSplitterTraverser \<times> TIntermediate" where
  "SamplerSplitterTraverser_visitSymbol path symbol s =
     (case s of (tv, t) \<Rightarrow>
      (case getNode t (Some symbol) of
         Inr (TIntermSymbol i name ty) \<Rightarrow>
           if storage (getQualifier ty) = EvqUniform \<and> getBasicType ty = EbtSampler
           then (if isLinkerObject t path
                 then Inr (tv\<lparr>m_samplerNameToSymbol := map_assign name symbol (m_samplerNameToSymbol tv)\<rparr>, t)
                 else Inr (tv\<lparr>m_samplerSymbolsToParents :=
                                m_samplerSymbolsToParents tv @ [(symbol, getParentNode path)]\<rparr>, t))
           else Inr (tv, t)
       | _ \<Rightarrow> Inl InvalidAccess))"

text \<open>The types of the new texture symbol, of the new sampler symbol and of the aggregate that joins them.\<close>

definition newTextureType :: "TType \<Rightarrow> nat \<Rightarrow> TType" where
  "newTextureType ty layoutBinding' =
     TType_of_public
       (zeroPublicType\<lparr>basicType := getBasicType ty,
          qualifier := (getQualifier ty)\<lparr>precision := EpqHigh, layoutBinding := layoutBinding'\<rparr>,
          sampler := (getSampler ty)\<lparr>combined := False\<rparr>\<rparr>)"

definition newSamplerType :: "TType \<Rightarrow> nat \<Rightarrow> TType" where
  "newSamplerType ty layoutBinding' =
     TType_of_public
       (zeroPublicType\<lparr>basicType := getBasicType ty,
          qualifier := (getQualifier ty)\<lparr>precision := EpqHigh, layoutBinding := layoutBinding'\<rparr>,
          sampler := clearSampler\<lparr>pureSampler := True\<rparr>\<rparr>)"

definition constructTextureSamplerType :: "TType \<Rightarrow> TType" where
  "constructTextureSamplerType ty =
     TType_of_public
       (zeroPublicType\<lparr>basicType := getBasicType ty,
          qualifier := (clearLayout zeroQualifier)\<lparr>storage := EvqTemporary\<rparr>,
          sampler := (getSampler ty)\<lparr>combined := True\<rparr>\<rparr>)"

record SamplerLoopState =
  sl_layoutBinding :: nat
  sl_ids :: nat
  sl_nameToReplacement :: "(string \<times> ptr) list"
  sl_nameToNewTextureAndSampler :: "(string \<times> addr \<times> addr) list"
  sl_tree :: TIntermediate

definition createReplacer :: "string \<times> addr \<Rightarrow> SamplerLoopState \<Rightarrow> error + SamplerLoopState" where
  "createReplacer entry st =
     (case entry of (name, symbol) \<Rightarrow>
      (case symbolType (sl_tree st) symbol of
         Inl e \<Rightarrow> Inl e
       | Inr ty \<Rightarrow>
          (case Next (sl_ids st) of (textureId, ids1) \<Rightarrow>
           (case addNode (TIntermSymbol textureId (name @ ''Texture'') (newTextureType ty (sl_layoutBinding st)))
                   (sl_tree st) of (t1, newTexture) \<Rightarrow>
            (case Next ids1 of (samplerId, ids2) \<Rightarrow>
             (case addNode (TIntermSymbol samplerId name (newSamplerType ty (sl_layoutBinding st))) t1 of
                (t2, newSampler) \<Rightarrow>
                 (case addNode (TIntermAggregate EOpConstructTextureSampler [Some newTexture, Some newSampler]
                                  (constructTextureSamplerType ty)) t2 of
                    (t3, aggregate) \<Rightarrow>
                      Inr (st\<lparr>sl_layoutBinding := Suc (sl_layoutBinding st), sl_ids := ids2,
                              sl_nameToReplacement := map_assign name (Some aggregate) (sl_nameToReplacement st),
                              sl_nameToNewTextureAndSampler :=
                                map_assign name (newTexture, newSampler) (sl_nameToNewTextureAndSampler st),
                              sl_tree := t3\<rparr>))))))))"

fun createReplacers :: "(string \<times> addr) list \<Rightarrow> SamplerLoopState \<Rightarrow> error + SamplerLoopState" where
  "createReplacers [] st = Inr st"
| "createReplacers (entry # rest) st =
     (case createReplacer entry st of
        Inl e \<Rightarrow> Inl e
      | Inr st' \<Rightarrow> createReplacers rest st')"

text \<open>
  The loop over the linker objects, from the last to the first: \<open>splitLinkerObjects\<close>
  takes the sequence reversed and returns the new sequence (reversed too), in which a
  former sampler has given way to its texture followed by its sampler.
\<close>

fun splitLinkerObjects ::
  "TIntermediate \<Rightarrow> (string \<times> addr \<times> addr) list \<Rightarrow> ptr list \<Rightarrow> addr list \<Rightarrow> error + ptr list \<times> addr list" where
  "splitLinkerObjects t m [] rel = Inr ([], rel)"
| "splitLinkerObjects t m (c # cs) rel =
     (case getNode t c of
        Inl e \<Rightarrow> Inl e
      | Inr n \<Rightarrow>
         (case getAsSymbolNode n of
            None \<Rightarrow>
              (case splitLinkerObjects t m cs rel of
                 Inl e \<Rightarrow> Inl e
               | Inr (cs', rel') \<Rightarrow> Inr (c # cs', rel'))
          | Some (i, name, ty) \<Rightarrow>
              (case map_find m name of
                 None \<Rightarrow>
                   (case splitLinkerObjects t m cs rel of
                      Inl e \<Rightarrow> Inl e
                    | Inr (cs', rel') \<Rightarrow> Inr (c # cs', rel'))
               | Some (newTexture, newSampler) \<Rightarrow>
                   (case splitLinkerObjects t m cs (rel @ [the c]) of
                      Inl e \<Rightarrow> Inl e
                    | Inr (cs', rel') \<Rightarrow> Inr (Some newSampler # Some newTexture # cs', rel')))))"

definition SamplerSplitterTraverser_Traverse ::
  "nat \<Rightarrow> nat \<Rightarrow> TIntermediate \<Rightarrow> (error + nat \<times> TIntermediate) option" where
  "SamplerSplitterTraverser_Traverse fuel ids t =
     (case traverse snd SamplerSplitterTraverser_visitSymbol visitUnaryDefault fuel [] (treeRoot t)
             (\<lparr>m_samplerNameToSymbol = [], m_samplerSymbolsToParents = []\<rparr>, t) of
        None \<Rightarrow> None
      | Some (Inl e) \<Rightarrow> Some (Inl e)
      | Some (Inr (tv, t0)) \<Rightarrow> Some
         (case createReplacers (m_samplerNameToSymbol tv)
                 \<lparr>sl_layoutBinding = 0, sl_ids = ids, sl_nameToReplacement = [],
                  sl_nameToNewTextureAndSampler = [], sl_tree = t0\<rparr> of
            Inl e \<Rightarrow> Inl e
          | Inr st \<Rightarrow>
             (case linkerObjectAggregate (sl_tree st) of
                Inl e \<Rightarrow> Inl e
              | Inr (la, lsq, lty) \<Rightarrow>
                 (case splitLinkerObjects (sl_tree st) (sl_nameToNewTextureAndSampler st) (rev lsq)
                         (released (sl_tree st)) of
                    Inl e \<Rightarrow> Inl e
                  | Inr (sq', rel) \<Rightarrow>
                     (case makeReplacements (sl_nameToReplacement st) (m_samplerSymbolsToParents tv)
                             (setNode la (TIntermAggregate EOpLinkerObjects (rev sq') lty)
                                ((sl_tree st)\<lparr>released := rel\<rparr>)) of
                        Inl e \<Rightarrow> Inl e
                      | Inr t1 \<Rightarrow> Inr (sl_ids st, t1))))))"

section \<open>\<open>InvertYDerivativeOperandsTraverser\<close>\<close>

text \<open>The operators of the derivative with respect to the second screen axis.\<close>

definition isDPdy :: "TOperator \<Rightarrow> bool" where
  "isDPdy op = (op = EOpDPdy \<or> op = EOpDPdyFine \<or> op = EOpDPdyCoarse)"

definition InvertYDerivativeOperandsTraverser_visitUnary ::
  "addr \<Rightarrow> TIntermediate \<Rightarrow> error + bool \<times> TIntermediate" where
  "InvertYDerivativeOperandsTraverser_visitUnary unary t =
     (case getNode t (Some unary) of
        Inr (TIntermUnary op x ty) \<Rightarrow>
          if isDPdy op
          then (case x of
                  None \<Rightarrow> Inl InvalidAccess
                | Some operand \<Rightarrow>
                   (case addNode (TIntermUnary EOpNegative (Some operand) defaultOperatorType) t of
                      (t1, negative) \<Rightarrow> Inr (False, setNode unary (TIntermUnary op (Some negative) ty) t1)))
          else Inr (True, t)
      | _ \<Rightarrow> Inl InvalidAccess)"

text \<open>The traverser does not override \<open>visitSymbol\<close>.\<close>

definition visitSymbolDefault :: "addr list \<Rightarrow> addr \<Rightarrow> 's \<Rightarrow> error + 's" where
  "visitSymbolDefault path symbol s = Inr s"

definition InvertYDerivativeOperandsTraverser_Traverse ::
  "nat \<Rightarrow> TIntermediate \<Rightarrow> (error + TIntermediate) option" where
  "InvertYDerivativeOperandsTraverser_Traverse fuel t =
     traverse id visitSymbolDefault InvertYDerivativeOperandsTraverser_visitUnary fuel [] (treeRoot t) t"

text \<open>\<open>UniformTypeChangeTraverser::Traverse(intermediate, ids, scope)\<close>.\<close>

definition UniformTypeChangeTraverser_Traverse ::
  "nat \<Rightarrow> TIntermediate \<Rightarrow> (error + TIntermediate) option" where
  "UniformTypeChangeTraverser_Traverse fuel t =
     traverse id UniformTypeChangeTraverser_visitSymbol visitUnaryDefault fuel [] (treeRoot t) t"

section \<open>The five passes on a program\<close>

text \<open>A program holds one tree per stage; the passes run on the vertex stage first.\<close>

record TProgram =
  vertexIntermediate :: TIntermediate
  fragmentIntermediate :: TIntermediate

definition MoveNonSamplerUniformsIntoStruct ::
  "nat \<Rightarrow> nat \<Rightarrow> TProgram \<Rightarrow> (error + nat \<times> TProgram) option" where
  "MoveNonSamplerUniformsIntoStruct fuel ids program =
     (case NonSamplerUniformToStructTraverser_Traverse fuel ids (vertexIntermediate program) of
        None \<Rightarrow> None
      | Some (Inl e) \<Rightarrow> Some (Inl e)
      | Some (Inr (ids1, v)) \<Rightarrow>
         (case NonSamplerUniformToStructTraverser_Traverse fuel ids1 (fragmentIntermediate program) of
            None \<Rightarrow> None
          | Some (Inl e) \<Rightarrow> Some (Inl e)
          | Some (Inr (ids2, f)) \<Rightarrow>
              Some (Inr (ids2, \<lparr>vertexIntermediate = v, fragmentIntermediate = f\<rparr>))))"

definition ChangeUniformTypes :: "nat \<Rightarrow> TProgram \<Rightarrow> (error + TProgram) option" where
  "ChangeUniformTypes fuel program =
     (case UniformTypeChangeTraverser_Traverse fuel (vertexIntermediate program) of
        None \<Rightarrow> None
      | Some (Inl e) \<Rightarrow> Some (Inl e)
      | Some (Inr v) \<Rightarrow>
         (case UniformTypeChangeTraverser_Traverse fuel (fragmentIntermediate program) of
            None \<Rightarrow> None
          | Some (Inl e) \<Rightarrow> Some (Inl e)
          | Some (Inr f) \<Rightarrow> Some (Inr \<lparr>vertexIntermediate = v, fragmentIntermediate = f\<rparr>)))"

definition AssignLocationsAndNamesToVertexVaryings ::
  "bool \<Rightarrow> nat \<Rightarrow> nat \<Rightarrow> (string \<times> string) list \<Rightarrow> TProgram
     \<Rightarrow> (error + nat \<times> (string \<times> string) list \<times> TProgram) option" where
  "AssignLocationsAndNamesToVertexVaryings packed fuel ids replacementToOriginalName program =
     (case VertexVaryingInTraverser_Traverse packed fuel ids replacementToOriginalName
             (vertexIntermediate program) of
        None \<Rightarrow> None
      | Some (Inl e) \<Rightarrow> Some (Inl e)
      | Some (Inr (ids1, names, v)) \<Rightarrow> Some (Inr (ids1, names, program\<lparr>vertexIntermediate := v\<rparr>)))"

definition SplitSamplersIntoSamplersAndTextures ::
  "nat \<Rightarrow> nat \<Rightarrow> TProgram \<Rightarrow> (error + nat \<times> TProgram) option" where
  "SplitSamplersIntoSamplersAndTextures fuel ids program =
     (case SamplerSplitterTraverser_Traverse fuel ids (vertexIntermediate program) of
        None \<Rightarrow> None
      | Some (Inl e) \<Rightarrow> Some (Inl e)
      | Some (Inr (ids1, v)) \<Rightarrow>
         (case SamplerSplitterTraverser_Traverse fuel ids1 (fragmentIntermediate program) of
            None \<Rightarrow> None
          | Some (Inl e) \<Rightarrow> Some (Inl e)
          | Some (Inr (ids2, f)) \<Rightarrow>
              Some (Inr (ids2, \<lparr>vertexIntermediate = v, fragmentIntermediate = f\<rparr>))))"

definition InvertYDerivativeOperands :: "nat \<Rightarrow> TProgram \<Rightarrow> (error + TProgram) option" where
  "InvertYDerivativeOperands fuel program =
     (case InvertYDerivativeOperandsTraverser_Traverse fuel (fragmentIntermediate program) of
        None \<Rightarrow> None
      | Some (Inl e) \<Rightarrow> Some (Inl e)
      | Some (Inr f) \<Rightarrow> Some (Inr (program\<lparr>fragmentIntermediate := f\<rparr>)))"

section \<open>Predicates and example trees used in the statements\<close>

text \<open>The parent kinds that \<open>makeReplacements\<close> and \<open>injectShapeConversion\<close> know how to edit.\<close>

definition isSupportedParent :: "TIntermNode \<Rightarrow> bool" where
  "isSupportedParent n =
     (getAsAggregate n \<noteq> None \<or> getAsBinaryNode n \<noteq> None \<or> getAsUnaryNode n \<noteq> None)"

definition floatType :: "nat \<Rightarrow> TStorageQualifier \<Rightarrow> TType" where
  "floatType n q = TType EbtFloat n 0 0 None (zeroQualifier\<lparr>storage := q\<rparr>) clearSampler [] [] None"

text \<open>A sum \<open>a + b\<close> of two symbols, beside two symbols \<open>x\<close> and \<open>y\<close> that are not its children.\<close>

definition sumTree :: TIntermediate where
  "sumTree = \<lparr>treeRoot = Some 3,
     nodes = [TIntermSymbol 0 ''a'' (floatType 1 EvqTemporary),
              TIntermSymbol 1 ''b'' (floatType 1 EvqTemporary),
              TIntermSymbol 2 ''x'' (floatType 1 EvqTemporary),
              TIntermBinary EOpAdd (Some 0) (Some 1) (floatType 1 EvqTemporary),
              TIntermSymbol 3 ''y'' (floatType 1 EvqTemporary)],
     released = []\<rparr>"

definition voidType :: TType where
  "voidType = TType EbtVoid 1 0 0 None zeroQualifier clearSampler [] [] None"

text \<open>\<^verbatim>\<open>uniform float u; ... return u;\<close>: the use of \<open>u\<close> is the child of a branch.\<close>

definition returnTree :: TIntermediate where
  "returnTree = \<lparr>treeRoot = Some 4,
     nodes = [TIntermSymbol 1 ''u'' (floatType 1 EvqUniform),
              TIntermBranch EOpReturn (Some 0),
              TIntermSymbol 1 ''u'' (floatType 1 EvqUniform),
              TIntermAggregate EOpLinkerObjects [Some 2] voidType,
              TIntermAggregate EOpSequence [Some 1, Some 3] voidType],
     released = []\<rparr>"

definition vec3ArrayType :: TType where
  "vec3ArrayType = TType EbtFloat 3 0 0 (Some [2]) (zeroQualifier\<lparr>storage := EvqUniform\<rparr>) clearSampler [] [] None"

text \<open>\<^verbatim>\<open>uniform vec3 arr[2]; ... return arr[0];\<close>: the indexing operation is the child of a branch.\<close>

definition arrayReturnTree :: TIntermediate where
  "arrayReturnTree = \<lparr>treeRoot = Some 6,
     nodes = [TIntermSymbol 1 ''arr'' vec3ArrayType,
              TIntermConstantUnion 0 (floatType 1 EvqConst),
              TIntermBinary EOpIndexDirect (Some 0) (Some 1) (floatType 3 EvqTemporary),
              TIntermBranch EOpReturn (Some 2),
              TIntermSymbol 1 ''arr'' vec3ArrayType,
              TIntermAggregate EOpLinkerObjects [Some 4] voidType,
              TIntermAggregate EOpSequence [Some 3, Some 5] voidType],
     released = []\<rparr>"

text \<open>\<^verbatim>\<open>uniform vec3 arr[2]; ... arr[0] + y\<close>: the indexing operation is the left operand of a sum.\<close>

definition arraySumTree :: TIntermediate where
  "arraySumTree = \<lparr>treeRoot = Some 7,
     nodes = [TIntermSymbol 1 ''arr'' vec3ArrayType,
              TIntermConstantUnion 0 (floatType 1 EvqConst),
              TIntermBinary EOpIndexDirect (Some 0) (Some 1) (floatType 3 EvqTemporary),
              TIntermSymbol 2 ''y'' (floatType 3 EvqTemporary),
              TIntermBinary EOpAdd (Some 2) (Some 3) (floatType 3 EvqTemporary),
              TIntermSymbol 1 ''arr'' vec3ArrayType,
              TIntermAggregate EOpLinkerObjects [Some 5] voidType,
              TIntermAggregate EOpSequence [Some 4, Some 6] voidType],
     released = []\<rparr>"

text \<open>
  \<^verbatim>\<open>uniform vec4 arr[2]; ... arr[0] + y\<close>, and the tree after the vector promoter: the
  array symbols and the indexing operation are retyped, and no node is added.
\<close>

definition vec4ArrayType :: TType where
  "vec4ArrayType = TType EbtFloat 4 0 0 (Some [2]) (zeroQualifier\<lparr>storage := EvqUniform\<rparr>) clearSampler [] [] None"

definition vec4ArraySumTree :: TIntermediate where
  "vec4ArraySumTree = \<lparr>treeRoot = Some 7,
     nodes = [TIntermSymbol 1 ''arr'' vec4ArrayType,
              TIntermConstantUnion 0 (floatType 1 EvqConst),
              TIntermBinary EOpIndexDirect (Some 0) (Some 1) (floatType 4 EvqTemporary),
              TIntermSymbol 2 ''y'' (floatType 4 EvqTemporary),
              TIntermBinary EOpAdd (Some 2) (Some 3) (floatType 4 EvqTemporary),
              TIntermSymbol 1 ''arr'' vec4ArrayType,
              TIntermAggregate EOpLinkerObjects [Some 5] voidType,
              TIntermAggregate EOpSequence [Some 4, Some 6] voidType],
     released = []\<rparr>"

definition promotedVec4ArraySumTree :: TIntermediate where
  "promotedVec4ArraySumTree = \<lparr>treeRoot = Some 7,
     nodes = [TIntermSymbol 1 ''arr'' (promotedType vec4ArrayType),
              TIntermConstantUnion 0 (floatType 1 EvqConst),
              TIntermBinary EOpIndexDirect (Some 0) (Some 1) (clearArraySizes (promotedType vec4ArrayType)),
              TIntermSymbol 2 ''y'' (floatType 4 EvqTemporary),
              TIntermBinary EOpAdd (Some 2) (Some 3) (floatType 4 EvqTemporary),
              TIntermSymbol 1 ''arr'' (promotedType vec4ArrayType),
              TIntermAggregate EOpLinkerObjects [Some 5] voidType,
              TIntermAggregate EOpSequence [Some 4, Some 6] voidType],
     released = []\<rparr>"

text \<open>Three uses of the symbol \<open>a\<close>: an argument of a call, the operand of a negation, the right operand of a sum.\<close>

definition callTree :: TIntermediate where
  "callTree = \<lparr>treeRoot = Some 2,
     nodes = [TIntermSymbol 1 ''a'' (floatType 1 EvqUniform),
              TIntermSymbol 2 ''b'' (floatType 1 EvqUniform),
              TIntermAggregate EOpFunctionCall [Some 0, Some 1] (floatType 1 EvqTemporary),
              TIntermUnary EOpNegative (Some 0) (floatType 1 EvqTemporary),
              TIntermBinary EOpAdd (Some 1) (Some 0) (floatType 1 EvqTemporary)],
     released = []\<rparr>"

text \<open>What the struct packer collects: uniforms and buffers that are not samplers.\<close>

definition packingCandidate :: "TType \<Rightarrow> bool" where
  "packingCandidate ty = (isUniformOrBuffer (getQualifier ty) \<and> getBasicType ty \<noteq> EbtSampler)"

text \<open>
  \<^verbatim>\<open>uniform float b; uniform float a; ... b + a\<close>: the traversal meets \<open>b\<close> before \<open>a\<close>, in
  the body and among the linker objects.
\<close>

definition baTree :: TIntermediate where
  "baTree = \<lparr>treeRoot = Some 6,
     nodes = [TIntermSymbol 1 ''b'' (floatType 1 EvqUniform),
              TIntermSymbol 2 ''a'' (floatType 1 EvqUniform),
              TIntermBinary EOpAdd (Some 0) (Some 1) (floatType 1 EvqTemporary),
              TIntermSymbol 1 ''b'' (floatType 1 EvqUniform),
              TIntermSymbol 2 ''a'' (floatType 1 EvqUniform),
              TIntermAggregate EOpLinkerObjects [Some 3, Some 4] voidType,
              TIntermAggregate EOpSequence [Some 2, Some 5] voidType],
     released = []\<rparr>"

text \<open>The member the struct packer creates for a float uniform that is neither vector, matrix nor array.\<close>

definition floatMember :: "string \<Rightarrow> TType" where
  "floatMember name = TType EbtFloat 1 0 0 None (qualifier memberPublicType) clearSampler name [] None"

text \<open>What the caches of the struct packer hold after the traversal of \<open>baTree\<close>.\<close>

definition baTraverser :: NonSamplerUniformToStructTraverser where
  "baTraverser = \<lparr>m_uniformNameToSymbol = [(''a'', 4), (''b'', 3)],
                   m_symbolsToParents = [(0, Some 2), (1, Some 2)]\<rparr>"

text \<open>\<open>baTree\<close> after the struct packer.\<close>

definition packedBaTree :: TIntermediate where
  "packedBaTree = \<lparr>treeRoot = Some 6,
     nodes = [TIntermSymbol 1 ''b'' (floatType 1 EvqUniform),
              TIntermSymbol 2 ''a'' (floatType 1 EvqUniform),
              TIntermBinary EOpAdd (Some 11) (Some 9) (floatType 1 EvqTemporary),
              TIntermSymbol 1 ''b'' (floatType 1 EvqUniform),
              TIntermSymbol 2 ''a'' (floatType 1 EvqUniform),
              TIntermAggregate EOpLinkerObjects [Some 7] voidType,
              TIntermAggregate EOpSequence [Some 2, Some 5] voidType,
              TIntermSymbol 0 ''anon@0''
                (TType_of_block [floatMember ''a'', floatMember ''b''] ''Frame'' structQualifier),
              TIntermConstantUnion 0 uintConstType,
              TIntermBinary EOpIndexDirectStruct (Some 7) (Some 8) (floatMember ''a''),
              TIntermConstantUnion 1 uintConstType,
              TIntermBinary EOpIndexDirectStruct (Some 7) (Some 10) (floatMember ''b'')],
     released = [4, 3, 0, 1]\<rparr>"

text \<open>\<open>baTree\<close> with the struct symbol and the indexing operations, before any edit of the tree.\<close>

definition builtBaTree :: TIntermediate where
  "builtBaTree = baTree\<lparr>nodes := nodes baTree @
     [TIntermSymbol 0 ''anon@0''
        (TType_of_block [floatMember ''a'', floatMember ''b''] ''Frame'' structQualifier),
      TIntermConstantUnion 0 uintConstType,
      TIntermBinary EOpIndexDirectStruct (Some 7) (Some 8) (floatMember ''a''),
      TIntermConstantUnion 1 uintConstType,
      TIntermBinary EOpIndexDirectStruct (Some 7) (Some 10) (floatMember ''b'')]\<rparr>"

text \<open>What the sampler splitter collects: plain uniforms that are samplers.\<close>

definition samplerCandidate :: "TType \<Rightarrow> bool" where
  "samplerCandidate ty = (storage (getQualifier ty) = EvqUniform \<and> getBasicType ty = EbtSampler)"

definition sampler2DType :: TType where
  "sampler2DType = TType EbtSampler 1 0 0 None (zeroQualifier\<lparr>storage := EvqUniform\<rparr>)
     (clearSampler\<lparr>sampledType := EbtFloat, dim := 2, combined := True\<rparr>) [] [] None"

text \<open>\<^verbatim>\<open>uniform sampler2D tex; in vec2 vUV; ... texture(tex, vUV)\<close>.\<close>

definition texTree :: TIntermediate where
  "texTree = \<lparr>treeRoot = Some 5,
     nodes = [TIntermSymbol 1 ''tex'' sampler2DType,
              TIntermSymbol 2 ''vUV'' (floatType 2 EvqVaryingIn),
              TIntermAggregate EOpTexture [Some 0, Some 1] (floatType 4 EvqTemporary),
              TIntermSymbol 1 ''tex'' sampler2DType,
              TIntermAggregate EOpLinkerObjects [Some 3] voidType,
              TIntermAggregate EOpSequence [Some 2, Some 4] voidType],
     released = []\<rparr>"

text \<open>What the caches of the sampler splitter hold after the traversal of \<open>texTree\<close>.\<close>

definition texTraverser :: SamplerSplitterTraverser where
  "texTraverser = \<lparr>m_samplerNameToSymbol = [(''tex'', 3)], m_samplerSymbolsToParents = [(0, Some 2)]\<rparr>"

text \<open>\<open>texTree\<close> after the sampler splitter.\<close>

definition splitTexTree :: TIntermediate where
  "splitTexTree = \<lparr>treeRoot = Some 5,
     nodes = [TIntermSymbol 1 ''tex'' sampler2DType,
              TIntermSymbol 2 ''vUV'' (floatType 2 EvqVaryingIn),
              TIntermAggregate EOpTexture [Some 8, Some 1] (floatType 4 EvqTemporary),
              TIntermSymbol 1 ''tex'' sampler2DType,
              TIntermAggregate EOpLinkerObjects [Some 6, Some 7] voidType,
              TIntermAggregate EOpSequence [Some 2, Some 4] voidType,
              TIntermSymbol 0 ''texTexture'' (newTextureType sampler2DType 0),
              TIntermSymbol 1 ''tex'' (newSamplerType sampler2DType 0),
              TIntermAggregate EOpConstructTextureSampler [Some 6, Some 7]
                (constructTextureSamplerType sampler2DType)],
     released = [3, 0]\<rparr>"

text \<open>The names that the fixed-table variant of \<open>GetVaryingLocationAndNewNameForName\<close> knows.\<close>

definition isTableName :: "string \<Rightarrow> bool" where
  "isTableName name =
     (name = ''position'' \<or> name = ''normal'' \<or> name = ''tangent'' \<or> name = ''uv''
      \<or> name = ''uv2'' \<or> name = ''uv3'' \<or> name = ''uv4'' \<or> name = ''color''
      \<or> name = ''matricesIndices'' \<or> name = ''matricesWeights'')"

text \<open>Whether \<open>GetVaryingLocationAndNewNameForName\<close> advances the counter for a name.\<close>

definition advancesCount :: "bool \<Rightarrow> string \<Rightarrow> bool" where
  "advancesCount packed name = (packed \<or> \<not> isTableName name)"

text \<open>The type of a new vertex attribute: a float vector with a location.\<close>

definition attributeType :: "nat \<Rightarrow> nat \<Rightarrow> TType" where
  "attributeType n location =
     TType EbtFloat n 0 0 None (zeroQualifier\<lparr>storage := EvqVaryingIn, layoutLocation := location\<rparr>)
       clearSampler [] [] None"

text \<open>
  \<^verbatim>\<open>in vec2 uv; in vec3 position; in vec4 splat; ... f(uv, position, splat)\<close>: one
  UV coordinate variable, one other name of the table, and one name outside the table.
\<close>

definition uvTree :: TIntermediate where
  "uvTree = \<lparr>treeRoot = Some 8,
     nodes = [TIntermSymbol 1 ''uv'' (floatType 2 EvqVaryingIn),
              TIntermSymbol 2 ''position'' (floatType 3 EvqVaryingIn),
              TIntermSymbol 3 ''splat'' (floatType 4 EvqVaryingIn),
              TIntermAggregate EOpFunctionCall [Some 0, Some 1, Some 2] voidType,
              TIntermSymbol 2 ''position'' (floatType 3 EvqVaryingIn),
              TIntermSymbol 3 ''splat'' (floatType 4 EvqVaryingIn),
              TIntermSymbol 1 ''uv'' (floatType 2 EvqVaryingIn),
              TIntermAggregate EOpLinkerObjects [Some 4, Some 5, Some 6] voidType,
              TIntermAggregate EOpSequence [Some 3, Some 7] voidType],
     released = []\<rparr>"

text \<open>What the caches of the attribute binder hold after the traversal of \<open>uvTree\<close>.\<close>

definition uvTraverser :: VertexVaryingInTraverser where
  "uvTraverser = \<lparr>m_genericAttributesRunningCount = 0,
     m_varyingNameToSymbol = [(''position'', 4), (''splat'', 5), (''uv'', 6)],
     m_varyingSymbolsToParents =
       [(0, Some 3), (1, Some 3), (2, Some 3), (4, Some 7), (5, Some 7), (6, Some 7)]\<rparr>"

text \<open>\<open>uvTree\<close> after the attribute binder, in the packed variant and in the fixed-table variant.\<close>

definition packedUvTree :: TIntermediate where
  "packedUvTree = \<lparr>treeRoot = Some 8,
     nodes = [TIntermSymbol 1 ''uv'' (floatType 2 EvqVaryingIn),
              TIntermSymbol 2 ''position'' (floatType 3 EvqVaryingIn),
              TIntermSymbol 3 ''splat'' (floatType 4 EvqVaryingIn),
              TIntermAggregate EOpFunctionCall [Some 11, Some 9, Some 10] voidType,
              TIntermSymbol 2 ''position'' (floatType 3 EvqVaryingIn),
              TIntermSymbol 3 ''splat'' (floatType 4 EvqVaryingIn),
              TIntermSymbol 1 ''uv'' (floatType 2 EvqVaryingIn),
              TIntermAggregate EOpLinkerObjects [Some 9, Some 10, Some 11] voidType,
              TIntermAggregate EOpSequence [Some 3, Some 7] voidType,
              TIntermSymbol 0 ''a_position'' (attributeType 3 0),
              TIntermSymbol 1 ''a_normal'' (attributeType 4 1),
              TIntermSymbol 2 ''a_tangent'' (attributeType 2 2)],
     released = [0, 1, 2, 4, 5, 6]\<rparr>"

definition tableUvTree :: TIntermediate where
  "tableUvTree = \<lparr>treeRoot = Some 8,
     nodes = [TIntermSymbol 1 ''uv'' (floatType 2 EvqVaryingIn),
              TIntermSymbol 2 ''position'' (floatType 3 EvqVaryingIn),
              TIntermSymbol 3 ''splat'' (floatType 4 EvqVaryingIn),
              TIntermAggregate EOpFunctionCall [Some 11, Some 9, Some 10] voidType,
              TIntermSymbol 2 ''position'' (floatType 3 EvqVaryingIn),
              TIntermSymbol 3 ''splat'' (floatType 4 EvqVaryingIn),
              TIntermSymbol 1 ''uv'' (floatType 2 EvqVaryingIn),
              TIntermAggregate EOpLinkerObjects [Some 9, Some 10, Some 11] voidType,
              TIntermAggregate EOpSequence [Some 3, Some 7] voidType,
              TIntermSymbol 0 ''a_position'' (attributeType 3 0),
              TIntermSymbol 1 ''splat'' (attributeType 4 11),
              TIntermSymbol 2 ''a_texcoord0'' (attributeType 2 10)],
     released = [0, 1, 2, 4, 5, 6]\<rparr>"

text \<open>
  The derivative nodes that the traversal of the sign inverter reaches, in the order of
  the visits: the traversal of a traverser that logs a unary node with one of the three
  operators and, like the inverter, does not descend into it.
\<close>

definition logDPdy ::
  "addr \<Rightarrow> addr list \<times> TIntermediate \<Rightarrow> error + bool \<times> addr list \<times> TIntermediate" where
  "logDPdy unary s =
     (case getNode (snd s) (Some unary) of
        Inr (TIntermUnary op x ty) \<Rightarrow>
          if isDPdy op
          then (case x of
                  None \<Rightarrow> Inl InvalidAccess
                | Some operand \<Rightarrow> Inr (False, fst s @ [unary], snd s))
          else Inr (True, s)
      | _ \<Rightarrow> Inl InvalidAccess)"

definition derivativeVisits :: "nat \<Rightarrow> TIntermediate \<Rightarrow> (error + addr list) option" where
  "derivativeVisits fuel t =
     (case traverse snd visitSymbolDefault logDPdy fuel [] (treeRoot t) ([], t) of
        None \<Rightarrow> None
      | Some (Inl e) \<Rightarrow> Some (Inl e)
      | Some (Inr (visits, t')) \<Rightarrow> Some (Inr visits))"

text \<open>The number of unary nodes of the store whose operator satisfies \<open>P\<close>.\<close>

definition countUnary :: "(TOperator \<Rightarrow> bool) \<Rightarrow> TIntermediate \<Rightarrow> nat" where
  "countUnary P t =
     length (filter (\<lambda>n. case n of TIntermUnary op x ty \<Rightarrow> P op | _ \<Rightarrow> False) (nodes t))"

definition isNegative :: "TOperator \<Rightarrow> bool" where
  "isNegative op = (op = EOpNegative)"

text \<open>\<^verbatim>\<open>dFdy(dFdy(x))\<close>, and the tree after the sign inverter.\<close>

definition nestedDyTree :: TIntermediate where
  "nestedDyTree = \<lparr>treeRoot = Some 4,
     nodes = [TIntermSymbol 1 ''x'' (floatType 1 EvqVaryingIn),
              TIntermUnary EOpDPdy (Some 0) (floatType 1 EvqTemporary),
              TIntermUnary EOpDPdy (Some 1) (floatType 1 EvqTemporary),
              TIntermAggregate EOpLinkerObjects [] voidType,
              TIntermAggregate EOpSequence [Some 2, Some 3] voidType],
     released = []\<rparr>"

definition invertedNestedDyTree :: TIntermediate where
  "invertedNestedDyTree = \<lparr>treeRoot = Some 4,
     nodes = [TIntermSymbol 1 ''x'' (floatType 1 EvqVaryingIn),
              TIntermUnary EOpDPdy (Some 0) (floatType 1 EvqTemporary),
              TIntermUnary EOpDPdy (Some 5) (floatType 1 EvqTemporary),
              TIntermAggregate EOpLinkerObjects [] voidType,
              TIntermAggregate EOpSequence [Some 2, Some 3] voidType,
              TIntermUnary EOpNegative (Some 1) defaultOperatorType],
     released = []\<rparr>"

text \<open>\<^verbatim>\<open>dFdy(x) + dFdyFine(y)\<close>.\<close>

definition dySumTree :: TIntermediate where
  "dySumTree = \<lparr>treeRoot = Some 6,
     nodes = [TIntermSymbol 1 ''x'' (floatType 1 EvqVaryingIn),
              TIntermUnary EOpDPdy (Some 0) (floatType 1 EvqTemporary),
              TIntermSymbol 2 ''y'' (floatType 1 EvqVaryingIn),
              TIntermUnary EOpDPdyFine (Some 2) (floatType 1 EvqTemporary),
              TIntermBinary EOpAdd (Some 1) (Some 3) (floatType 1 EvqTemporary),
              TIntermAggregate EOpLinkerObjects [] voidType,
              TIntermAggregate EOpSequence [Some 4, Some 5] voidType],
     released = []\<rparr>"

text \<open>
  \<open>visitUnaryAll\<close> applies the inverter's \<open>visitUnary\<close> to a list of nodes in turn.
  \<open>derivativeAt t d\<close>: the node at \<open>d\<close> is a derivative with respect to the second
  screen axis that has an operand. \<open>sameUpToOperands t u\<close>: the store \<open>u\<close> extends \<open>t\<close>
  and differs from it on the nodes of \<open>t\<close> at most in the operands of such derivatives.
\<close>

fun visitUnaryAll :: "addr list \<Rightarrow> TIntermediate \<Rightarrow> error + TIntermediate" where
  "visitUnaryAll [] t = Inr t"
| "visitUnaryAll (unary # rest) t =
     (case InvertYDerivativeOperandsTraverser_visitUnary unary t of
        Inl e \<Rightarrow> Inl e
      | Inr (visit, t') \<Rightarrow> visitUnaryAll rest t')"

definition derivativeAt :: "TIntermediate \<Rightarrow> addr \<Rightarrow> bool" where
  "derivativeAt t d =
     (d < length (nodes t)
      \<and> (case nodes t ! d of TIntermUnary op x ty \<Rightarrow> isDPdy op \<and> x \<noteq> None | _ \<Rightarrow> False))"

definition sameUpToOperands :: "TIntermediate \<Rightarrow> TIntermediate \<Rightarrow> bool" where
  "sameUpToOperands t u =
     (length (nodes t) \<le> length (nodes u)
      \<and> (\<forall>a < length (nodes t).
            nodes u ! a = nodes t ! a \<or> (derivativeAt t a \<and> derivativeAt u a)))"

section \<open>Reading the store\<close>

lemma getNode_Inr_iff:
  "getNode t p = Inr n \<longleftrightarrow> (\<exists>a. p = Some a \<and> a < length (nodes t) \<and> nodes t ! a = n)"
  by (auto simp: getNode_def split: option.splits)

lemma symbolName_Inr_iff:
  "symbolName t s = Inr name \<longleftrightarrow>
     (s < length (nodes t) \<and> (\<exists>i ty. nodes t ! s = TIntermSymbol i name ty))"
  by (auto simp: symbolName_def getNode_def split: sum.splits option.splits elim: getAsSymbolNode.elims)

lemma replaceInSequence_eq:
  "replaceInSequence s r sq rel =
     (map (\<lambda>c. if c = Some s then r else c) sq, rel @ replicate (count_list sq (Some s)) s)"
  by (induction sq arbitrary: rel) (simp_all add: replicate_app_Cons_same)

section \<open>Replacement in a parent of an unsupported kind\<close>

lemma replaceOne_unsupported:
  assumes "symbolName t symbol = Inr name" and "getNode t parent = Inr pn"
    and "\<not> isSupportedParent pn"
  shows "replaceOne m (symbol, parent) t = Inl UnsupportedReplacementTarget"
  using assms
  by (cases pn) (auto simp: replaceOne_def isSupportedParent_def split: prod.splits)

text \<open>What a successful turn of the loop keeps: the size of the store, and the kind of every node.\<close>

lemma replaceOne_keeps:
  assumes "replaceOne m rec t = Inr (m', t')"
  shows "length (nodes t') = length (nodes t)"
    and "isSupportedParent (nodes t' ! a) = isSupportedParent (nodes t ! a)"
    and "getAsSymbolNode (nodes t' ! a) = getAsSymbolNode (nodes t ! a)"
proof -
  obtain symbol parent where rec: "rec = (symbol, parent)" by (cases rec)
  from assms obtain name where n: "symbolName t symbol = Inr name"
    by (auto simp: replaceOne_def rec split: sum.splits)
  from assms n obtain pn where pn: "getNode t parent = Inr pn"
    by (auto simp: replaceOne_def rec split: sum.splits prod.splits)
  then obtain pa where pa: "parent = Some pa" "pa < length (nodes t)" "nodes t ! pa = pn"
    by (auto simp: getNode_Inr_iff)
  have "length (nodes t') = length (nodes t)
      \<and> isSupportedParent (nodes t' ! a) = isSupportedParent (nodes t ! a)
      \<and> getAsSymbolNode (nodes t' ! a) = getAsSymbolNode (nodes t ! a)"
    using assms n pn pa
    by (cases pn; cases "a = pa")
       (auto simp: replaceOne_def rec RemoveAllTreeNodes_def setNode_def isSupportedParent_def
             split: prod.splits sum.splits option.splits if_splits)
  then show "length (nodes t') = length (nodes t)"
    and "isSupportedParent (nodes t' ! a) = isSupportedParent (nodes t ! a)"
    and "getAsSymbolNode (nodes t' ! a) = getAsSymbolNode (nodes t ! a)"
    by simp_all
qed

lemma replaceOne_keeps_symbolName:
  assumes "replaceOne m rec t = Inr (m', t')"
  shows "symbolName t' s = symbolName t s"
  using replaceOne_keeps(1)[OF assms] replaceOne_keeps(3)[OF assms, of s]
  by (simp add: symbolName_def getNode_def)

lemma replaceOne_keeps_unsupported:
  assumes "replaceOne m rec t = Inr (m', t')" and "getNode t p = Inr pn" and "\<not> isSupportedParent pn"
  shows "\<exists>pn'. getNode t' p = Inr pn' \<and> \<not> isSupportedParent pn'"
  using replaceOne_keeps(1)[OF assms(1)] replaceOne_keeps(2)[OF assms(1)] assms(2,3)
  by (auto simp: getNode_Inr_iff)

lemma makeReplacementsLoop_unsupported:
  assumes "symbolName t symbol = Inr name" and "getNode t parent = Inr pn"
    and "\<not> isSupportedParent pn"
  shows "makeReplacementsLoop m (pre @ (symbol, parent) # post) t \<noteq> Inr t'"
    and "makeReplacementsLoop m pre t = Inr t1 \<Longrightarrow>
         makeReplacementsLoop m (pre @ (symbol, parent) # post) t = Inl UnsupportedReplacementTarget"
  using assms
proof (induction pre arbitrary: m t pn)
  case Nil
  { case 1 then show ?case by (simp add: replaceOne_unsupported)
  next
    case 2 then show ?case by (simp add: replaceOne_unsupported) }
next
  case (Cons rec pre)
  { case 1
    show ?case
    proof (cases "replaceOne m rec t")
      case (Inl e) then show ?thesis by simp
    next
      case (Inr r)
      obtain m' t2 where r: "r = (m', t2)" by (cases r)
      from replaceOne_keeps_unsupported[OF Inr[unfolded r] 1(2,3)]
      obtain pn' where "getNode t2 parent = Inr pn'" "\<not> isSupportedParent pn'" by blast
      with Cons.IH(1)[of t2 pn' m'] replaceOne_keeps_symbolName[OF Inr[unfolded r]] 1(1)
      show ?thesis using Inr r by simp
    qed
  next
    case 2
    show ?case
    proof (cases "replaceOne m rec t")
      case (Inl e) with 2(1) show ?thesis by simp
    next
      case (Inr r)
      obtain m' t2 where r: "r = (m', t2)" by (cases r)
      from replaceOne_keeps_unsupported[OF Inr[unfolded r] 2(3,4)]
      obtain pn' where "getNode t2 parent = Inr pn'" "\<not> isSupportedParent pn'" by blast
      with Cons.IH(2)[of m' t2 pn'] replaceOne_keeps_symbolName[OF Inr[unfolded r]] 2(1,2)
      show ?thesis using Inr r by simp
    qed }
qed

lemma injectShapeConversion_unsupported:
  assumes "getNode t parent = Inr pn" and "\<not> isSupportedParent pn"
  shows "injectShapeConversion node parent conv t = Inl UnsupportedReplacementTarget"
  using assms
  by (cases pn) (auto simp: injectShapeConversion_def isSupportedParent_def)

section \<open>The types of the vector promoter\<close>

lemma isLinkerObject_setType:
  assumes "s < length (nodes t)" "nodes t ! s = TIntermSymbol i name ty"
  shows "isLinkerObject (setNode s (TIntermSymbol i name ty') t) path = isLinkerObject t path"
  using assms
  by (cases "path ! 1 = s") (auto simp: isLinkerObject_def getNode_def setNode_def)

lemma promotedType_simps:
  "getBasicType (promotedType ty) = EbtFloat"
  "getVectorSize (promotedType ty) = 4"
  "getMatrixCols (promotedType ty) = 0"
  "getArraySizes (promotedType ty) = getArraySizes ty"
  "getQualifier (promotedType ty) = getQualifier ty"
  by (simp_all add: promotedType_def TType_of_public_def setVector_def zeroPublicType_def)

lemma clearArraySizes_simps:
  "getBasicType (clearArraySizes ty) = getBasicType ty"
  "getVectorSize (clearArraySizes ty) = getVectorSize ty"
  "getMatrixCols (clearArraySizes ty) = getMatrixCols ty"
  "getArraySizes (clearArraySizes ty) = None"
  "getQualifier (clearArraySizes ty) = getQualifier ty"
  by (simp_all add: clearArraySizes_def)

lemma addShapeConversion_cases:
  assumes "getNode t (Some node) = Inr n" "getType n = Some nty"
  shows "addShapeConversion ty node t = Inr (t, node)
       \<or> addShapeConversion ty node t =
           Inr (t\<lparr>nodes := nodes t @ [TIntermAggregate (mapTypeToConstructorOp ty) [Some node] ty]\<rparr>,
                length (nodes t))"
  using assms by (simp add: addShapeConversion_def addNode_def)

lemma visitSymbol_unsupported_parent:
  assumes un: "getNode t parent = Inr pn" "\<not> isSupportedParent pn"
    and st: "symbolType t symbol = Inr ty"
    and cand: "isUniformOrBuffer (getQualifier ty)" "getBasicType ty \<noteq> EbtSampler" "\<not> isMatrix ty"
    and arr: "\<not> isArray ty"
    and nl: "\<not> isLinkerObject t path"
    and par: "getParentNode path = parent"
  shows "UniformTypeChangeTraverser_visitSymbol path symbol t = Inl UnsupportedReplacementTarget"
proof -
  from st obtain i name where s: "symbol < length (nodes t)" "nodes t ! symbol = TIntermSymbol i name ty"
    by (auto simp: symbolType_def getNode_def split: sum.splits option.splits if_splits
             elim!: getAsSymbolNode.elims)
  define t1 where "t1 = setNode symbol (TIntermSymbol i name (promotedType ty)) t"
  have nl1: "\<not> isLinkerObject t1 path"
    using nl isLinkerObject_setType[OF s] by (simp add: t1_def)
  have arr': "\<not> isArray (promotedType ty)" using arr by (simp add: isArray_def promotedType_simps)
  have g1: "getNode t1 (Some symbol) = Inr (TIntermSymbol i name (promotedType ty))"
    using s by (simp add: t1_def getNode_def setNode_def)
  from un obtain pa where pa: "parent = Some pa" "pa < length (nodes t)" "nodes t ! pa = pn"
    by (auto simp: getNode_Inr_iff)
  have u1: "\<exists>pn'. getNode t1 parent = Inr pn' \<and> \<not> isSupportedParent pn'"
    using pa un(2) s by (cases "pa = symbol") (auto simp: t1_def getNode_def setNode_def isSupportedParent_def)
  have step: "UniformTypeChangeTraverser_visitSymbol path symbol t =
     (case addShapeConversion ty symbol t1 of
        Inl e \<Rightarrow> Inl e
      | Inr (t2, shapeConversion) \<Rightarrow> injectShapeConversion symbol parent shapeConversion t2)"
    using st cand nl1 arr' par s
    by (simp add: UniformTypeChangeTraverser_visitSymbol_def Let_def t1_def
          split: sum.splits prod.splits)
  have "addShapeConversion ty symbol t1 = Inr (t1, symbol)
       \<or> addShapeConversion ty symbol t1 =
           Inr (t1\<lparr>nodes := nodes t1 @ [TIntermAggregate (mapTypeToConstructorOp ty) [Some symbol] ty]\<rparr>,
                length (nodes t1))"
    by (rule addShapeConversion_cases[OF g1]) simp
  then show ?thesis
  proof
    assume a: "addShapeConversion ty symbol t1 = Inr (t1, symbol)"
    from u1 obtain pn' where "getNode t1 parent = Inr pn'" "\<not> isSupportedParent pn'" by blast
    then show ?thesis using step a by (simp add: injectShapeConversion_unsupported)
  next
    assume a: "addShapeConversion ty symbol t1 =
      Inr (t1\<lparr>nodes := nodes t1 @ [TIntermAggregate (mapTypeToConstructorOp ty) [Some symbol] ty]\<rparr>,
           length (nodes t1))"
    from u1 obtain pn' where p: "getNode t1 parent = Inr pn'" "\<not> isSupportedParent pn'" by blast
    then have "getNode (t1\<lparr>nodes := nodes t1 @ [TIntermAggregate (mapTypeToConstructorOp ty) [Some symbol] ty]\<rparr>) parent = Inr pn'"
      by (auto simp: getNode_def nth_append split: option.splits if_splits)
    then show ?thesis using step a p(2) by (simp add: injectShapeConversion_unsupported)
  qed
qed

lemma visitSymbol_unsupported_grandparent:
  assumes un: "getNode t (Some grandparent) = Inr pn" "\<not> isSupportedParent pn"
    and st: "symbolType t symbol = Inr ty"
    and cand: "isUniformOrBuffer (getQualifier ty)" "getBasicType ty \<noteq> EbtSampler" "\<not> isMatrix ty"
    and arr: "isArray ty"
    and nl: "\<not> isLinkerObject t path"
    and path: "path = pre @ [grandparent, binary]"
    and bin: "getNode t (Some binary) = Inr (TIntermBinary op l r bty)"
  shows "UniformTypeChangeTraverser_visitSymbol path symbol t = Inl UnsupportedReplacementTarget"
proof -
  from st obtain i name where s: "symbol < length (nodes t)" "nodes t ! symbol = TIntermSymbol i name ty"
    by (auto simp: symbolType_def getNode_def split: sum.splits option.splits if_splits
             elim!: getAsSymbolNode.elims)
  from bin have b: "binary < length (nodes t)" "nodes t ! binary = TIntermBinary op l r bty"
    by (auto simp: getNode_Inr_iff)
  from un have g: "grandparent < length (nodes t)" "nodes t ! grandparent = pn"
    by (auto simp: getNode_Inr_iff)
  from s b have sb: "symbol \<noteq> binary" by auto
  from b g un(2) have gb: "grandparent \<noteq> binary" by (auto simp: isSupportedParent_def)
  define t1 where "t1 = setNode symbol (TIntermSymbol i name (promotedType ty)) t"
  define t2 where "t2 = setNode binary (TIntermBinary op l r (clearArraySizes (promotedType ty))) t1"
  have nl1: "\<not> isLinkerObject t1 path"
    using nl isLinkerObject_setType[OF s] by (simp add: t1_def)
  have par: "getParentNode path = Some binary" "length path > 1"
    "path ! (length path - 2) = grandparent"
    by (simp_all add: path getParentNode_def nth_append)
  have g1: "getNode t1 (Some binary) = Inr (TIntermBinary op l r bty)"
    using b sb by (simp add: t1_def getNode_def setNode_def)
  have arr': "isArray (promotedType ty)" using arr by (simp add: isArray_def promotedType_simps)
  have g2: "getNode t2 (Some binary) = Inr (TIntermBinary op l r (clearArraySizes (promotedType ty)))"
    using b by (simp add: t2_def t1_def getNode_def setNode_def)
  have u2: "\<exists>pn'. getNode t2 (Some grandparent) = Inr pn' \<and> \<not> isSupportedParent pn'"
    using g un(2) s gb
    by (cases "grandparent = symbol") (auto simp: t2_def t1_def getNode_def setNode_def isSupportedParent_def)
  have step: "UniformTypeChangeTraverser_visitSymbol path symbol t =
     (case addShapeConversion bty binary t2 of
        Inl e \<Rightarrow> Inl e
      | Inr (t3, shapeConversion) \<Rightarrow> injectShapeConversion binary (Some grandparent) shapeConversion t3)"
    using st cand nl1 arr' g1 par s
    by (simp add: UniformTypeChangeTraverser_visitSymbol_def Let_def t1_def t2_def
          split: sum.splits prod.splits)
  from u2 obtain pn' where p: "getNode t2 (Some grandparent) = Inr pn'" "\<not> isSupportedParent pn'" by blast
  have "addShapeConversion bty binary t2 = Inr (t2, binary)
       \<or> addShapeConversion bty binary t2 =
           Inr (t2\<lparr>nodes := nodes t2 @ [TIntermAggregate (mapTypeToConstructorOp bty) [Some binary] bty]\<rparr>,
                length (nodes t2))"
    by (rule addShapeConversion_cases[OF g2]) simp
  then show ?thesis
  proof
    assume a: "addShapeConversion bty binary t2 = Inr (t2, binary)"
    then show ?thesis using step p by (simp add: injectShapeConversion_unsupported)
  next
    assume a: "addShapeConversion bty binary t2 =
      Inr (t2\<lparr>nodes := nodes t2 @ [TIntermAggregate (mapTypeToConstructorOp bty) [Some binary] bty]\<rparr>,
           length (nodes t2))"
    from p have "getNode (t2\<lparr>nodes := nodes t2 @ [TIntermAggregate (mapTypeToConstructorOp bty) [Some binary] bty]\<rparr>) (Some grandparent) = Inr pn'"
      by (auto simp: getNode_def nth_append split: option.splits if_splits)
    then show ?thesis using step a p(2) by (simp add: injectShapeConversion_unsupported)
  qed
qed

text \<open>
  C9. A use-site record whose parent is neither an aggregate, nor a binary, nor a unary
  node makes the replacement fail with \<open>UnsupportedReplacementTarget\<close>; the record is never
  skipped. This holds for one turn of the loop of \<open>makeReplacements\<close>; for the batch,
  which returns no tree whatever precedes or follows the record, and raises this very
  error when the records before it were replaced; for \<open>injectShapeConversion\<close>; and for
  the promoter's \<open>visitSymbol\<close>, both at a use site that is not an array (the parent is of
  an unsupported kind) and at an indexed array (the grandparent is).
\<close>

theorem unsupported_parent_raises:
  assumes "symbolName t symbol = Inr name"
    and "getNode t parent = Inr pn"
    and "\<not> isSupportedParent pn"
  shows "replaceOne m (symbol, parent) t = Inl UnsupportedReplacementTarget
     \<and> (\<forall>t'. makeReplacements m (pre @ (symbol, parent) # post) t \<noteq> Inr t')
     \<and> ((\<exists>t1. makeReplacements m pre t = Inr t1) \<longrightarrow>
          makeReplacements m (pre @ (symbol, parent) # post) t = Inl UnsupportedReplacementTarget)
     \<and> injectShapeConversion node parent shapeConversion t = Inl UnsupportedReplacementTarget
     \<and> (\<forall>ty path.
          symbolType t symbol = Inr ty \<and> isUniformOrBuffer (getQualifier ty)
          \<and> getBasicType ty \<noteq> EbtSampler \<and> \<not> isMatrix ty \<and> \<not> isArray ty
          \<and> \<not> isLinkerObject t path \<and> getParentNode path = parent \<longrightarrow>
          UniformTypeChangeTraverser_visitSymbol path symbol t = Inl UnsupportedReplacementTarget)
     \<and> (\<forall>ty path0 binary op l r bty.
          symbolType t symbol = Inr ty \<and> isUniformOrBuffer (getQualifier ty)
          \<and> getBasicType ty \<noteq> EbtSampler \<and> \<not> isMatrix ty \<and> isArray ty
          \<and> \<not> isLinkerObject t (path0 @ [the parent, binary])
          \<and> getNode t (Some binary) = Inr (TIntermBinary op l r bty) \<longrightarrow>
          UniformTypeChangeTraverser_visitSymbol (path0 @ [the parent, binary]) symbol t =
            Inl UnsupportedReplacementTarget)"
proof -
  from assms(2) obtain pa where pa: "parent = Some pa" by (auto simp: getNode_Inr_iff)
  have 1: "replaceOne m (symbol, parent) t = Inl UnsupportedReplacementTarget"
    by (rule replaceOne_unsupported[OF assms])
  have 2: "\<forall>t'. makeReplacements m (pre @ (symbol, parent) # post) t \<noteq> Inr t'"
    using makeReplacementsLoop_unsupported(1)[OF assms] by (simp add: makeReplacements_def)
  have 3: "(\<exists>t1. makeReplacements m pre t = Inr t1) \<longrightarrow>
          makeReplacements m (pre @ (symbol, parent) # post) t = Inl UnsupportedReplacementTarget"
    using makeReplacementsLoop_unsupported(2)[OF assms] by (auto simp: makeReplacements_def)
  have 4: "injectShapeConversion node parent shapeConversion t = Inl UnsupportedReplacementTarget"
    by (rule injectShapeConversion_unsupported[OF assms(2,3)])
  have 5: "\<forall>ty path.
          symbolType t symbol = Inr ty \<and> isUniformOrBuffer (getQualifier ty)
          \<and> getBasicType ty \<noteq> EbtSampler \<and> \<not> isMatrix ty \<and> \<not> isArray ty
          \<and> \<not> isLinkerObject t path \<and> getParentNode path = parent \<longrightarrow>
          UniformTypeChangeTraverser_visitSymbol path symbol t = Inl UnsupportedReplacementTarget"
    using visitSymbol_unsupported_parent[OF assms(2,3)] by blast
  have 6: "\<forall>ty path0 binary op l r bty.
          symbolType t symbol = Inr ty \<and> isUniformOrBuffer (getQualifier ty)
          \<and> getBasicType ty \<noteq> EbtSampler \<and> \<not> isMatrix ty \<and> isArray ty
          \<and> \<not> isLinkerObject t (path0 @ [the parent, binary])
          \<and> getNode t (Some binary) = Inr (TIntermBinary op l r bty) \<longrightarrow>
          UniformTypeChangeTraverser_visitSymbol (path0 @ [the parent, binary]) symbol t =
            Inl UnsupportedReplacementTarget"
    using visitSymbol_unsupported_grandparent[OF assms(2)[unfolded pa] assms(3)]
    by (auto simp: pa)
  from 1 2 3 4 5 6 show ?thesis by blast
qed

theorem unsupported_parent_raises_witness:
  "replaceOne [(''u'', Some 2)] (0, Some 1) returnTree = Inl UnsupportedReplacementTarget
   \<and> makeReplacements [(''u'', Some 2)] [(0, Some 1)] returnTree = Inl UnsupportedReplacementTarget
   \<and> injectShapeConversion 0 (Some 1) 2 returnTree = Inl UnsupportedReplacementTarget
   \<and> UniformTypeChangeTraverser_visitSymbol [4, 1] 0 returnTree = Inl UnsupportedReplacementTarget
   \<and> UniformTypeChangeTraverser_visitSymbol [6, 3, 2] 0 arrayReturnTree = Inl UnsupportedReplacementTarget"
proof -
  have a: "symbolName returnTree 0 = Inr ''u''"
    "getNode returnTree (Some 1) = Inr (TIntermBranch EOpReturn (Some 0))"
    "\<not> isSupportedParent (TIntermBranch EOpReturn (Some 0))"
    by (simp_all add: returnTree_def symbolName_def getNode_def isSupportedParent_def)
  have b: "symbolName arrayReturnTree 0 = Inr ''arr''"
    "getNode arrayReturnTree (Some 3) = Inr (TIntermBranch EOpReturn (Some 2))"
    "\<not> isSupportedParent (TIntermBranch EOpReturn (Some 2))"
    by (simp_all add: arrayReturnTree_def symbolName_def getNode_def isSupportedParent_def)
  have c: "symbolType returnTree 0 = Inr (floatType 1 EvqUniform)"
    "\<not> isLinkerObject returnTree [4, 1]" "getParentNode [4, 1] = Some 1"
    by (simp_all add: returnTree_def symbolType_def getNode_def isLinkerObject_def getParentNode_def)
  have d: "isUniformOrBuffer (getQualifier (floatType 1 EvqUniform))"
    "getBasicType (floatType 1 EvqUniform) \<noteq> EbtSampler"
    "\<not> isMatrix (floatType 1 EvqUniform)" "\<not> isArray (floatType 1 EvqUniform)"
    by (simp_all add: floatType_def isUniformOrBuffer_def zeroQualifier_def isMatrix_def isArray_def)
  have e: "symbolType arrayReturnTree 0 = Inr vec3ArrayType"
    "\<not> isLinkerObject arrayReturnTree ([6] @ [the (Some 3), 2])"
    "getNode arrayReturnTree (Some 2) =
       Inr (TIntermBinary EOpIndexDirect (Some 0) (Some 1) (floatType 3 EvqTemporary))"
    by (simp_all add: arrayReturnTree_def symbolType_def getNode_def isLinkerObject_def)
  have f: "isUniformOrBuffer (getQualifier vec3ArrayType)"
    "getBasicType vec3ArrayType \<noteq> EbtSampler"
    "\<not> isMatrix vec3ArrayType" "isArray vec3ArrayType"
    by (simp_all add: vec3ArrayType_def isUniformOrBuffer_def zeroQualifier_def isMatrix_def isArray_def)
  note r = unsupported_parent_raises[OF a, of "[(''u'', Some 2)]" "[]" "[]" 0 2]
  note s = unsupported_parent_raises[OF b, of "[]" "[]" "[]" 0 0]
  have 1: "replaceOne [(''u'', Some 2)] (0, Some 1) returnTree = Inl UnsupportedReplacementTarget"
    using r by blast
  have 2: "makeReplacements [(''u'', Some 2)] [(0, Some 1)] returnTree = Inl UnsupportedReplacementTarget"
    using r by (simp add: makeReplacements_def)
  have 3: "injectShapeConversion 0 (Some 1) 2 returnTree = Inl UnsupportedReplacementTarget"
    using r by blast
  have 4: "UniformTypeChangeTraverser_visitSymbol [4, 1] 0 returnTree = Inl UnsupportedReplacementTarget"
    using r c d by blast
  have 5: "UniformTypeChangeTraverser_visitSymbol ([6] @ [the (Some 3), 2]) 0 arrayReturnTree =
       Inl UnsupportedReplacementTarget"
    using s e f by blast
  from 1 2 3 4 5 show ?thesis by simp
qed

section \<open>Replacement in a binary parent\<close>

text \<open>
  C4. When the parent of a use-site record is a binary node, so that the symbol of the
  record is the left or the right child of the parent, a turn of the replacement loop
  releases and overwrites with the replacement exactly the child that is the symbol, and
  leaves the other child as it is: the left child when the symbol is the left child (the
  left child is looked at first, also when both children are the symbol), and the right
  child when the symbol is the right child and not the left one.
\<close>

theorem binary_use_site_replacement:
  assumes "symbolName t symbol = Inr name"
    and "getNode t (Some parent) = Inr (TIntermBinary op l r ty)"
    and "map_index m name = (replacement, m')"
    and "l = Some symbol \<or> r = Some symbol"
  shows "replaceOne m (symbol, Some parent) t =
       Inr (m', setNode parent
                  (if l = Some symbol then TIntermBinary op replacement r ty
                   else TIntermBinary op l replacement ty)
                  (t\<lparr>released := released t @ [symbol]\<rparr>))"
  using assms
  by (auto simp: replaceOne_def RemoveAllTreeNodes_def split: prod.splits option.splits)

theorem binary_use_site_replacement_witness:
  "replaceOne [(''a'', Some 4)] (0, Some 3) sumTree =
     Inr ([(''a'', Some 4)],
          setNode 3 (TIntermBinary EOpAdd (Some 4) (Some 1) (floatType 1 EvqTemporary))
            (sumTree\<lparr>released := released sumTree @ [0]\<rparr>))
   \<and> replaceOne [(''b'', Some 4)] (1, Some 3) sumTree =
     Inr ([(''b'', Some 4)],
          setNode 3 (TIntermBinary EOpAdd (Some 0) (Some 4) (floatType 1 EvqTemporary))
            (sumTree\<lparr>released := released sumTree @ [1]\<rparr>))"
proof -
  have p: "getNode sumTree (Some 3) =
       Inr (TIntermBinary EOpAdd (Some 0) (Some 1) (floatType 1 EvqTemporary))"
    by (simp add: sumTree_def getNode_def)
  have a: "symbolName sumTree 0 = Inr ''a''" "map_index [(''a'', Some 4)] ''a'' = (Some 4, [(''a'', Some 4)])"
    "Some 0 = Some (0::nat) \<or> Some 1 = Some (0::nat)"
    by (simp_all add: sumTree_def symbolName_def getNode_def map_index_def map_find_def)
  have b: "symbolName sumTree 1 = Inr ''b''" "map_index [(''b'', Some 4)] ''b'' = (Some 4, [(''b'', Some 4)])"
    "Some 0 = Some (1::nat) \<or> Some 1 = Some (1::nat)"
    by (simp_all add: sumTree_def symbolName_def getNode_def map_index_def map_find_def)
  show ?thesis
    using binary_use_site_replacement[OF a(1) p a(2) a(3)]
          binary_use_site_replacement[OF b(1) p b(2) b(3)]
    by simp
qed

section \<open>The vector promoter at an indexed array\<close>

text \<open>
  When \<open>addShapeConversion\<close> builds a conversion from the promoted element type, a float
  \<open>vec4\<close>, to the former type of the indexing operation.
\<close>

lemma convertsShape_promoted:
  "convertsShape bty (clearArraySizes (promotedType ty)) =
     (isScalar bty \<or> (isVector bty \<and> getVectorSize bty < 4 \<and> \<not> isStruct bty \<and> \<not> isArray bty))"
  by (auto simp: convertsShape_def sameType_def isScalar_def isVector_def isArray_def isStruct_def
        isMatrix_def clearArraySizes_simps promotedType_simps)

lemmas promoter_eval_simps =
  UniformTypeChangeTraverser_visitSymbol_def symbolType_def getNode_def setNode_def addNode_def
  isLinkerObject_def getParentNode_def addShapeConversion_def injectShapeConversion_def
  convertsShape_def sameType_def isUniformOrBuffer_def isMatrix_def isArray_def isVector_def
  isScalar_def isStruct_def promotedType_simps clearArraySizes_simps zeroQualifier_def Let_def

lemma array_use_visitSymbol:
  assumes sym: "getNode t (Some symbol) = Inr (TIntermSymbol i name ty)"
    and cand: "isUniformOrBuffer (getQualifier ty)" "getBasicType ty \<noteq> EbtSampler" "\<not> isMatrix ty"
    and arr: "isArray ty"
    and path: "path = pre @ [grandparent, binary]"
    and nl: "\<not> isLinkerObject t path"
    and bin: "getNode t (Some binary) = Inr (TIntermBinary op l r bty)"
    and gp: "getNode t (Some grandparent) = Inr gn" "isSupportedParent gn"
    and ne: "grandparent \<noteq> binary"
  shows "\<exists>t' conv.
       UniformTypeChangeTraverser_visitSymbol path symbol t = Inr t'
     \<and> getNode t' (Some symbol) = Inr (TIntermSymbol i name (promotedType ty))
     \<and> getNode t' (Some binary) = Inr (TIntermBinary op l r (clearArraySizes (promotedType ty)))
     \<and> getBasicType (clearArraySizes (promotedType ty)) = EbtFloat
     \<and> getVectorSize (clearArraySizes (promotedType ty)) = 4
     \<and> getArraySizes (clearArraySizes (promotedType ty)) = None
     \<and> (if convertsShape bty (clearArraySizes (promotedType ty))
        then conv = length (nodes t)
           \<and> getNode t' (Some conv) = Inr (TIntermAggregate (mapTypeToConstructorOp bty) [Some binary] bty)
        else conv = binary)
     \<and> getNode t' (Some grandparent) = Inr
         (case gn of
            TIntermAggregate gop sq gty \<Rightarrow>
              TIntermAggregate gop (map (\<lambda>c. if c = Some binary then Some conv else c) sq) gty
          | TIntermBinary gop gl gr gty \<Rightarrow>
              (if gl = Some binary then TIntermBinary gop (Some conv) gr gty
               else TIntermBinary gop gl (Some conv) gty)
          | TIntermUnary gop gx gty \<Rightarrow> TIntermUnary gop (Some conv) gty
          | _ \<Rightarrow> gn)"
proof -
  from sym have s: "symbol < length (nodes t)" "nodes t ! symbol = TIntermSymbol i name ty"
    by (auto simp: getNode_Inr_iff)
  from bin have b: "binary < length (nodes t)" "nodes t ! binary = TIntermBinary op l r bty"
    by (auto simp: getNode_Inr_iff)
  from gp have g: "grandparent < length (nodes t)" "nodes t ! grandparent = gn"
    by (auto simp: getNode_Inr_iff)
  from s b have sb: "symbol \<noteq> binary" by auto
  from s g gp(2) have sg: "symbol \<noteq> grandparent" by (auto simp: isSupportedParent_def)
  have st: "symbolType t symbol = Inr ty" using sym by (simp add: symbolType_def)
  define t1 where "t1 = setNode symbol (TIntermSymbol i name (promotedType ty)) t"
  define t2 where "t2 = setNode binary (TIntermBinary op l r (clearArraySizes (promotedType ty))) t1"
  have nl1: "\<not> isLinkerObject t1 path"
    using nl isLinkerObject_setType[OF s] by (simp add: t1_def)
  have par: "getParentNode path = Some binary" "length path > 1"
    "path ! (length path - 2) = grandparent"
    by (simp_all add: path getParentNode_def nth_append)
  have g1: "getNode t1 (Some binary) = Inr (TIntermBinary op l r bty)"
    using b sb by (simp add: t1_def getNode_def setNode_def)
  have arr': "isArray (promotedType ty)" using arr by (simp add: isArray_def promotedType_simps)
  have g2: "getNode t2 (Some binary) = Inr (TIntermBinary op l r (clearArraySizes (promotedType ty)))"
    using b by (simp add: t2_def t1_def getNode_def setNode_def)
  have len2: "length (nodes t2) = length (nodes t)" by (simp add: t2_def t1_def setNode_def)
  have n2: "nodes t2 ! symbol = TIntermSymbol i name (promotedType ty)"
    "nodes t2 ! grandparent = gn"
    using s b g sb sg ne by (simp_all add: t2_def t1_def setNode_def)
  have step: "UniformTypeChangeTraverser_visitSymbol path symbol t =
     (case addShapeConversion bty binary t2 of
        Inl e \<Rightarrow> Inl e
      | Inr (t3, shapeConversion) \<Rightarrow> injectShapeConversion binary (Some grandparent) shapeConversion t3)"
    using st cand nl1 arr' g1 par s
    by (simp add: UniformTypeChangeTraverser_visitSymbol_def Let_def t1_def t2_def
          split: sum.splits prod.splits)
  show ?thesis
  proof (cases "convertsShape bty (clearArraySizes (promotedType ty))")
    case True
    have a: "addShapeConversion bty binary t2 =
       Inr (t2\<lparr>nodes := nodes t2 @ [TIntermAggregate (mapTypeToConstructorOp bty) [Some binary] bty]\<rparr>,
            length (nodes t))"
      using g2 True len2 by (simp add: addShapeConversion_def addNode_def)
    show ?thesis
      using gp(2) g s b sb sg ne n2 len2 True g2
      apply (simp only: step a)
      apply (cases gn)
      apply (auto simp: injectShapeConversion_def getNode_def setNode_def nth_append
                 isSupportedParent_def promotedType_simps clearArraySizes_simps)
      done
  next
    case False
    have a: "addShapeConversion bty binary t2 = Inr (t2, binary)"
      using g2 False by (simp add: addShapeConversion_def)
    show ?thesis
      using gp(2) g s b sb sg ne n2 len2 False g2
      apply (simp only: step a)
      apply (cases gn)
      apply (auto simp: injectShapeConversion_def getNode_def setNode_def nth_append
                 isSupportedParent_def promotedType_simps clearArraySizes_simps)
      done
  qed
qed

text \<open>
  C2, as amended. At a use site of an array-typed uniform (uniform or buffer, neither
  sampler nor matrix) that is not a linker object and whose parent is a binary node, the
  indexing operation, \<open>visitSymbol\<close> gives the symbol the promoted type, gives the
  indexing operation itself that type without the array sizes (a float \<open>vec4\<close>), and
  leaves the children of the indexing operation as they are: nothing comes between the
  array symbol and the indexing operation. Where the indexing operation was in the
  grandparent it puts the result of \<open>addShapeConversion\<close> for the indexing operation's
  former type. When that former type is a scalar or a vector of fewer than four
  components, this is a new constructor aggregate of the former type whose only child is
  the indexing operation, so the conversion sits between the indexing operation and the
  grandparent. Otherwise (the elements already have four components) no conversion is
  built and the grandparent keeps the indexing operation as its child. The grandparent is
  an aggregate, a binary or a unary node here; C9 covers the others.
\<close>

theorem array_use_conversion_above_index:
  assumes sym: "getNode t (Some symbol) = Inr (TIntermSymbol i name ty)"
    and cand: "isUniformOrBuffer (getQualifier ty)" "getBasicType ty \<noteq> EbtSampler" "\<not> isMatrix ty"
    and arr: "isArray ty"
    and path: "path = pre @ [grandparent, binary]"
    and nl: "\<not> isLinkerObject t path"
    and bin: "getNode t (Some binary) = Inr (TIntermBinary op l r bty)"
    and gp: "getNode t (Some grandparent) = Inr gn" "isSupportedParent gn"
    and ne: "grandparent \<noteq> binary"
  shows "\<exists>t' conv.
       UniformTypeChangeTraverser_visitSymbol path symbol t = Inr t'
     \<and> getNode t' (Some symbol) = Inr (TIntermSymbol i name (promotedType ty))
     \<and> getNode t' (Some binary) = Inr (TIntermBinary op l r (clearArraySizes (promotedType ty)))
     \<and> getBasicType (clearArraySizes (promotedType ty)) = EbtFloat
     \<and> getVectorSize (clearArraySizes (promotedType ty)) = 4
     \<and> getArraySizes (clearArraySizes (promotedType ty)) = None
     \<and> (if isScalar bty \<or> (isVector bty \<and> getVectorSize bty < 4 \<and> \<not> isStruct bty \<and> \<not> isArray bty)
        then conv = length (nodes t)
           \<and> getNode t' (Some conv) = Inr (TIntermAggregate (mapTypeToConstructorOp bty) [Some binary] bty)
        else conv = binary)
     \<and> getNode t' (Some grandparent) = Inr
         (case gn of
            TIntermAggregate gop sq gty \<Rightarrow>
              TIntermAggregate gop (map (\<lambda>c. if c = Some binary then Some conv else c) sq) gty
          | TIntermBinary gop gl gr gty \<Rightarrow>
              (if gl = Some binary then TIntermBinary gop (Some conv) gr gty
               else TIntermBinary gop gl (Some conv) gty)
          | TIntermUnary gop gx gty \<Rightarrow> TIntermUnary gop (Some conv) gty
          | _ \<Rightarrow> gn)"
  using array_use_visitSymbol[OF assms] unfolding convertsShape_promoted .

theorem array_use_conversion_above_index_witness:
  "\<exists>t'. UniformTypeChangeTraverser_visitSymbol [7, 4, 2] 0 arraySumTree = Inr t'
     \<and> getNode t' (Some 2) =
         Inr (TIntermBinary EOpIndexDirect (Some 0) (Some 1) (clearArraySizes (promotedType vec3ArrayType)))
     \<and> getNode t' (Some 8) =
         Inr (TIntermAggregate (EOpConstruct EbtFloat 3) [Some 2] (floatType 3 EvqTemporary))
     \<and> getNode t' (Some 4) =
         Inr (TIntermBinary EOpAdd (Some 8) (Some 3) (floatType 3 EvqTemporary))"
proof -
  have sym: "getNode arraySumTree (Some 0) = Inr (TIntermSymbol 1 ''arr'' vec3ArrayType)"
    by (simp add: arraySumTree_def getNode_def)
  have cand: "isUniformOrBuffer (getQualifier vec3ArrayType)"
    "getBasicType vec3ArrayType \<noteq> EbtSampler"
    "\<not> isMatrix vec3ArrayType" "isArray vec3ArrayType"
    by (simp_all add: vec3ArrayType_def isUniformOrBuffer_def zeroQualifier_def isMatrix_def isArray_def)
  have path: "[7, 4, 2] = [7] @ [4, 2::nat]" by simp
  have nl: "\<not> isLinkerObject arraySumTree [7, 4, 2]"
    by (simp add: arraySumTree_def isLinkerObject_def getNode_def)
  have bin: "getNode arraySumTree (Some 2) =
       Inr (TIntermBinary EOpIndexDirect (Some 0) (Some 1) (floatType 3 EvqTemporary))"
    by (simp add: arraySumTree_def getNode_def)
  have gp: "getNode arraySumTree (Some 4) =
       Inr (TIntermBinary EOpAdd (Some 2) (Some 3) (floatType 3 EvqTemporary))"
    "isSupportedParent (TIntermBinary EOpAdd (Some 2) (Some 3) (floatType 3 EvqTemporary))"
    by (simp_all add: arraySumTree_def getNode_def isSupportedParent_def)
  have ne: "(4::nat) \<noteq> 2" by simp
  have cs: "isScalar (floatType 3 EvqTemporary)
      \<or> (isVector (floatType 3 EvqTemporary) \<and> getVectorSize (floatType 3 EvqTemporary) < 4
         \<and> \<not> isStruct (floatType 3 EvqTemporary) \<and> \<not> isArray (floatType 3 EvqTemporary))"
    by (simp add: floatType_def isStruct_def isArray_def isVector_def)
  have len: "length (nodes arraySumTree) = 8" by (simp add: arraySumTree_def)
  from array_use_conversion_above_index[OF sym cand path nl bin gp ne]
  obtain t' conv where r:
    "UniformTypeChangeTraverser_visitSymbol [7, 4, 2] 0 arraySumTree = Inr t'"
    "getNode t' (Some 2) =
       Inr (TIntermBinary EOpIndexDirect (Some 0) (Some 1) (clearArraySizes (promotedType vec3ArrayType)))"
    "if isScalar (floatType 3 EvqTemporary)
         \<or> (isVector (floatType 3 EvqTemporary) \<and> getVectorSize (floatType 3 EvqTemporary) < 4
            \<and> \<not> isStruct (floatType 3 EvqTemporary) \<and> \<not> isArray (floatType 3 EvqTemporary))
     then conv = length (nodes arraySumTree)
        \<and> getNode t' (Some conv) =
            Inr (TIntermAggregate (mapTypeToConstructorOp (floatType 3 EvqTemporary)) [Some 2]
                   (floatType 3 EvqTemporary))
     else conv = 2"
    "getNode t' (Some 4) = Inr (TIntermBinary EOpAdd (Some conv) (Some 3) (floatType 3 EvqTemporary))"
    by auto
  from r(3) have c: "conv = 8"
    "getNode t' (Some 8) =
       Inr (TIntermAggregate (mapTypeToConstructorOp (floatType 3 EvqTemporary)) [Some 2]
              (floatType 3 EvqTemporary))"
    by (auto simp only: cs len if_True)
  have m: "mapTypeToConstructorOp (floatType 3 EvqTemporary) = EOpConstruct EbtFloat 3"
    by (simp add: mapTypeToConstructorOp_def floatType_def)
  from r(1,2,4) c show ?thesis by (simp add: m)
qed

text \<open>
  C2 as stated fails for an array of \<open>vec4\<close>: at the use of \<open>arr\<close> in \<open>arr[0] + y\<close> the
  promoter retypes the symbol and the indexing operation and inserts nothing; the sum
  still has the indexing operation as its left child, and the whole pass returns a tree
  with as many nodes as before.
\<close>

theorem array_use_conversion_above_index_counterexample:
  "getNode vec4ArraySumTree (Some 0) = Inr (TIntermSymbol 1 ''arr'' vec4ArrayType)
   \<and> isUniformOrBuffer (getQualifier vec4ArrayType) \<and> getBasicType vec4ArrayType \<noteq> EbtSampler
   \<and> \<not> isMatrix vec4ArrayType \<and> isArray vec4ArrayType
   \<and> \<not> isLinkerObject vec4ArraySumTree [7, 4, 2]
   \<and> getNode vec4ArraySumTree (Some 2) =
       Inr (TIntermBinary EOpIndexDirect (Some 0) (Some 1) (floatType 4 EvqTemporary))
   \<and> UniformTypeChangeTraverser_visitSymbol [7, 4, 2] 0 vec4ArraySumTree =
       Inr (vec4ArraySumTree\<lparr>nodes := (nodes vec4ArraySumTree)
              [0 := TIntermSymbol 1 ''arr'' (promotedType vec4ArrayType),
               2 := TIntermBinary EOpIndexDirect (Some 0) (Some 1)
                      (clearArraySizes (promotedType vec4ArrayType))]\<rparr>)
   \<and> UniformTypeChangeTraverser_Traverse 10 vec4ArraySumTree = Some (Inr promotedVec4ArraySumTree)
   \<and> length (nodes promotedVec4ArraySumTree) = length (nodes vec4ArraySumTree)
   \<and> getNode promotedVec4ArraySumTree (Some 4) =
       Inr (TIntermBinary EOpAdd (Some 2) (Some 3) (floatType 4 EvqTemporary))
   \<and> getNode promotedVec4ArraySumTree (Some 2) =
       Inr (TIntermBinary EOpIndexDirect (Some 0) (Some 1) (clearArraySizes (promotedType vec4ArrayType)))"
proof -
  have 1: "getNode vec4ArraySumTree (Some 0) = Inr (TIntermSymbol 1 ''arr'' vec4ArrayType)"
    "\<not> isLinkerObject vec4ArraySumTree [7, 4, 2]"
    "getNode vec4ArraySumTree (Some 2) =
       Inr (TIntermBinary EOpIndexDirect (Some 0) (Some 1) (floatType 4 EvqTemporary))"
    by (simp_all add: vec4ArraySumTree_def getNode_def isLinkerObject_def)
  have 2: "isUniformOrBuffer (getQualifier vec4ArrayType)" "getBasicType vec4ArrayType \<noteq> EbtSampler"
    "\<not> isMatrix vec4ArrayType" "isArray vec4ArrayType"
    by (simp_all add: vec4ArrayType_def isUniformOrBuffer_def zeroQualifier_def isMatrix_def isArray_def)
  have 3: "UniformTypeChangeTraverser_visitSymbol [7, 4, 2] 0 vec4ArraySumTree =
       Inr (vec4ArraySumTree\<lparr>nodes := (nodes vec4ArraySumTree)
              [0 := TIntermSymbol 1 ''arr'' (promotedType vec4ArrayType),
               2 := TIntermBinary EOpIndexDirect (Some 0) (Some 1)
                      (clearArraySizes (promotedType vec4ArrayType))]\<rparr>)"
    by (simp add: promoter_eval_simps vec4ArraySumTree_def vec4ArrayType_def floatType_def)
  have 4: "UniformTypeChangeTraverser_Traverse 10 vec4ArraySumTree = Some (Inr promotedVec4ArraySumTree)"
    by (simp add: UniformTypeChangeTraverser_Traverse_def promoter_eval_simps eval_nat_numeral
          visitUnaryDefault_def vec4ArraySumTree_def promotedVec4ArraySumTree_def vec4ArrayType_def
          floatType_def)
  have 5: "length (nodes promotedVec4ArraySumTree) = length (nodes vec4ArraySumTree)"
    "getNode promotedVec4ArraySumTree (Some 4) =
       Inr (TIntermBinary EOpAdd (Some 2) (Some 3) (floatType 4 EvqTemporary))"
    "getNode promotedVec4ArraySumTree (Some 2) =
       Inr (TIntermBinary EOpIndexDirect (Some 0) (Some 1) (clearArraySizes (promotedType vec4ArrayType)))"
    by (simp_all add: promotedVec4ArraySumTree_def vec4ArraySumTree_def getNode_def)
  from 1 2 3 4 5 show ?thesis by (intro conjI)
qed

section \<open>What a turn of the replacement loop installs\<close>

lemma replaceOne_supported:
  assumes "symbolName t symbol = Inr name"
    and "getNode t (Some parent) = Inr pn"
    and "map_index m name = (replacement, m')"
  shows "(map_find m name = None \<longrightarrow> replacement = None \<and> m' = map_assign name None m)
     \<and> (\<forall>v. map_find m name = Some v \<longrightarrow> replacement = v \<and> m' = m)
     \<and> (\<forall>op sq ty. pn = TIntermAggregate op sq ty \<longrightarrow>
          replaceOne m (symbol, Some parent) t =
            Inr (m', setNode parent
                       (TIntermAggregate op (map (\<lambda>c. if c = Some symbol then replacement else c) sq) ty)
                       (t\<lparr>released := released t @ replicate (count_list sq (Some symbol)) symbol\<rparr>)))
     \<and> (\<forall>op r ty. pn = TIntermBinary op (Some symbol) r ty \<longrightarrow>
          replaceOne m (symbol, Some parent) t =
            Inr (m', setNode parent (TIntermBinary op replacement r ty)
                       (t\<lparr>released := released t @ [symbol]\<rparr>)))
     \<and> (\<forall>op l ty. pn = TIntermBinary op l (Some symbol) ty \<and> l \<noteq> Some symbol \<longrightarrow>
          replaceOne m (symbol, Some parent) t =
            Inr (m', setNode parent (TIntermBinary op l replacement ty)
                       (t\<lparr>released := released t @ [symbol]\<rparr>)))
     \<and> (\<forall>op ty. pn = TIntermUnary op (Some symbol) ty \<longrightarrow>
          replaceOne m (symbol, Some parent) t =
            Inr (m', setNode parent (TIntermUnary op replacement ty)
                       (t\<lparr>released := released t @ [symbol]\<rparr>)))
     \<and> (\<forall>t' recs. replaceOne m (symbol, Some parent) t = Inr (m', t') \<longrightarrow>
          makeReplacements m ((symbol, Some parent) # recs) t = makeReplacements m' recs t')"
  using assms
  by (auto simp: replaceOne_def RemoveAllTreeNodes_def replaceInSequence_eq map_index_def
        makeReplacements_def split: option.splits)

text \<open>
  C10. A use-site record whose symbol name has no entry in the map does not make the
  batch fail: the lookup yields the null pointer (and inserts the name with it into the
  local copy of the map), the null pointer is installed in the parent's slot, whether the
  parent is an aggregate, a binary or a unary node, and the batch goes on with the next
  record. A name that has an entry gets the node of that entry installed, so the edited
  parent has no null child only when the name of every record is a key of the map.
\<close>

theorem missing_replacement_installs_null:
  assumes "symbolName t symbol = Inr name"
    and "getNode t (Some parent) = Inr pn"
    and "map_index m name = (replacement, m')"
  shows "(map_find m name = None \<longrightarrow> replacement = None \<and> m' = map_assign name None m)
     \<and> (\<forall>v. map_find m name = Some v \<longrightarrow> replacement = v \<and> m' = m)
     \<and> (\<forall>op sq ty. pn = TIntermAggregate op sq ty \<longrightarrow>
          replaceOne m (symbol, Some parent) t =
            Inr (m', setNode parent
                       (TIntermAggregate op (map (\<lambda>c. if c = Some symbol then replacement else c) sq) ty)
                       (t\<lparr>released := released t @ replicate (count_list sq (Some symbol)) symbol\<rparr>)))
     \<and> (\<forall>op r ty. pn = TIntermBinary op (Some symbol) r ty \<longrightarrow>
          replaceOne m (symbol, Some parent) t =
            Inr (m', setNode parent (TIntermBinary op replacement r ty)
                       (t\<lparr>released := released t @ [symbol]\<rparr>)))
     \<and> (\<forall>op l ty. pn = TIntermBinary op l (Some symbol) ty \<and> l \<noteq> Some symbol \<longrightarrow>
          replaceOne m (symbol, Some parent) t =
            Inr (m', setNode parent (TIntermBinary op l replacement ty)
                       (t\<lparr>released := released t @ [symbol]\<rparr>)))
     \<and> (\<forall>op ty. pn = TIntermUnary op (Some symbol) ty \<longrightarrow>
          replaceOne m (symbol, Some parent) t =
            Inr (m', setNode parent (TIntermUnary op replacement ty)
                       (t\<lparr>released := released t @ [symbol]\<rparr>)))
     \<and> (\<forall>t' recs. replaceOne m (symbol, Some parent) t = Inr (m', t') \<longrightarrow>
          makeReplacements m ((symbol, Some parent) # recs) t = makeReplacements m' recs t')"
  by (rule replaceOne_supported[OF assms])

theorem missing_replacement_installs_null_witness:
  "makeReplacements [(''b'', Some 1)] [(0, Some 2)] callTree =
     Inr (setNode 2 (TIntermAggregate EOpFunctionCall [None, Some 1] (floatType 1 EvqTemporary))
            (callTree\<lparr>released := [0]\<rparr>))
   \<and> makeReplacements [(''b'', Some 1)] [(0, Some 3)] callTree =
     Inr (setNode 3 (TIntermUnary EOpNegative None (floatType 1 EvqTemporary))
            (callTree\<lparr>released := [0]\<rparr>))
   \<and> makeReplacements [(''b'', Some 1)] [(0, Some 4)] callTree =
     Inr (setNode 4 (TIntermBinary EOpAdd (Some 1) None (floatType 1 EvqTemporary))
            (callTree\<lparr>released := [0]\<rparr>))
   \<and> makeReplacements [(''a'', Some 1)] [(0, Some 4)] callTree =
     Inr (setNode 4 (TIntermBinary EOpAdd (Some 1) (Some 1) (floatType 1 EvqTemporary))
            (callTree\<lparr>released := [0]\<rparr>))"
proof -
  have n: "symbolName callTree 0 = Inr ''a''"
    by (simp add: callTree_def symbolName_def getNode_def)
  have p: "getNode callTree (Some 2) = Inr (TIntermAggregate EOpFunctionCall [Some 0, Some 1] (floatType 1 EvqTemporary))"
    "getNode callTree (Some 3) = Inr (TIntermUnary EOpNegative (Some 0) (floatType 1 EvqTemporary))"
    "getNode callTree (Some 4) = Inr (TIntermBinary EOpAdd (Some 1) (Some 0) (floatType 1 EvqTemporary))"
    by (simp_all add: callTree_def getNode_def)
  have f: "map_find [(''b'', Some (1::nat))] ''a'' = None"
    "map_find [(''a'', Some (1::nat))] ''a'' = Some (Some 1)"
    by (simp_all add: map_find_def)
  have i: "map_index [(''b'', Some 1)] ''a'' = (None, [(''a'', None), (''b'', Some 1)])"
    "map_index [(''a'', Some 1)] ''a'' = (Some 1, [(''a'', Some 1)])"
    by (simp_all add: map_index_def map_find_def)
  have r: "released callTree = []" by (simp add: callTree_def)
  note a = missing_replacement_installs_null[OF n p(1) i(1)]
  note b = missing_replacement_installs_null[OF n p(2) i(1)]
  note c = missing_replacement_installs_null[OF n p(3) i(1)]
  note d = missing_replacement_installs_null[OF n p(3) i(2)]
  have 1: "makeReplacements [(''b'', Some 1)] [(0, Some 2)] callTree =
     Inr (setNode 2 (TIntermAggregate EOpFunctionCall [None, Some 1] (floatType 1 EvqTemporary))
            (callTree\<lparr>released := [0]\<rparr>))"
    using a by (simp add: r makeReplacements_def)
  have 2: "makeReplacements [(''b'', Some 1)] [(0, Some 3)] callTree =
     Inr (setNode 3 (TIntermUnary EOpNegative None (floatType 1 EvqTemporary))
            (callTree\<lparr>released := [0]\<rparr>))"
    using b by (simp add: r makeReplacements_def)
  have 3: "makeReplacements [(''b'', Some 1)] [(0, Some 4)] callTree =
     Inr (setNode 4 (TIntermBinary EOpAdd (Some 1) None (floatType 1 EvqTemporary))
            (callTree\<lparr>released := [0]\<rparr>))"
    using c by (simp add: r makeReplacements_def)
  have 4: "makeReplacements [(''a'', Some 1)] [(0, Some 4)] callTree =
     Inr (setNode 4 (TIntermBinary EOpAdd (Some 1) (Some 1) (floatType 1 EvqTemporary))
            (callTree\<lparr>released := [0]\<rparr>))"
    using d by (simp add: r makeReplacements_def)
  from 1 2 3 4 show ?thesis by simp
qed

section \<open>The visits of a traversal\<close>

lemma foldVisits_append:
  "foldVisits vs (xs @ ys) s =
     (case foldVisits vs xs s of Inl e \<Rightarrow> Inl e | Inr s' \<Rightarrow> foldVisits vs ys s')"
  by (induction xs arbitrary: s) (auto split: sum.splits)

lemma foldVisits_keeps_tree:
  assumes "\<And>path a x t x' t'. vs path a (x, t) = Inr (x', t') \<Longrightarrow> t' = t"
  shows "foldVisits vs visits (x, t) = Inr (x', t') \<Longrightarrow> t' = t"
proof (induction visits arbitrary: x)
  case Nil then show ?case by simp
next
  case (Cons v visits)
  obtain path a where v: "v = (path, a)" by (cases v)
  from Cons.prems obtain x1 t1 where 1: "vs path a (x, t) = Inr (x1, t1)"
    and 2: "foldVisits vs visits (x1, t1) = Inr (x', t')"
    by (auto simp: v split: sum.splits)
  from assms[OF 1] have "t1 = t" .
  with Cons.IH 2 show ?case by simp
qed

text \<open>A traverser that leaves the tree alone makes the visits of the logging traverser.\<close>

lemma traverse_visits:
  assumes keeps: "\<And>path a x t x' t'. vs path a (x, t) = Inr (x', t') \<Longrightarrow> t' = t"
  shows "(traverse snd logVisit visitUnaryDefault n path p (log, t) = Some (Inr (log', t')) \<longrightarrow>
            t' = t \<and> (\<exists>visits. log' = log @ visits
               \<and> (\<forall>(pa, a) \<in> set visits. \<exists>i name ty. getNode t (Some a) = Inr (TIntermSymbol i name ty))
               \<and> (\<forall>x. traverse snd vs visitUnaryDefault n path p (x, t) = Some (foldVisits vs visits (x, t)))))
       \<and> (traverseChildren snd logVisit visitUnaryDefault n path a idx (log, t) = Some (Inr (log', t')) \<longrightarrow>
            t' = t \<and> (\<exists>visits. log' = log @ visits
               \<and> (\<forall>(pa, a) \<in> set visits. \<exists>i name ty. getNode t (Some a) = Inr (TIntermSymbol i name ty))
               \<and> (\<forall>x. traverseChildren snd vs visitUnaryDefault n path a idx (x, t) = Some (foldVisits vs visits (x, t)))))"
proof (induction n arbitrary: path p a idx log log' t')
  case 0
  show ?case by simp
next
  case (Suc n)
  have tr: "traverse snd logVisit visitUnaryDefault (Suc n) path p (log, t) = Some (Inr (log', t')) \<longrightarrow>
            t' = t \<and> (\<exists>visits. log' = log @ visits
               \<and> (\<forall>(pa, a) \<in> set visits. \<exists>i name ty. getNode t (Some a) = Inr (TIntermSymbol i name ty))
               \<and> (\<forall>x. traverse snd vs visitUnaryDefault (Suc n) path p (x, t) = Some (foldVisits vs visits (x, t))))"
  proof
    assume h: "traverse snd logVisit visitUnaryDefault (Suc n) path p (log, t) = Some (Inr (log', t'))"
    then obtain node where node: "getNode t p = Inr node"
      by (auto split: sum.splits)
    then obtain pa where pa: "p = Some pa" by (auto simp: getNode_Inr_iff)
    show "t' = t \<and> (\<exists>visits. log' = log @ visits
               \<and> (\<forall>(pa, a) \<in> set visits. \<exists>i name ty. getNode t (Some a) = Inr (TIntermSymbol i name ty))
               \<and> (\<forall>x. traverse snd vs visitUnaryDefault (Suc n) path p (x, t) = Some (foldVisits vs visits (x, t))))"
    proof (cases "\<exists>i name ty. node = TIntermSymbol i name ty")
      case True
      then obtain i name ty where s: "node = TIntermSymbol i name ty" by blast
      from h node s pa have "log' = log @ [(path, pa)]" "t' = t"
        by (auto simp: logVisit_def)
      moreover have "\<forall>x. traverse snd vs visitUnaryDefault (Suc n) path p (x, t) =
           Some (foldVisits vs [(path, pa)] (x, t))"
        using node s pa by (auto split: sum.splits)
      ultimately show ?thesis using node s pa by (intro conjI exI[of _ "[(path, pa)]"]) auto
    next
      case False
      show ?thesis
      proof (cases "\<exists>v ty. node = TIntermConstantUnion v ty")
        case True
        then obtain v ty where s: "node = TIntermConstantUnion v ty" by blast
        from h node s pa have "log' = log" "t' = t" by auto
        moreover have "\<forall>x. traverse snd vs visitUnaryDefault (Suc n) path p (x, t) =
           Some (foldVisits vs [] (x, t))"
          using node s pa by auto
        ultimately show ?thesis by (intro conjI exI[of _ "[]"]) auto
      next
        case c: False
        have l: "traverse snd logVisit visitUnaryDefault (Suc n) path p (log, t) =
            traverseChildren snd logVisit visitUnaryDefault n (path @ [pa]) pa 0 (log, t)"
          using node False c pa by (cases node) (auto simp: visitUnaryDefault_def)
        have v: "\<And>x. traverse snd vs visitUnaryDefault (Suc n) path p (x, t) =
            traverseChildren snd vs visitUnaryDefault n (path @ [pa]) pa 0 (x, t)"
          using node False c pa by (cases node) (auto simp: visitUnaryDefault_def)
        from h have l': "traverseChildren snd logVisit visitUnaryDefault n (path @ [pa]) pa 0 (log, t) =
            Some (Inr (log', t'))"
          unfolding l .
        from Suc.IH[of "path @ [pa]" p log log' t' pa 0] l'
        have "t' = t \<and> (\<exists>visits. log' = log @ visits
               \<and> (\<forall>(pa, a) \<in> set visits. \<exists>i name ty. getNode t (Some a) = Inr (TIntermSymbol i name ty))
               \<and> (\<forall>x. traverseChildren snd vs visitUnaryDefault n (path @ [pa]) pa 0 (x, t) =
                      Some (foldVisits vs visits (x, t))))"
          by blast
        then show ?thesis unfolding v .
      qed
    qed
  qed
  have ch: "traverseChildren snd logVisit visitUnaryDefault (Suc n) path a idx (log, t) = Some (Inr (log', t')) \<longrightarrow>
            t' = t \<and> (\<exists>visits. log' = log @ visits
               \<and> (\<forall>(pa, a) \<in> set visits. \<exists>i name ty. getNode t (Some a) = Inr (TIntermSymbol i name ty))
               \<and> (\<forall>x. traverseChildren snd vs visitUnaryDefault (Suc n) path a idx (x, t) = Some (foldVisits vs visits (x, t))))"
  proof
    assume h: "traverseChildren snd logVisit visitUnaryDefault (Suc n) path a idx (log, t) = Some (Inr (log', t'))"
    then obtain node where node: "getNode t (Some a) = Inr node"
      by (auto split: sum.splits)
    show "t' = t \<and> (\<exists>visits. log' = log @ visits
               \<and> (\<forall>(pa, a) \<in> set visits. \<exists>i name ty. getNode t (Some a) = Inr (TIntermSymbol i name ty))
               \<and> (\<forall>x. traverseChildren snd vs visitUnaryDefault (Suc n) path a idx (x, t) = Some (foldVisits vs visits (x, t))))"
    proof (cases "idx < length (traversalChildren node)")
      case False
      with h node have "log' = log" "t' = t" by auto
      moreover have "\<forall>x. traverseChildren snd vs visitUnaryDefault (Suc n) path a idx (x, t) =
           Some (foldVisits vs [] (x, t))"
        using node False by auto
      ultimately show ?thesis by (intro conjI exI[of _ "[]"]) auto
    next
      case True
      obtain c skipped where cs: "traversalChildren node ! idx = (c, skipped)"
        by (cases "traversalChildren node ! idx")
      show ?thesis
      proof (cases c)
        case None
        with h node True cs have sk: "skipped"
          and l: "traverseChildren snd logVisit visitUnaryDefault n path a (Suc idx) (log, t) = Some (Inr (log', t'))"
          by (auto split: if_splits)
        have v: "\<And>x. traverseChildren snd vs visitUnaryDefault (Suc n) path a idx (x, t) =
            traverseChildren snd vs visitUnaryDefault n path a (Suc idx) (x, t)"
          using node True cs None sk by auto
        from Suc.IH[of path None log log' t' a "Suc idx"] l
        have "t' = t \<and> (\<exists>visits. log' = log @ visits
               \<and> (\<forall>(pa, a) \<in> set visits. \<exists>i name ty. getNode t (Some a) = Inr (TIntermSymbol i name ty))
               \<and> (\<forall>x. traverseChildren snd vs visitUnaryDefault n path a (Suc idx) (x, t) =
                      Some (foldVisits vs visits (x, t))))"
          by blast
        then show ?thesis unfolding v .
      next
        case (Some ca)
        from h node True cs Some obtain log1 t1 where
          l1: "traverse snd logVisit visitUnaryDefault n path c (log, t) = Some (Inr (log1, t1))"
          and l2: "traverseChildren snd logVisit visitUnaryDefault n path a (Suc idx) (log1, t1) = Some (Inr (log', t'))"
          by (auto split: option.splits sum.splits)
        from l1 Suc.IH[of path c log log1 t1 a idx]
        obtain v1 where 1: "t1 = t" "log1 = log @ v1"
          "\<forall>(pa, a) \<in> set v1. \<exists>i name ty. getNode t (Some a) = Inr (TIntermSymbol i name ty)"
          "\<forall>x. traverse snd vs visitUnaryDefault n path c (x, t) = Some (foldVisits vs v1 (x, t))"
          by auto
        from l2 1(1) Suc.IH[of path c log1 log' t' a "Suc idx"]
        obtain v2 where 2: "t' = t" "log' = log1 @ v2"
          "\<forall>(pa, a) \<in> set v2. \<exists>i name ty. getNode t (Some a) = Inr (TIntermSymbol i name ty)"
          "\<forall>x. traverseChildren snd vs visitUnaryDefault n path a (Suc idx) (x, t) = Some (foldVisits vs v2 (x, t))"
          by auto
        have "\<forall>x. traverseChildren snd vs visitUnaryDefault (Suc n) path a idx (x, t) =
            Some (foldVisits vs (v1 @ v2) (x, t))"
        proof
          fix x
          show "traverseChildren snd vs visitUnaryDefault (Suc n) path a idx (x, t) =
            Some (foldVisits vs (v1 @ v2) (x, t))"
          proof (cases "foldVisits vs v1 (x, t)")
            case (Inl e)
            then show ?thesis using node True cs Some 1(4) by (simp add: foldVisits_append)
          next
            case (Inr s1)
            obtain x1 t1' where s1: "s1 = (x1, t1')" by (cases s1)
            from foldVisits_keeps_tree[OF keeps Inr[unfolded s1]] have "t1' = t" by simp
            then show ?thesis using node True cs Some 1(4) 2(4) Inr s1
              by (simp add: foldVisits_append)
          qed
        qed
        with 1 2 show ?thesis by (intro conjI exI[of _ "v1 @ v2"]) auto
      qed
    qed
  qed
  from tr ch show ?case by blast
qed

section \<open>The map with string keys\<close>

lemma map_of_map_assign:
  "map_of (map_assign k v m) = (map_of m)(k \<mapsto> v)"
  by (induction m) (auto simp: fun_eq_iff)

lemma keys_map_assign:
  "set (map fst (map_assign k v m)) = insert k (set (map fst m))"
  using arg_cong[OF map_of_map_assign[of k v m], of dom]
  by (simp add: dom_map_of_conv_image_fst)

lemma map_find_map_assign:
  "map_find (map_assign k v m) k' = (if k' = k then Some v else map_find m k')"
  by (simp add: map_find_def map_of_map_assign)

lemma sorted_map_assign:
  "sorted_wrt (<) (map fst m) \<Longrightarrow> sorted_wrt (<) (map fst (map_assign k v m))"
proof (induction m)
  case Nil then show ?case by simp
next
  case (Cons e m)
  obtain k' v' where e: "e = (k', v')" by (cases e)
  show ?case
  proof (cases "k < k'")
    case True
    with Cons.prems show ?thesis by (auto simp: e)
  next
    case False
    show ?thesis
    proof (cases "k = k'")
      case True with Cons.prems show ?thesis by (simp add: e)
    next
      case ne: False
      with False have lt: "k' < k" by auto
      from Cons.prems have "sorted_wrt (<) (map fst m)" and a: "\<forall>x\<in>set (map fst m). k' < x"
        by (auto simp: e)
      with Cons.IH have "sorted_wrt (<) (map fst (map_assign k v m))" by simp
      moreover have "\<forall>x\<in>set (map fst (map_assign k v m)). k' < x"
        using a lt by (simp only: keys_map_assign) auto
      ultimately show ?thesis using False ne by (simp add: e)
    qed
  qed
qed

section \<open>What the struct packer collects and builds\<close>

lemma entries_map_assign:
  "set (map_assign k v m) \<subseteq> insert (k, v) (set m)"
  by (induction m) (auto split: if_splits)

lemma packer_keeps_tree:
  "NonSamplerUniformToStructTraverser_visitSymbol path a (x, t) = Inr (x', t') \<Longrightarrow> t' = t"
  by (auto simp: NonSamplerUniformToStructTraverser_visitSymbol_def
           split: sum.splits TIntermNode.splits if_splits)

lemma packer_visit:
  assumes "getNode t (Some a) = Inr (TIntermSymbol i name ty)"
  shows "NonSamplerUniformToStructTraverser_visitSymbol path a (tv, t) =
     Inr (if packingCandidate ty
          then (if isLinkerObject t path
                then tv\<lparr>m_uniformNameToSymbol := map_assign name a (m_uniformNameToSymbol tv)\<rparr>
                else tv\<lparr>m_symbolsToParents := m_symbolsToParents tv @ [(a, getParentNode path)]\<rparr>)
          else tv, t)"
  using assms
  by (simp add: NonSamplerUniformToStructTraverser_visitSymbol_def packingCandidate_def)

lemma packer_fold:
  assumes "\<forall>(path, a) \<in> set visits. \<exists>i name ty. getNode t (Some a) = Inr (TIntermSymbol i name ty)"
  shows "\<exists>tv'. foldVisits NonSamplerUniformToStructTraverser_visitSymbol visits (tv, t) = Inr (tv', t)
     \<and> (sorted_wrt (<) (map fst (m_uniformNameToSymbol tv))
           \<longrightarrow> sorted_wrt (<) (map fst (m_uniformNameToSymbol tv')))
     \<and> set (map fst (m_uniformNameToSymbol tv')) =
          set (map fst (m_uniformNameToSymbol tv))
          \<union> {name. \<exists>path a i ty. (path, a) \<in> set visits
                 \<and> getNode t (Some a) = Inr (TIntermSymbol i name ty)
                 \<and> packingCandidate ty \<and> isLinkerObject t path}
     \<and> ((\<forall>(k, a) \<in> set (m_uniformNameToSymbol tv). \<exists>i ty. getNode t (Some a) = Inr (TIntermSymbol i k ty))
           \<longrightarrow> (\<forall>(k, a) \<in> set (m_uniformNameToSymbol tv'). \<exists>i ty. getNode t (Some a) = Inr (TIntermSymbol i k ty)))
     \<and> m_symbolsToParents tv' =
          m_symbolsToParents tv @
          map (\<lambda>(path, a). (a, getParentNode path))
            (filter (\<lambda>(path, a). \<exists>i name ty. getNode t (Some a) = Inr (TIntermSymbol i name ty)
                       \<and> packingCandidate ty \<and> \<not> isLinkerObject t path) visits)"
  using assms
proof (induction visits arbitrary: tv)
  case Nil
  show ?case by simp
next
  case (Cons v visits)
  obtain path a where v: "v = (path, a)" by (cases v)
  from Cons.prems obtain i name ty where n: "getNode t (Some a) = Inr (TIntermSymbol i name ty)"
    by (auto simp: v)
  define tv1 where "tv1 = (if packingCandidate ty
          then (if isLinkerObject t path
                then tv\<lparr>m_uniformNameToSymbol := map_assign name a (m_uniformNameToSymbol tv)\<rparr>
                else tv\<lparr>m_symbolsToParents := m_symbolsToParents tv @ [(a, getParentNode path)]\<rparr>)
          else tv)"
  have step: "foldVisits NonSamplerUniformToStructTraverser_visitSymbol (v # visits) (tv, t) =
      foldVisits NonSamplerUniformToStructTraverser_visitSymbol visits (tv1, t)"
    by (simp add: v packer_visit[OF n] tv1_def)
  from Cons.prems have rest: "\<forall>(path, a) \<in> set visits. \<exists>i name ty. getNode t (Some a) = Inr (TIntermSymbol i name ty)"
    by simp
  from Cons.IH[OF rest, of tv1] obtain tv' where
    f: "foldVisits NonSamplerUniformToStructTraverser_visitSymbol visits (tv1, t) = Inr (tv', t)"
    and s: "sorted_wrt (<) (map fst (m_uniformNameToSymbol tv1))
           \<longrightarrow> sorted_wrt (<) (map fst (m_uniformNameToSymbol tv'))"
    and k: "set (map fst (m_uniformNameToSymbol tv')) =
          set (map fst (m_uniformNameToSymbol tv1))
          \<union> {name. \<exists>path a i ty. (path, a) \<in> set visits
                 \<and> getNode t (Some a) = Inr (TIntermSymbol i name ty)
                 \<and> packingCandidate ty \<and> isLinkerObject t path}"
    and e: "(\<forall>(k, a) \<in> set (m_uniformNameToSymbol tv1). \<exists>i ty. getNode t (Some a) = Inr (TIntermSymbol i k ty))
           \<longrightarrow> (\<forall>(k, a) \<in> set (m_uniformNameToSymbol tv'). \<exists>i ty. getNode t (Some a) = Inr (TIntermSymbol i k ty))"
    and r: "m_symbolsToParents tv' =
          m_symbolsToParents tv1 @
          map (\<lambda>(path, a). (a, getParentNode path))
            (filter (\<lambda>(path, a). \<exists>i name ty. getNode t (Some a) = Inr (TIntermSymbol i name ty)
                       \<and> packingCandidate ty \<and> \<not> isLinkerObject t path) visits)"
    by blast
  have s1: "sorted_wrt (<) (map fst (m_uniformNameToSymbol tv))
           \<longrightarrow> sorted_wrt (<) (map fst (m_uniformNameToSymbol tv1))"
    by (auto simp: tv1_def sorted_map_assign)
  have k1: "set (map fst (m_uniformNameToSymbol tv1)) =
      set (map fst (m_uniformNameToSymbol tv))
      \<union> (if packingCandidate ty \<and> isLinkerObject t path then {name} else {})"
    using keys_map_assign[of name a "m_uniformNameToSymbol tv"] by (auto simp: tv1_def)
  have e1: "(\<forall>(k, a) \<in> set (m_uniformNameToSymbol tv). \<exists>i ty. getNode t (Some a) = Inr (TIntermSymbol i k ty))
           \<longrightarrow> (\<forall>(k, a) \<in> set (m_uniformNameToSymbol tv1). \<exists>i ty. getNode t (Some a) = Inr (TIntermSymbol i k ty))"
    using n entries_map_assign[of name a "m_uniformNameToSymbol tv"]
    by (auto simp: tv1_def)
  have r1: "m_symbolsToParents tv1 = m_symbolsToParents tv @
      (if packingCandidate ty \<and> \<not> isLinkerObject t path then [(a, getParentNode path)] else [])"
    by (auto simp: tv1_def)
  have k2: "set (map fst (m_uniformNameToSymbol tv')) =
          set (map fst (m_uniformNameToSymbol tv))
          \<union> {name. \<exists>path a i ty. (path, a) \<in> set (v # visits)
                 \<and> getNode t (Some a) = Inr (TIntermSymbol i name ty)
                 \<and> packingCandidate ty \<and> isLinkerObject t path}"
    unfolding k k1 using n by (auto simp: v)
  have r2: "m_symbolsToParents tv' =
          m_symbolsToParents tv @
          map (\<lambda>(path, a). (a, getParentNode path))
            (filter (\<lambda>(path, a). \<exists>i name ty. getNode t (Some a) = Inr (TIntermSymbol i name ty)
                       \<and> packingCandidate ty \<and> \<not> isLinkerObject t path) (v # visits))"
    unfolding r r1 using n by (auto simp: v)
  from f s s1 e e1 k2 r2 show ?case
    unfolding step by blast
qed

lemma getFieldName_createMemberType:
  "getFieldName (snd (createMemberType p name ty)) = name"
  by (simp add: createMemberType_def Let_def setBasicType_def setFieldName_def)

lemma createMemberTypes_names:
  assumes "\<forall>(k, a) \<in> set entries. \<exists>i ty. getNode t (Some a) = Inr (TIntermSymbol i k ty)"
  shows "\<exists>members. createMemberTypes t p entries = Inr members
           \<and> map getFieldName members = map fst entries"
  using assms
proof (induction entries arbitrary: p)
  case Nil
  show ?case by simp
next
  case (Cons e entries)
  obtain k a where e: "e = (k, a)" by (cases e)
  from Cons.prems obtain i ty where n: "getNode t (Some a) = Inr (TIntermSymbol i k ty)"
    by (auto simp: e)
  then have st: "symbolType t a = Inr ty" by (simp add: symbolType_def)
  obtain p' newType where c: "createMemberType p k ty = (p', newType)"
    by (cases "createMemberType p k ty")
  from getFieldName_createMemberType[of p k ty] c have f: "getFieldName newType = k" by simp
  from Cons.prems have "\<forall>(k, a) \<in> set entries. \<exists>i ty. getNode t (Some a) = Inr (TIntermSymbol i k ty)"
    by simp
  from Cons.IH[OF this, of p'] obtain members where
    "createMemberTypes t p' entries = Inr members" "map getFieldName members = map fst entries"
    by blast
  then show ?case by (simp add: e st c f)
qed

lemma createIndexOperations_result:
  assumes "createIndexOperations structSymbol idx members m t = (m', t')"
  shows "length (nodes t') = length (nodes t) + 2 * length members
     \<and> treeRoot t' = treeRoot t \<and> released t' = released t
     \<and> (\<forall>a < length (nodes t). nodes t' ! a = nodes t ! a)
     \<and> (\<forall>k < length members.
           nodes t' ! (length (nodes t) + 2 * k) = TIntermConstantUnion (idx + k) uintConstType
         \<and> nodes t' ! (length (nodes t) + 2 * k + 1) =
             TIntermBinary EOpIndexDirectStruct (Some structSymbol) (Some (length (nodes t) + 2 * k))
               (members ! k))
     \<and> (\<forall>n. n \<notin> set (map getFieldName members) \<longrightarrow> map_find m' n = map_find m n)
     \<and> (distinct (map getFieldName members) \<longrightarrow>
          (\<forall>k < length members.
             map_find m' (getFieldName (members ! k)) = Some (Some (length (nodes t) + 2 * k + 1))))"
  using assms
proof (induction members arbitrary: idx m t)
  case Nil
  then show ?case by simp
next
  case (Cons member rest)
  define t2 where "t2 = t\<lparr>nodes := nodes t @ [TIntermConstantUnion idx uintConstType,
      TIntermBinary EOpIndexDirectStruct (Some structSymbol) (Some (length (nodes t))) member]\<rparr>"
  define m2 where "m2 = map_assign (getFieldName member) (Some (Suc (length (nodes t)))) m"
  from Cons.prems have r: "createIndexOperations structSymbol (Suc idx) rest m2 t2 = (m', t')"
    by (simp add: addNode_def t2_def m2_def)
  have l2: "length (nodes t2) = length (nodes t) + 2" by (simp add: t2_def)
  note ih = Cons.IH[OF r, unfolded l2]
  have pre: "\<forall>a < length (nodes t). nodes t' ! a = nodes t ! a"
    using ih by (auto simp: t2_def nth_append)
  have n0: "nodes t' ! (length (nodes t)) = TIntermConstantUnion idx uintConstType"
    "nodes t' ! (Suc (length (nodes t))) =
       TIntermBinary EOpIndexDirectStruct (Some structSymbol) (Some (length (nodes t))) member"
    using ih by (auto simp: t2_def nth_append)
  have nodes: "\<forall>k < length (member # rest).
           nodes t' ! (length (nodes t) + 2 * k) = TIntermConstantUnion (idx + k) uintConstType
         \<and> nodes t' ! (length (nodes t) + 2 * k + 1) =
             TIntermBinary EOpIndexDirectStruct (Some structSymbol) (Some (length (nodes t) + 2 * k))
               ((member # rest) ! k)"
  proof (intro allI impI)
    fix k assume k: "k < length (member # rest)"
    show "nodes t' ! (length (nodes t) + 2 * k) = TIntermConstantUnion (idx + k) uintConstType
         \<and> nodes t' ! (length (nodes t) + 2 * k + 1) =
             TIntermBinary EOpIndexDirectStruct (Some structSymbol) (Some (length (nodes t) + 2 * k))
               ((member # rest) ! k)"
    proof (cases k)
      case 0
      then show ?thesis using n0 by simp
    next
      case (Suc j)
      with k have j: "j < length rest" by simp
      from ih j have "nodes t' ! (length (nodes t) + 2 + 2 * j) = TIntermConstantUnion (Suc idx + j) uintConstType
         \<and> nodes t' ! (length (nodes t) + 2 + 2 * j + 1) =
             TIntermBinary EOpIndexDirectStruct (Some structSymbol) (Some (length (nodes t) + 2 + 2 * j))
               (rest ! j)"
        by blast
      then show ?thesis by (simp add: Suc add.commute add.left_commute)
    qed
  qed
  have other: "\<forall>n. n \<notin> set (map getFieldName (member # rest)) \<longrightarrow> map_find m' n = map_find m n"
    using ih by (auto simp: m2_def map_find_map_assign)
  have found: "distinct (map getFieldName (member # rest)) \<longrightarrow>
          (\<forall>k < length (member # rest).
             map_find m' (getFieldName ((member # rest) ! k)) = Some (Some (length (nodes t) + 2 * k + 1)))"
  proof (intro allI impI)
    fix k assume d: "distinct (map getFieldName (member # rest))" and k: "k < length (member # rest)"
    show "map_find m' (getFieldName ((member # rest) ! k)) = Some (Some (length (nodes t) + 2 * k + 1))"
    proof (cases k)
      case 0
      from d have "getFieldName member \<notin> set (map getFieldName rest)" by simp
      with ih have "map_find m' (getFieldName member) = map_find m2 (getFieldName member)" by blast
      then show ?thesis by (simp add: 0 m2_def map_find_map_assign)
    next
      case (Suc j)
      with k have j: "j < length rest" by simp
      from d have "distinct (map getFieldName rest)" by simp
      with ih j have "map_find m' (getFieldName (rest ! j)) = Some (Some (length (nodes t) + 2 + 2 * j + 1))"
        by blast
      then show ?thesis by (simp add: Suc)
    qed
  qed
  from ih pre nodes other found show ?case by (simp add: t2_def)
qed

lemma createMemberTypes_success_names:
  "createMemberTypes t p entries = Inr members \<Longrightarrow> map getFieldName members = map fst entries"
proof (induction entries arbitrary: p members)
  case Nil then show ?case by simp
next
  case (Cons e entries)
  obtain k a where e: "e = (k, a)" by (cases e)
  from Cons.prems obtain ty where st: "symbolType t a = Inr ty"
    by (auto simp: e split: sum.splits)
  obtain p' newType where c: "createMemberType p k ty = (p', newType)"
    by (cases "createMemberType p k ty")
  from getFieldName_createMemberType[of p k ty] c have f: "getFieldName newType = k" by simp
  from Cons.prems st c obtain rest where r: "createMemberTypes t p' entries = Inr rest"
    and m: "members = newType # rest"
    by (auto simp: e split: sum.splits)
  from Cons.IH[OF r] show ?case by (simp add: m f e)
qed

lemma buildStruct_result:
  assumes "buildStruct tv ids t = Inr (structMembers, structSymbol, m, ids', t')"
  shows "createMemberTypes t memberPublicType (m_uniformNameToSymbol tv) = Inr structMembers"
    and "structSymbol = length (nodes t)" and "ids' = Suc ids"
    and "createIndexOperations structSymbol 0 structMembers []
           (t\<lparr>nodes := nodes t @ [TIntermSymbol ids ''anon@0''
                 (TType_of_block structMembers ''Frame'' structQualifier)]\<rparr>) = (m, t')"
  using assms
  by (auto simp: buildStruct_def Next_def addNode_def split: sum.splits prod.splits)

lemma buildStruct_success:
  assumes "createMemberTypes t memberPublicType (m_uniformNameToSymbol tv) = Inr structMembers"
  shows "\<exists>structSymbol m ids' t'. buildStruct tv ids t = Inr (structMembers, structSymbol, m, ids', t')"
  using assms
  by (auto simp: buildStruct_def Next_def addNode_def split: sum.splits prod.splits)

lemma struct_field_index_aux:
  assumes b: "buildStruct tv ids t = Inr (structMembers, structSymbol, m, ids', t')"
    and d: "distinct (map fst (m_uniformNameToSymbol tv))"
    and i: "idx < length structMembers"
  shows "getFieldName (structMembers ! idx) = fst (m_uniformNameToSymbol tv ! idx)"
    and "map_index m (getFieldName (structMembers ! idx)) = (Some (length (nodes t) + 2 * idx + 2), m)"
    and "getNode t' (Some (length (nodes t) + 2 * idx + 2)) =
          Inr (TIntermBinary EOpIndexDirectStruct (Some structSymbol)
                 (Some (length (nodes t) + 2 * idx + 1)) (structMembers ! idx))"
    and "getNode t' (Some (length (nodes t) + 2 * idx + 1)) = Inr (TIntermConstantUnion idx uintConstType)"
    and "getNode t' (Some structSymbol) =
          Inr (TIntermSymbol ids ''anon@0'' (TType_of_block structMembers ''Frame'' structQualifier))"
proof -
  note r = buildStruct_result[OF b]
  from createMemberTypes_success_names[OF r(1)]
  have names: "map getFieldName structMembers = map fst (m_uniformNameToSymbol tv)" .
  then have len: "length structMembers = length (m_uniformNameToSymbol tv)"
    using length_map by metis
  from names i len show "getFieldName (structMembers ! idx) = fst (m_uniformNameToSymbol tv ! idx)"
    by (metis nth_map)
  from names d have dist: "distinct (map getFieldName structMembers)" by simp
  define t1 where "t1 = t\<lparr>nodes := nodes t @ [TIntermSymbol ids ''anon@0''
                 (TType_of_block structMembers ''Frame'' structQualifier)]\<rparr>"
  have l1: "length (nodes t1) = Suc (length (nodes t))" by (simp add: t1_def)
  note c = createIndexOperations_result[OF r(4)[folded t1_def], unfolded l1]
  from c dist i have "map_find m (getFieldName (structMembers ! idx)) =
      Some (Some (Suc (length (nodes t)) + 2 * idx + 1))"
    by blast
  then show "map_index m (getFieldName (structMembers ! idx)) = (Some (length (nodes t) + 2 * idx + 2), m)"
    by (simp add: map_index_def)
  from c have len': "length (nodes t') = Suc (length (nodes t)) + 2 * length structMembers" by blast
  from c i have n: "nodes t' ! (Suc (length (nodes t)) + 2 * idx) = TIntermConstantUnion (0 + idx) uintConstType"
    "nodes t' ! (Suc (length (nodes t)) + 2 * idx + 1) =
       TIntermBinary EOpIndexDirectStruct (Some structSymbol) (Some (Suc (length (nodes t)) + 2 * idx))
         (structMembers ! idx)"
    by blast+
  from n(2) len' i show "getNode t' (Some (length (nodes t) + 2 * idx + 2)) =
          Inr (TIntermBinary EOpIndexDirectStruct (Some structSymbol)
                 (Some (length (nodes t) + 2 * idx + 1)) (structMembers ! idx))"
    by (simp add: getNode_def)
  from n(1) len' i show "getNode t' (Some (length (nodes t) + 2 * idx + 1)) = Inr (TIntermConstantUnion idx uintConstType)"
    by (simp add: getNode_def)
  from c have "nodes t' ! (length (nodes t)) = nodes t1 ! (length (nodes t))" by simp
  then show "getNode t' (Some structSymbol) =
          Inr (TIntermSymbol ids ''anon@0'' (TType_of_block structMembers ''Frame'' structQualifier))"
    using len' by (simp add: getNode_def r(2) t1_def)
qed

subsection \<open>The struct packer on \<open>baTree\<close>\<close>

lemma baTree_visits:
  "symbolVisits 10 baTree = Some (Inr [([6, 2], 0), ([6, 2], 1), ([6, 5], 3), ([6, 5], 4)])"
  by (simp add: symbolVisits_def baTree_def eval_nat_numeral getNode_def logVisit_def visitUnaryDefault_def)

lemma baTree_traverse:
  "traverse snd NonSamplerUniformToStructTraverser_visitSymbol visitUnaryDefault 10 []
     (treeRoot baTree) (\<lparr>m_uniformNameToSymbol = [], m_symbolsToParents = []\<rparr>, baTree)
   = Some (Inr (baTraverser, baTree))"
  by (simp add: baTree_def baTraverser_def eval_nat_numeral getNode_def visitUnaryDefault_def
        NonSamplerUniformToStructTraverser_visitSymbol_def isLinkerObject_def getParentNode_def
        floatType_def isUniformOrBuffer_def zeroQualifier_def)

lemma baTree_buildStruct:
  "buildStruct baTraverser 0 baTree =
     Inr ([floatMember ''a'', floatMember ''b''], 7, [(''a'', Some 9), (''b'', Some 11)], 1, builtBaTree)"
  by (simp add: buildStruct_def baTraverser_def baTree_def builtBaTree_def symbolType_def getNode_def
        floatMember_def Next_def addNode_def createMemberType_def Let_def floatType_def
        isMatrix_def isVector_def setVector_def TType_of_public_def setBasicType_def
        setFieldName_def memberPublicType_def zeroPublicType_def)

lemma baTree_packed:
  "NonSamplerUniformToStructTraverser_Traverse 10 0 baTree = Some (Inr (1, packedBaTree))"
  unfolding NonSamplerUniformToStructTraverser_Traverse_def baTree_traverse
  apply (simp add: baTree_buildStruct)
  apply (simp add: baTree_def builtBaTree_def baTraverser_def packedBaTree_def linkerObjectAggregate_def
        getNode_def map_find_def makeReplacements_def replaceOne_def symbolName_def map_index_def
        RemoveAllTreeNodes_def setNode_def)
  done

text \<open>
  C5. For every field of the synthetic struct, the struct packer maps the field's name to
  a binary \<open>EOpIndexDirectStruct\<close> node whose left operand is the struct symbol, whose
  right operand is a constant equal to the field's position in the struct's field list,
  and whose type is the field's type; and a turn of the replacement loop for a use site
  of that name installs this very node in the parent's slot, whether the parent is an
  aggregate, a binary or a unary node.
\<close>

theorem struct_field_index:
  assumes "buildStruct tv ids t = Inr (structMembers, structSymbol, m, ids', t')"
    and "distinct (map fst (m_uniformNameToSymbol tv))"
    and "idx < length structMembers"
    and "right = length (nodes t) + 2 * idx + 1"
    and "binary = length (nodes t) + 2 * idx + 2"
  shows "getFieldName (structMembers ! idx) = fst (m_uniformNameToSymbol tv ! idx)
     \<and> map_index m (getFieldName (structMembers ! idx)) = (Some binary, m)
     \<and> getNode t' (Some binary) =
         Inr (TIntermBinary EOpIndexDirectStruct (Some structSymbol) (Some right) (structMembers ! idx))
     \<and> getNode t' (Some right) = Inr (TIntermConstantUnion idx uintConstType)
     \<and> getNode t' (Some structSymbol) =
         Inr (TIntermSymbol ids ''anon@0'' (TType_of_block structMembers ''Frame'' structQualifier))
     \<and> getStruct (TType_of_block structMembers ''Frame'' structQualifier) = Some structMembers
     \<and> (\<forall>u symbol parent op sq ty.
          symbolName u symbol = Inr (getFieldName (structMembers ! idx))
          \<and> getNode u (Some parent) = Inr (TIntermAggregate op sq ty) \<longrightarrow>
          replaceOne m (symbol, Some parent) u =
            Inr (m, setNode parent
                      (TIntermAggregate op (map (\<lambda>c. if c = Some symbol then Some binary else c) sq) ty)
                      (u\<lparr>released := released u @ replicate (count_list sq (Some symbol)) symbol\<rparr>)))
     \<and> (\<forall>u symbol parent op r ty.
          symbolName u symbol = Inr (getFieldName (structMembers ! idx))
          \<and> getNode u (Some parent) = Inr (TIntermBinary op (Some symbol) r ty) \<longrightarrow>
          replaceOne m (symbol, Some parent) u =
            Inr (m, setNode parent (TIntermBinary op (Some binary) r ty)
                      (u\<lparr>released := released u @ [symbol]\<rparr>)))
     \<and> (\<forall>u symbol parent op l ty.
          symbolName u symbol = Inr (getFieldName (structMembers ! idx))
          \<and> getNode u (Some parent) = Inr (TIntermBinary op l (Some symbol) ty) \<and> l \<noteq> Some symbol \<longrightarrow>
          replaceOne m (symbol, Some parent) u =
            Inr (m, setNode parent (TIntermBinary op l (Some binary) ty)
                      (u\<lparr>released := released u @ [symbol]\<rparr>)))
     \<and> (\<forall>u symbol parent op ty.
          symbolName u symbol = Inr (getFieldName (structMembers ! idx))
          \<and> getNode u (Some parent) = Inr (TIntermUnary op (Some symbol) ty) \<longrightarrow>
          replaceOne m (symbol, Some parent) u =
            Inr (m, setNode parent (TIntermUnary op (Some binary) ty)
                      (u\<lparr>released := released u @ [symbol]\<rparr>)))"
proof -
  note a = struct_field_index_aux[OF assms(1-3)]
  note binary_def = assms(5)
  note right_def = assms(4)
  note mi = a(2)[folded binary_def]
  have agg: "\<forall>u symbol parent op sq ty.
          symbolName u symbol = Inr (getFieldName (structMembers ! idx))
          \<and> getNode u (Some parent) = Inr (TIntermAggregate op sq ty) \<longrightarrow>
          replaceOne m (symbol, Some parent) u =
            Inr (m, setNode parent
                      (TIntermAggregate op (map (\<lambda>c. if c = Some symbol then Some binary else c) sq) ty)
                      (u\<lparr>released := released u @ replicate (count_list sq (Some symbol)) symbol\<rparr>))"
    using replaceOne_supported[OF _ _ mi] by blast
  have bl: "\<forall>u symbol parent op r ty.
          symbolName u symbol = Inr (getFieldName (structMembers ! idx))
          \<and> getNode u (Some parent) = Inr (TIntermBinary op (Some symbol) r ty) \<longrightarrow>
          replaceOne m (symbol, Some parent) u =
            Inr (m, setNode parent (TIntermBinary op (Some binary) r ty)
                      (u\<lparr>released := released u @ [symbol]\<rparr>))"
    using replaceOne_supported[OF _ _ mi] by blast
  have br: "\<forall>u symbol parent op l ty.
          symbolName u symbol = Inr (getFieldName (structMembers ! idx))
          \<and> getNode u (Some parent) = Inr (TIntermBinary op l (Some symbol) ty) \<and> l \<noteq> Some symbol \<longrightarrow>
          replaceOne m (symbol, Some parent) u =
            Inr (m, setNode parent (TIntermBinary op l (Some binary) ty)
                      (u\<lparr>released := released u @ [symbol]\<rparr>))"
    using replaceOne_supported[OF _ _ mi] by blast
  have un: "\<forall>u symbol parent op ty.
          symbolName u symbol = Inr (getFieldName (structMembers ! idx))
          \<and> getNode u (Some parent) = Inr (TIntermUnary op (Some symbol) ty) \<longrightarrow>
          replaceOne m (symbol, Some parent) u =
            Inr (m, setNode parent (TIntermUnary op (Some binary) ty)
                      (u\<lparr>released := released u @ [symbol]\<rparr>))"
    using replaceOne_supported[OF _ _ mi] by blast
  have st: "getStruct (TType_of_block structMembers ''Frame'' structQualifier) = Some structMembers"
    by (simp add: TType_of_block_def)
  from a(1) mi a(3)[folded binary_def right_def] a(4)[folded right_def] a(5) st agg bl br un
  show ?thesis by (intro conjI)
qed

theorem struct_field_index_witness:
  "map_index [(''a'', Some 9), (''b'', Some 11)] ''b'' = (Some 11, [(''a'', Some 9), (''b'', Some 11)])
   \<and> getNode builtBaTree (Some 11) =
       Inr (TIntermBinary EOpIndexDirectStruct (Some 7) (Some 10) ([floatMember ''a'', floatMember ''b''] ! 1))
   \<and> getNode builtBaTree (Some 10) = Inr (TIntermConstantUnion 1 uintConstType)
   \<and> getFieldName ([floatMember ''a'', floatMember ''b''] ! 1) = ''b''"
proof -
  have d: "distinct (map fst (m_uniformNameToSymbol baTraverser))"
    by (simp add: baTraverser_def)
  have i: "1 < length [floatMember ''a'', floatMember ''b'']" by simp
  have e: "(10::nat) = length (nodes baTree) + 2 * 1 + 1" "(11::nat) = length (nodes baTree) + 2 * 1 + 2"
    by (simp_all add: baTree_def)
  note r = struct_field_index[OF baTree_buildStruct d i e]
  note r1 = r[THEN conjunct1]
  note r2 = r[THEN conjunct2, THEN conjunct1]
  note r3 = r[THEN conjunct2, THEN conjunct2, THEN conjunct1]
  note r4 = r[THEN conjunct2, THEN conjunct2, THEN conjunct2, THEN conjunct1]
  from r1 have n: "getFieldName ([floatMember ''a'', floatMember ''b''] ! 1) = ''b''"
    by (simp add: baTraverser_def)
  from r2 have m: "map_index [(''a'', Some 9), (''b'', Some 11)] ''b'' = (Some 11, [(''a'', Some 9), (''b'', Some 11)])"
    unfolding n .
  from m r3 r4 n show ?thesis by (intro conjI)
qed

text \<open>
  C3, as amended. The synthetic struct has exactly one field per distinct name of a
  candidate met among the linker objects, and its field list is in ascending order of
  the names (the bytewise order of \<open>std::string\<close>, in which \<open>std::map\<close> iterates),
  whatever the order in which the traversal met the candidates: the names of the fields
  are strictly ascending, and they are the names of the uniform-or-buffer, non-sampler
  symbols that the traversal visits in a linker-object context.
\<close>

theorem struct_fields_sorted_by_name:
  assumes "symbolVisits fuel t = Some (Inr visits)"
  shows "\<exists>tv structMembers structSymbol m ids' t'.
       traverse snd NonSamplerUniformToStructTraverser_visitSymbol visitUnaryDefault fuel []
         (treeRoot t) (\<lparr>m_uniformNameToSymbol = [], m_symbolsToParents = []\<rparr>, t) = Some (Inr (tv, t))
     \<and> buildStruct tv ids t = Inr (structMembers, structSymbol, m, ids', t')
     \<and> sorted_wrt (<) (map getFieldName structMembers)
     \<and> set (map getFieldName structMembers) =
         {name. \<exists>path a i ty. (path, a) \<in> set visits
            \<and> getNode t (Some a) = Inr (TIntermSymbol i name ty)
            \<and> packingCandidate ty \<and> isLinkerObject t path}"
proof -
  from assms obtain t0 where l: "traverse snd logVisit visitUnaryDefault fuel [] (treeRoot t) ([], t) =
      Some (Inr (visits, t0))"
    by (auto simp: symbolVisits_def split: option.splits sum.splits)
  from traverse_visits[where vs = NonSamplerUniformToStructTraverser_visitSymbol and n = fuel
      and path = "[]" and p = "treeRoot t" and log = "[]" and t = t and log' = visits and t' = t0,
      OF packer_keeps_tree] l
  have sym: "\<forall>(pa, a) \<in> set visits. \<exists>i name ty. getNode t (Some a) = Inr (TIntermSymbol i name ty)"
    and tr: "\<forall>x. traverse snd NonSamplerUniformToStructTraverser_visitSymbol visitUnaryDefault fuel []
         (treeRoot t) (x, t) = Some (foldVisits NonSamplerUniformToStructTraverser_visitSymbol visits (x, t))"
    by auto
  define tv0 where "tv0 = \<lparr>m_uniformNameToSymbol = [], m_symbolsToParents = []\<rparr>"
  from packer_fold[OF sym, of tv0] obtain tv where
    f: "foldVisits NonSamplerUniformToStructTraverser_visitSymbol visits (tv0, t) = Inr (tv, t)"
    and s: "sorted_wrt (<) (map fst (m_uniformNameToSymbol tv))"
    and k: "set (map fst (m_uniformNameToSymbol tv)) =
          {name. \<exists>path a i ty. (path, a) \<in> set visits
                 \<and> getNode t (Some a) = Inr (TIntermSymbol i name ty)
                 \<and> packingCandidate ty \<and> isLinkerObject t path}"
    and e: "\<forall>(k, a) \<in> set (m_uniformNameToSymbol tv). \<exists>i ty. getNode t (Some a) = Inr (TIntermSymbol i k ty)"
    by (auto simp: tv0_def)
  from createMemberTypes_names[OF e, of memberPublicType] obtain structMembers where
    c: "createMemberTypes t memberPublicType (m_uniformNameToSymbol tv) = Inr structMembers"
    and n: "map getFieldName structMembers = map fst (m_uniformNameToSymbol tv)"
    by blast
  from buildStruct_success[OF c, of ids] obtain structSymbol m ids' t' where
    b: "buildStruct tv ids t = Inr (structMembers, structSymbol, m, ids', t')"
    by blast
  from tr f have "traverse snd NonSamplerUniformToStructTraverser_visitSymbol visitUnaryDefault fuel []
         (treeRoot t) (\<lparr>m_uniformNameToSymbol = [], m_symbolsToParents = []\<rparr>, t) = Some (Inr (tv, t))"
    by (simp add: tv0_def)
  moreover have "sorted_wrt (<) (map getFieldName structMembers)" using s n by simp
  moreover have "set (map getFieldName structMembers) =
         {name. \<exists>path a i ty. (path, a) \<in> set visits
            \<and> getNode t (Some a) = Inr (TIntermSymbol i name ty)
            \<and> packingCandidate ty \<and> isLinkerObject t path}"
    using k n by simp
  ultimately show ?thesis using b by (intro exI conjI)
qed

theorem struct_fields_sorted_by_name_witness:
  "\<exists>tv structMembers structSymbol m ids' t'.
       traverse snd NonSamplerUniformToStructTraverser_visitSymbol visitUnaryDefault 10 []
         (treeRoot baTree) (\<lparr>m_uniformNameToSymbol = [], m_symbolsToParents = []\<rparr>, baTree) =
         Some (Inr (tv, baTree))
     \<and> buildStruct tv 0 baTree = Inr (structMembers, structSymbol, m, ids', t')
     \<and> sorted_wrt (<) (map getFieldName structMembers)
     \<and> set (map getFieldName structMembers) =
         {name. \<exists>path a i ty. (path, a) \<in> set [([6, 2], 0), ([6, 2], 1), ([6, 5], 3), ([6, 5], 4)]
            \<and> getNode baTree (Some a) = Inr (TIntermSymbol i name ty)
            \<and> packingCandidate ty \<and> isLinkerObject baTree path}"
  by (rule struct_fields_sorted_by_name[OF baTree_visits])

text \<open>
  C3 as stated fails: in \<open>baTree\<close> the traversal meets \<open>b\<close> before \<open>a\<close>, in the body
  (addresses 0 and 1) and among the linker objects (addresses 3 and 4), and the struct
  the packer builds lists the field \<open>a\<close> before the field \<open>b\<close>.
\<close>

theorem struct_fields_sorted_by_name_counterexample:
  "symbolVisits 10 baTree = Some (Inr [([6, 2], 0), ([6, 2], 1), ([6, 5], 3), ([6, 5], 4)])
   \<and> symbolName baTree 0 = Inr ''b'' \<and> symbolName baTree 1 = Inr ''a''
   \<and> symbolName baTree 3 = Inr ''b'' \<and> symbolName baTree 4 = Inr ''a''
   \<and> NonSamplerUniformToStructTraverser_Traverse 10 0 baTree = Some (Inr (1, packedBaTree))
   \<and> getNode packedBaTree (Some 7) =
       Inr (TIntermSymbol 0 ''anon@0''
              (TType_of_block [floatMember ''a'', floatMember ''b''] ''Frame'' structQualifier))
   \<and> map getFieldName [floatMember ''a'', floatMember ''b''] = [''a'', ''b'']
   \<and> [''a'', ''b''] \<noteq> [''b'', ''a'']"
  using baTree_visits baTree_packed
  by (simp add: baTree_def packedBaTree_def symbolName_def getNode_def floatMember_def)

section \<open>What the sampler splitter collects and builds\<close>

lemma splitter_keeps_tree:
  "SamplerSplitterTraverser_visitSymbol path a (x, t) = Inr (x', t') \<Longrightarrow> t' = t"
  by (auto simp: SamplerSplitterTraverser_visitSymbol_def
           split: sum.splits TIntermNode.splits if_splits)

lemma splitter_visit:
  assumes "getNode t (Some a) = Inr (TIntermSymbol i name ty)"
  shows "SamplerSplitterTraverser_visitSymbol path a (tv, t) =
     Inr (if samplerCandidate ty
          then (if isLinkerObject t path
                then tv\<lparr>m_samplerNameToSymbol := map_assign name a (m_samplerNameToSymbol tv)\<rparr>
                else tv\<lparr>m_samplerSymbolsToParents := m_samplerSymbolsToParents tv @ [(a, getParentNode path)]\<rparr>)
          else tv, t)"
  using assms
  by (simp add: SamplerSplitterTraverser_visitSymbol_def samplerCandidate_def)

lemma splitter_fold:
  assumes "\<forall>(path, a) \<in> set visits. \<exists>i name ty. getNode t (Some a) = Inr (TIntermSymbol i name ty)"
  shows "\<exists>tv'. foldVisits SamplerSplitterTraverser_visitSymbol visits (tv, t) = Inr (tv', t)
     \<and> (sorted_wrt (<) (map fst (m_samplerNameToSymbol tv))
           \<longrightarrow> sorted_wrt (<) (map fst (m_samplerNameToSymbol tv')))
     \<and> ((\<forall>(k, a) \<in> set (m_samplerNameToSymbol tv).
            \<exists>i ty. getNode t (Some a) = Inr (TIntermSymbol i k ty) \<and> samplerCandidate ty)
           \<longrightarrow> (\<forall>(k, a) \<in> set (m_samplerNameToSymbol tv').
            \<exists>i ty. getNode t (Some a) = Inr (TIntermSymbol i k ty) \<and> samplerCandidate ty))"
  using assms
proof (induction visits arbitrary: tv)
  case Nil
  show ?case by simp
next
  case (Cons v visits)
  obtain path a where v: "v = (path, a)" by (cases v)
  from Cons.prems obtain i name ty where n: "getNode t (Some a) = Inr (TIntermSymbol i name ty)"
    by (auto simp: v)
  define tv1 where "tv1 = (if samplerCandidate ty
          then (if isLinkerObject t path
                then tv\<lparr>m_samplerNameToSymbol := map_assign name a (m_samplerNameToSymbol tv)\<rparr>
                else tv\<lparr>m_samplerSymbolsToParents := m_samplerSymbolsToParents tv @ [(a, getParentNode path)]\<rparr>)
          else tv)"
  have step: "foldVisits SamplerSplitterTraverser_visitSymbol (v # visits) (tv, t) =
      foldVisits SamplerSplitterTraverser_visitSymbol visits (tv1, t)"
    by (simp add: v splitter_visit[OF n] tv1_def)
  from Cons.prems have rest: "\<forall>(path, a) \<in> set visits. \<exists>i name ty. getNode t (Some a) = Inr (TIntermSymbol i name ty)"
    by simp
  from Cons.IH[OF rest, of tv1] obtain tv' where
    f: "foldVisits SamplerSplitterTraverser_visitSymbol visits (tv1, t) = Inr (tv', t)"
    and s: "sorted_wrt (<) (map fst (m_samplerNameToSymbol tv1))
           \<longrightarrow> sorted_wrt (<) (map fst (m_samplerNameToSymbol tv'))"
    and e: "(\<forall>(k, a) \<in> set (m_samplerNameToSymbol tv1).
            \<exists>i ty. getNode t (Some a) = Inr (TIntermSymbol i k ty) \<and> samplerCandidate ty)
           \<longrightarrow> (\<forall>(k, a) \<in> set (m_samplerNameToSymbol tv').
            \<exists>i ty. getNode t (Some a) = Inr (TIntermSymbol i k ty) \<and> samplerCandidate ty)"
    by blast
  have s1: "sorted_wrt (<) (map fst (m_samplerNameToSymbol tv))
           \<longrightarrow> sorted_wrt (<) (map fst (m_samplerNameToSymbol tv1))"
    by (auto simp: tv1_def sorted_map_assign)
  have e1: "(\<forall>(k, a) \<in> set (m_samplerNameToSymbol tv).
            \<exists>i ty. getNode t (Some a) = Inr (TIntermSymbol i k ty) \<and> samplerCandidate ty)
           \<longrightarrow> (\<forall>(k, a) \<in> set (m_samplerNameToSymbol tv1).
            \<exists>i ty. getNode t (Some a) = Inr (TIntermSymbol i k ty) \<and> samplerCandidate ty)"
    using n entries_map_assign[of name a "m_samplerNameToSymbol tv"]
    by (auto simp: tv1_def)
  from f s s1 e e1 show ?case
    unfolding step by blast
qed

lemma splitter_fold_caches:
  assumes "\<forall>(path, a) \<in> set visits. \<exists>i name ty. getNode t (Some a) = Inr (TIntermSymbol i name ty)"
    and "foldVisits SamplerSplitterTraverser_visitSymbol visits (tv, t) = Inr (tv', t)"
  shows "set (map fst (m_samplerNameToSymbol tv')) =
          set (map fst (m_samplerNameToSymbol tv))
          \<union> {name. \<exists>path a i ty. (path, a) \<in> set visits
                 \<and> getNode t (Some a) = Inr (TIntermSymbol i name ty)
                 \<and> samplerCandidate ty \<and> isLinkerObject t path}
     \<and> m_samplerSymbolsToParents tv' =
          m_samplerSymbolsToParents tv @
          map (\<lambda>(path, a). (a, getParentNode path))
            (filter (\<lambda>(path, a). \<exists>i name ty. getNode t (Some a) = Inr (TIntermSymbol i name ty)
                       \<and> samplerCandidate ty \<and> \<not> isLinkerObject t path) visits)"
  using assms
proof (induction visits arbitrary: tv)
  case Nil
  then show ?case by simp
next
  case (Cons v visits)
  obtain path a where v: "v = (path, a)" by (cases v)
  from Cons.prems(1) obtain i name ty where n: "getNode t (Some a) = Inr (TIntermSymbol i name ty)"
    by (auto simp: v)
  define tv1 where "tv1 = (if samplerCandidate ty
          then (if isLinkerObject t path
                then tv\<lparr>m_samplerNameToSymbol := map_assign name a (m_samplerNameToSymbol tv)\<rparr>
                else tv\<lparr>m_samplerSymbolsToParents := m_samplerSymbolsToParents tv @ [(a, getParentNode path)]\<rparr>)
          else tv)"
  have step: "foldVisits SamplerSplitterTraverser_visitSymbol (v # visits) (tv, t) =
      foldVisits SamplerSplitterTraverser_visitSymbol visits (tv1, t)"
    by (simp add: v splitter_visit[OF n] tv1_def)
  from Cons.prems(1) have rest: "\<forall>(path, a) \<in> set visits. \<exists>i name ty. getNode t (Some a) = Inr (TIntermSymbol i name ty)"
    by simp
  from Cons.prems(2) have f: "foldVisits SamplerSplitterTraverser_visitSymbol visits (tv1, t) = Inr (tv', t)"
    unfolding step .
  note ih = Cons.IH[OF rest f]
  have k1: "set (map fst (m_samplerNameToSymbol tv1)) =
      set (map fst (m_samplerNameToSymbol tv))
      \<union> (if samplerCandidate ty \<and> isLinkerObject t path then {name} else {})"
    using keys_map_assign[of name a "m_samplerNameToSymbol tv"] by (auto simp: tv1_def)
  have r1: "m_samplerSymbolsToParents tv1 = m_samplerSymbolsToParents tv @
      (if samplerCandidate ty \<and> \<not> isLinkerObject t path then [(a, getParentNode path)] else [])"
    by (auto simp: tv1_def)
  have k2: "set (map fst (m_samplerNameToSymbol tv')) =
          set (map fst (m_samplerNameToSymbol tv))
          \<union> {name. \<exists>path a i ty. (path, a) \<in> set (v # visits)
                 \<and> getNode t (Some a) = Inr (TIntermSymbol i name ty)
                 \<and> samplerCandidate ty \<and> isLinkerObject t path}"
    unfolding ih[THEN conjunct1] k1 using n by (auto simp: v)
  have r2: "m_samplerSymbolsToParents tv' =
          m_samplerSymbolsToParents tv @
          map (\<lambda>(path, a). (a, getParentNode path))
            (filter (\<lambda>(path, a). \<exists>i name ty. getNode t (Some a) = Inr (TIntermSymbol i name ty)
                       \<and> samplerCandidate ty \<and> \<not> isLinkerObject t path) (v # visits))"
    unfolding ih[THEN conjunct2] r1 using n by (auto simp: v)
  from k2 r2 show ?case by (rule conjI)
qed

lemma createReplacer_result:
  assumes "getNode (sl_tree st) (Some symbol) = Inr (TIntermSymbol i name ty)"
  shows "createReplacer (name, symbol) st =
     Inr (st\<lparr>sl_layoutBinding := Suc (sl_layoutBinding st), sl_ids := Suc (Suc (sl_ids st)),
             sl_nameToReplacement :=
               map_assign name (Some (length (nodes (sl_tree st)) + 2)) (sl_nameToReplacement st),
             sl_nameToNewTextureAndSampler :=
               map_assign name (length (nodes (sl_tree st)), length (nodes (sl_tree st)) + 1)
                 (sl_nameToNewTextureAndSampler st),
             sl_tree := (sl_tree st)\<lparr>nodes := nodes (sl_tree st) @
               [TIntermSymbol (sl_ids st) (name @ ''Texture'') (newTextureType ty (sl_layoutBinding st)),
                TIntermSymbol (Suc (sl_ids st)) name (newSamplerType ty (sl_layoutBinding st)),
                TIntermAggregate EOpConstructTextureSampler
                  [Some (length (nodes (sl_tree st))), Some (length (nodes (sl_tree st)) + 1)]
                  (constructTextureSamplerType ty)]\<rparr>\<rparr>)"
  using assms
  by (simp add: createReplacer_def symbolType_def Next_def addNode_def)

lemma createReplacers_result:
  assumes "\<forall>(name, a) \<in> set entries. \<exists>i ty. getNode (sl_tree st) (Some a) = Inr (TIntermSymbol i name ty)"
  shows "\<exists>st'. createReplacers entries st = Inr st'
     \<and> length (nodes (sl_tree st')) = length (nodes (sl_tree st)) + 3 * length entries
     \<and> treeRoot (sl_tree st') = treeRoot (sl_tree st) \<and> released (sl_tree st') = released (sl_tree st)
     \<and> sl_layoutBinding st' = sl_layoutBinding st + length entries
     \<and> sl_ids st' = sl_ids st + 2 * length entries
     \<and> (\<forall>a < length (nodes (sl_tree st)). nodes (sl_tree st') ! a = nodes (sl_tree st) ! a)
     \<and> (\<forall>k < length entries. \<forall>name symbol i ty.
           entries ! k = (name, symbol)
           \<and> getNode (sl_tree st) (Some symbol) = Inr (TIntermSymbol i name ty) \<longrightarrow>
           nodes (sl_tree st') ! (length (nodes (sl_tree st)) + 3 * k) =
             TIntermSymbol (sl_ids st + 2 * k) (name @ ''Texture'') (newTextureType ty (sl_layoutBinding st + k))
         \<and> nodes (sl_tree st') ! (length (nodes (sl_tree st)) + 3 * k + 1) =
             TIntermSymbol (sl_ids st + 2 * k + 1) name (newSamplerType ty (sl_layoutBinding st + k))
         \<and> nodes (sl_tree st') ! (length (nodes (sl_tree st)) + 3 * k + 2) =
             TIntermAggregate EOpConstructTextureSampler
               [Some (length (nodes (sl_tree st)) + 3 * k), Some (length (nodes (sl_tree st)) + 3 * k + 1)]
               (constructTextureSamplerType ty))
     \<and> (distinct (map fst entries) \<longrightarrow>
          (\<forall>k < length entries.
             map_find (sl_nameToReplacement st') (fst (entries ! k)) =
               Some (Some (length (nodes (sl_tree st)) + 3 * k + 2))
           \<and> map_find (sl_nameToNewTextureAndSampler st') (fst (entries ! k)) =
               Some (length (nodes (sl_tree st)) + 3 * k, length (nodes (sl_tree st)) + 3 * k + 1)))
     \<and> (\<forall>n. n \<notin> set (map fst entries) \<longrightarrow>
           map_find (sl_nameToReplacement st') n = map_find (sl_nameToReplacement st) n
         \<and> map_find (sl_nameToNewTextureAndSampler st') n = map_find (sl_nameToNewTextureAndSampler st) n)"
  using assms
proof (induction entries arbitrary: st)
  case Nil
  show ?case by simp
next
  case (Cons e entries)
  obtain name symbol where e: "e = (name, symbol)" by (cases e)
  from Cons.prems obtain i ty where n: "getNode (sl_tree st) (Some symbol) = Inr (TIntermSymbol i name ty)"
    by (auto simp: e)
  define L where "L = length (nodes (sl_tree st))"
  define st1 where "st1 = st\<lparr>sl_layoutBinding := Suc (sl_layoutBinding st), sl_ids := Suc (Suc (sl_ids st)),
             sl_nameToReplacement := map_assign name (Some (L + 2)) (sl_nameToReplacement st),
             sl_nameToNewTextureAndSampler := map_assign name (L, L + 1) (sl_nameToNewTextureAndSampler st),
             sl_tree := (sl_tree st)\<lparr>nodes := nodes (sl_tree st) @
               [TIntermSymbol (sl_ids st) (name @ ''Texture'') (newTextureType ty (sl_layoutBinding st)),
                TIntermSymbol (Suc (sl_ids st)) name (newSamplerType ty (sl_layoutBinding st)),
                TIntermAggregate EOpConstructTextureSampler [Some L, Some (L + 1)]
                  (constructTextureSamplerType ty)]\<rparr>\<rparr>"
  have c: "createReplacer (name, symbol) st = Inr st1"
    using createReplacer_result[OF n] by (simp add: st1_def L_def)
  have l1: "length (nodes (sl_tree st1)) = L + 3" by (simp add: st1_def L_def)
  have old: "\<And>a n. getNode (sl_tree st) (Some a) = Inr n \<Longrightarrow> getNode (sl_tree st1) (Some a) = Inr n"
    by (auto simp: st1_def getNode_def nth_append split: if_splits)
  from Cons.prems have v1: "\<forall>(name, a) \<in> set entries. \<exists>i ty. getNode (sl_tree st1) (Some a) = Inr (TIntermSymbol i name ty)"
    using old by fastforce
  from Cons.IH[OF v1] obtain st' where
    r: "createReplacers entries st1 = Inr st'"
    and len: "length (nodes (sl_tree st')) = L + 3 + 3 * length entries"
    and misc: "treeRoot (sl_tree st') = treeRoot (sl_tree st1)" "released (sl_tree st') = released (sl_tree st1)"
       "sl_layoutBinding st' = sl_layoutBinding st1 + length entries"
       "sl_ids st' = sl_ids st1 + 2 * length entries"
    and pre: "\<forall>a < L + 3. nodes (sl_tree st') ! a = nodes (sl_tree st1) ! a"
    and nod: "\<forall>k < length entries. \<forall>name symbol i ty.
           entries ! k = (name, symbol)
           \<and> getNode (sl_tree st1) (Some symbol) = Inr (TIntermSymbol i name ty) \<longrightarrow>
           nodes (sl_tree st') ! (L + 3 + 3 * k) =
             TIntermSymbol (sl_ids st1 + 2 * k) (name @ ''Texture'') (newTextureType ty (sl_layoutBinding st1 + k))
         \<and> nodes (sl_tree st') ! (L + 3 + 3 * k + 1) =
             TIntermSymbol (sl_ids st1 + 2 * k + 1) name (newSamplerType ty (sl_layoutBinding st1 + k))
         \<and> nodes (sl_tree st') ! (L + 3 + 3 * k + 2) =
             TIntermAggregate EOpConstructTextureSampler
               [Some (L + 3 + 3 * k), Some (L + 3 + 3 * k + 1)]
               (constructTextureSamplerType ty)"
    and fnd: "distinct (map fst entries) \<longrightarrow>
          (\<forall>k < length entries.
             map_find (sl_nameToReplacement st') (fst (entries ! k)) = Some (Some (L + 3 + 3 * k + 2))
           \<and> map_find (sl_nameToNewTextureAndSampler st') (fst (entries ! k)) =
               Some (L + 3 + 3 * k, L + 3 + 3 * k + 1))"
    and oth: "\<forall>n. n \<notin> set (map fst entries) \<longrightarrow>
           map_find (sl_nameToReplacement st') n = map_find (sl_nameToReplacement st1) n
         \<and> map_find (sl_nameToNewTextureAndSampler st') n = map_find (sl_nameToNewTextureAndSampler st1) n"
    unfolding l1 by blast
  have 1: "createReplacers (e # entries) st = Inr st'" using c r by (simp add: e)
  have 2: "length (nodes (sl_tree st')) = L + 3 * length (e # entries)" using len by simp
  have 3: "treeRoot (sl_tree st') = treeRoot (sl_tree st)" "released (sl_tree st') = released (sl_tree st)"
    "sl_layoutBinding st' = sl_layoutBinding st + length (e # entries)"
    "sl_ids st' = sl_ids st + 2 * length (e # entries)"
    using misc by (simp_all add: st1_def)
  have 4: "\<forall>a < L. nodes (sl_tree st') ! a = nodes (sl_tree st) ! a"
    using pre by (auto simp: st1_def nth_append L_def)
  have n0: "nodes (sl_tree st') ! L =
       TIntermSymbol (sl_ids st) (name @ ''Texture'') (newTextureType ty (sl_layoutBinding st))"
    "nodes (sl_tree st') ! (L + 1) = TIntermSymbol (Suc (sl_ids st)) name (newSamplerType ty (sl_layoutBinding st))"
    "nodes (sl_tree st') ! (L + 2) =
       TIntermAggregate EOpConstructTextureSampler [Some L, Some (L + 1)] (constructTextureSamplerType ty)"
    using pre by (auto simp: st1_def nth_append L_def)
  have 5: "\<forall>k < length (e # entries). \<forall>name symbol i ty.
           (e # entries) ! k = (name, symbol)
           \<and> getNode (sl_tree st) (Some symbol) = Inr (TIntermSymbol i name ty) \<longrightarrow>
           nodes (sl_tree st') ! (L + 3 * k) =
             TIntermSymbol (sl_ids st + 2 * k) (name @ ''Texture'') (newTextureType ty (sl_layoutBinding st + k))
         \<and> nodes (sl_tree st') ! (L + 3 * k + 1) =
             TIntermSymbol (sl_ids st + 2 * k + 1) name (newSamplerType ty (sl_layoutBinding st + k))
         \<and> nodes (sl_tree st') ! (L + 3 * k + 2) =
             TIntermAggregate EOpConstructTextureSampler
               [Some (L + 3 * k), Some (L + 3 * k + 1)]
               (constructTextureSamplerType ty)"
  proof (intro allI impI)
    fix k name' symbol' i' ty'
    assume k: "k < length (e # entries)"
      and h: "(e # entries) ! k = (name', symbol')
           \<and> getNode (sl_tree st) (Some symbol') = Inr (TIntermSymbol i' name' ty')"
    show "nodes (sl_tree st') ! (L + 3 * k) =
             TIntermSymbol (sl_ids st + 2 * k) (name' @ ''Texture'') (newTextureType ty' (sl_layoutBinding st + k))
         \<and> nodes (sl_tree st') ! (L + 3 * k + 1) =
             TIntermSymbol (sl_ids st + 2 * k + 1) name' (newSamplerType ty' (sl_layoutBinding st + k))
         \<and> nodes (sl_tree st') ! (L + 3 * k + 2) =
             TIntermAggregate EOpConstructTextureSampler
               [Some (L + 3 * k), Some (L + 3 * k + 1)]
               (constructTextureSamplerType ty')"
    proof (cases k)
      case 0
      with h n have "name' = name" "ty' = ty" by (auto simp: e)
      then show ?thesis using n0 by (simp add: 0)
    next
      case (Suc j)
      with k have j: "j < length entries" by simp
      from h Suc have "entries ! j = (name', symbol')"
        and "getNode (sl_tree st1) (Some symbol') = Inr (TIntermSymbol i' name' ty')"
        using old by auto
      with nod j have "nodes (sl_tree st') ! (L + 3 + 3 * j) =
             TIntermSymbol (sl_ids st1 + 2 * j) (name' @ ''Texture'') (newTextureType ty' (sl_layoutBinding st1 + j))
         \<and> nodes (sl_tree st') ! (L + 3 + 3 * j + 1) =
             TIntermSymbol (sl_ids st1 + 2 * j + 1) name' (newSamplerType ty' (sl_layoutBinding st1 + j))
         \<and> nodes (sl_tree st') ! (L + 3 + 3 * j + 2) =
             TIntermAggregate EOpConstructTextureSampler
               [Some (L + 3 + 3 * j), Some (L + 3 + 3 * j + 1)]
               (constructTextureSamplerType ty')"
        by blast
      moreover have "L + 3 * Suc j = L + 3 + 3 * j" "L + 3 * Suc j + 1 = L + 3 + 3 * j + 1"
        "L + 3 * Suc j + 2 = L + 3 + 3 * j + 2"
        "sl_ids st + 2 * Suc j = sl_ids st1 + 2 * j" "sl_ids st + 2 * Suc j + 1 = sl_ids st1 + 2 * j + 1"
        "sl_layoutBinding st + Suc j = sl_layoutBinding st1 + j"
        by (simp_all add: st1_def)
      ultimately show ?thesis unfolding Suc by (simp only:)
    qed
  qed
  have 6: "distinct (map fst (e # entries)) \<longrightarrow>
          (\<forall>k < length (e # entries).
             map_find (sl_nameToReplacement st') (fst ((e # entries) ! k)) = Some (Some (L + 3 * k + 2))
           \<and> map_find (sl_nameToNewTextureAndSampler st') (fst ((e # entries) ! k)) =
               Some (L + 3 * k, L + 3 * k + 1))"
  proof (intro allI impI)
    fix k assume d: "distinct (map fst (e # entries))" and k: "k < length (e # entries)"
    show "map_find (sl_nameToReplacement st') (fst ((e # entries) ! k)) = Some (Some (L + 3 * k + 2))
           \<and> map_find (sl_nameToNewTextureAndSampler st') (fst ((e # entries) ! k)) =
               Some (L + 3 * k, L + 3 * k + 1)"
    proof (cases k)
      case 0
      from d have "name \<notin> set (map fst entries)" by (simp add: e)
      with oth have "map_find (sl_nameToReplacement st') name = map_find (sl_nameToReplacement st1) name"
        "map_find (sl_nameToNewTextureAndSampler st') name = map_find (sl_nameToNewTextureAndSampler st1) name"
        by blast+
      then show ?thesis by (simp add: 0 e st1_def map_find_map_assign)
    next
      case (Suc j)
      with k have j: "j < length entries" by simp
      from d have "distinct (map fst entries)" by simp
      with fnd j have "map_find (sl_nameToReplacement st') (fst (entries ! j)) = Some (Some (L + 3 + 3 * j + 2))
           \<and> map_find (sl_nameToNewTextureAndSampler st') (fst (entries ! j)) =
               Some (L + 3 + 3 * j, L + 3 + 3 * j + 1)"
        by blast
      then show ?thesis by (simp add: Suc add.commute add.left_commute)
    qed
  qed
  have 7: "\<forall>n. n \<notin> set (map fst (e # entries)) \<longrightarrow>
           map_find (sl_nameToReplacement st') n = map_find (sl_nameToReplacement st) n
         \<and> map_find (sl_nameToNewTextureAndSampler st') n = map_find (sl_nameToNewTextureAndSampler st) n"
    using oth by (auto simp: e st1_def map_find_map_assign)
  from 1 2 3 4 5 6 7 show ?case unfolding L_def by blast
qed

lemma texTree_visits:
  "symbolVisits 10 texTree = Some (Inr [([5, 2], 0), ([5, 2], 1), ([5, 4], 3)])"
  by (simp add: symbolVisits_def texTree_def eval_nat_numeral getNode_def logVisit_def visitUnaryDefault_def)

lemma splitter_types:
  "layoutBinding (getQualifier (newTextureType ty b)) = b"
  "layoutBinding (getQualifier (newSamplerType ty b)) = b"
  "getBasicType ty = EbtSampler \<Longrightarrow> getBasicType (constructTextureSamplerType ty) = EbtSampler"
  "getBasicType ty = EbtSampler \<Longrightarrow>
     getSampler (constructTextureSamplerType ty) = (getSampler ty)\<lparr>combined := True\<rparr>"
  by (simp_all add: newTextureType_def newSamplerType_def constructTextureSamplerType_def
        TType_of_public_def zeroPublicType_def)

lemma texTree_traverse:
  "traverse snd SamplerSplitterTraverser_visitSymbol visitUnaryDefault 10 [] (treeRoot texTree)
     (\<lparr>m_samplerNameToSymbol = [], m_samplerSymbolsToParents = []\<rparr>, texTree)
   = Some (Inr (texTraverser, texTree))"
  by (simp add: texTree_def texTraverser_def eval_nat_numeral getNode_def visitUnaryDefault_def
        SamplerSplitterTraverser_visitSymbol_def isLinkerObject_def getParentNode_def
        sampler2DType_def floatType_def zeroQualifier_def)

lemma texTree_split:
  "SamplerSplitterTraverser_Traverse 10 0 texTree = Some (Inr (2, splitTexTree))"
  unfolding SamplerSplitterTraverser_Traverse_def texTree_traverse
  by (simp add: texTree_def texTraverser_def splitTexTree_def createReplacer_def symbolType_def
        getNode_def Next_def addNode_def linkerObjectAggregate_def map_find_def
        makeReplacements_def replaceOne_def symbolName_def map_index_def
        RemoveAllTreeNodes_def setNode_def)


text \<open>
  C6. The sampler splitter caches, by name, the plain-uniform sampler symbols that the
  traversal meets among the linker objects, and records as use sites, with their parents,
  those it meets elsewhere. For every cached candidate (in the order in which the pass
  walks its map), the new texture symbol and the new sampler symbol carry the same
  binding: the position of the candidate, since the counter starts at 0 and advances once
  per candidate. The name of the candidate is mapped to the new texture and sampler and
  to a new aggregate \<open>EOpConstructTextureSampler\<close> of the two, whose type is a sampler
  with the descriptor of the original symbol, marked combined. A turn of the replacement
  loop for a use site of that name installs this very aggregate in the parent's slot,
  whether the parent is an aggregate, a binary or a unary node.
\<close>

theorem texture_sampler_pairing:
  assumes "symbolVisits fuel t = Some (Inr visits)"
  shows "\<exists>tv st.
       traverse snd SamplerSplitterTraverser_visitSymbol visitUnaryDefault fuel [] (treeRoot t)
         (\<lparr>m_samplerNameToSymbol = [], m_samplerSymbolsToParents = []\<rparr>, t) = Some (Inr (tv, t))
     \<and> sorted_wrt (<) (map fst (m_samplerNameToSymbol tv))
     \<and> set (map fst (m_samplerNameToSymbol tv)) =
         {name. \<exists>path a i ty. (path, a) \<in> set visits
            \<and> getNode t (Some a) = Inr (TIntermSymbol i name ty)
            \<and> samplerCandidate ty \<and> isLinkerObject t path}
     \<and> m_samplerSymbolsToParents tv =
         map (\<lambda>(path, a). (a, getParentNode path))
           (filter (\<lambda>(path, a). \<exists>i name ty. getNode t (Some a) = Inr (TIntermSymbol i name ty)
                      \<and> samplerCandidate ty \<and> \<not> isLinkerObject t path) visits)
     \<and> createReplacers (m_samplerNameToSymbol tv)
         \<lparr>sl_layoutBinding = 0, sl_ids = ids, sl_nameToReplacement = [],
          sl_nameToNewTextureAndSampler = [], sl_tree = t\<rparr> = Inr st
     \<and> sl_layoutBinding st = length (m_samplerNameToSymbol tv)
     \<and> length (nodes (sl_tree st)) = length (nodes t) + 3 * length (m_samplerNameToSymbol tv)
     \<and> (\<forall>a < length (nodes t). nodes (sl_tree st) ! a = nodes t ! a)
     \<and> (\<forall>idx < length (m_samplerNameToSymbol tv).
          \<exists>name symbol i ty.
             m_samplerNameToSymbol tv ! idx = (name, symbol)
           \<and> getNode t (Some symbol) = Inr (TIntermSymbol i name ty) \<and> samplerCandidate ty
           \<and> map_find (sl_nameToNewTextureAndSampler st) name = Some (length (nodes t) + 3 * idx, length (nodes t) + 3 * idx + 1)
           \<and> map_index (sl_nameToReplacement st) name = (Some (length (nodes t) + 3 * idx + 2), sl_nameToReplacement st)
           \<and> getNode (sl_tree st) (Some (length (nodes t) + 3 * idx)) =
               Inr (TIntermSymbol (ids + 2 * idx) (name @ ''Texture'') (newTextureType ty idx))
           \<and> getNode (sl_tree st) (Some (length (nodes t) + 3 * idx + 1)) =
               Inr (TIntermSymbol (ids + 2 * idx + 1) name (newSamplerType ty idx))
           \<and> layoutBinding (getQualifier (newTextureType ty idx)) = idx
           \<and> layoutBinding (getQualifier (newSamplerType ty idx)) = idx
           \<and> getNode (sl_tree st) (Some (length (nodes t) + 3 * idx + 2)) =
               Inr (TIntermAggregate EOpConstructTextureSampler [Some (length (nodes t) + 3 * idx), Some (length (nodes t) + 3 * idx + 1)]
                      (constructTextureSamplerType ty))
           \<and> getBasicType (constructTextureSamplerType ty) = EbtSampler
           \<and> getSampler (constructTextureSamplerType ty) = (getSampler ty)\<lparr>combined := True\<rparr>
           \<and> (\<forall>u use parent op sq pty.
                 symbolName u use = Inr name
                 \<and> getNode u (Some parent) = Inr (TIntermAggregate op sq pty) \<longrightarrow>
                 replaceOne (sl_nameToReplacement st) (use, Some parent) u =
                   Inr (sl_nameToReplacement st, setNode parent
                         (TIntermAggregate op
                            (map (\<lambda>c. if c = Some use then Some (length (nodes t) + 3 * idx + 2) else c) sq) pty)
                         (u\<lparr>released := released u @ replicate (count_list sq (Some use)) use\<rparr>)))
           \<and> (\<forall>u use parent op r pty.
                 symbolName u use = Inr name
                 \<and> getNode u (Some parent) = Inr (TIntermBinary op (Some use) r pty) \<longrightarrow>
                 replaceOne (sl_nameToReplacement st) (use, Some parent) u =
                   Inr (sl_nameToReplacement st, setNode parent
                         (TIntermBinary op (Some (length (nodes t) + 3 * idx + 2)) r pty)
                         (u\<lparr>released := released u @ [use]\<rparr>)))
           \<and> (\<forall>u use parent op l pty.
                 symbolName u use = Inr name
                 \<and> getNode u (Some parent) = Inr (TIntermBinary op l (Some use) pty) \<and> l \<noteq> Some use \<longrightarrow>
                 replaceOne (sl_nameToReplacement st) (use, Some parent) u =
                   Inr (sl_nameToReplacement st, setNode parent
                         (TIntermBinary op l (Some (length (nodes t) + 3 * idx + 2)) pty)
                         (u\<lparr>released := released u @ [use]\<rparr>)))
           \<and> (\<forall>u use parent op pty.
                 symbolName u use = Inr name
                 \<and> getNode u (Some parent) = Inr (TIntermUnary op (Some use) pty) \<longrightarrow>
                 replaceOne (sl_nameToReplacement st) (use, Some parent) u =
                   Inr (sl_nameToReplacement st, setNode parent
                         (TIntermUnary op (Some (length (nodes t) + 3 * idx + 2)) pty)
                         (u\<lparr>released := released u @ [use]\<rparr>))))"
proof -
  from assms obtain t0 where l: "traverse snd logVisit visitUnaryDefault fuel [] (treeRoot t) ([], t) =
      Some (Inr (visits, t0))"
    by (auto simp: symbolVisits_def split: option.splits sum.splits)
  from traverse_visits[where vs = SamplerSplitterTraverser_visitSymbol and n = fuel
      and path = "[]" and p = "treeRoot t" and log = "[]" and t = t and log' = visits and t' = t0,
      OF splitter_keeps_tree] l
  have sym: "\<forall>(pa, a) \<in> set visits. \<exists>i name ty. getNode t (Some a) = Inr (TIntermSymbol i name ty)"
    and tr: "\<forall>x. traverse snd SamplerSplitterTraverser_visitSymbol visitUnaryDefault fuel []
         (treeRoot t) (x, t) = Some (foldVisits SamplerSplitterTraverser_visitSymbol visits (x, t))"
    by auto
  define tv0 where "tv0 = \<lparr>m_samplerNameToSymbol = [], m_samplerSymbolsToParents = []\<rparr>"
  define st0 where "st0 = \<lparr>sl_layoutBinding = 0, sl_ids = ids, sl_nameToReplacement = [],
          sl_nameToNewTextureAndSampler = [], sl_tree = t\<rparr>"
  from splitter_fold[OF sym, of tv0] obtain tv where
    f: "foldVisits SamplerSplitterTraverser_visitSymbol visits (tv0, t) = Inr (tv, t)"
    and s: "sorted_wrt (<) (map fst (m_samplerNameToSymbol tv))"
    and e: "\<forall>(k, a) \<in> set (m_samplerNameToSymbol tv).
              \<exists>i ty. getNode t (Some a) = Inr (TIntermSymbol i k ty) \<and> samplerCandidate ty"
    by (auto simp: tv0_def)
  from splitter_fold_caches[OF sym f]
  have keys: "set (map fst (m_samplerNameToSymbol tv)) =
         {name. \<exists>path a i ty. (path, a) \<in> set visits
            \<and> getNode t (Some a) = Inr (TIntermSymbol i name ty)
            \<and> samplerCandidate ty \<and> isLinkerObject t path}"
    and uses: "m_samplerSymbolsToParents tv =
         map (\<lambda>(path, a). (a, getParentNode path))
           (filter (\<lambda>(path, a). \<exists>i name ty. getNode t (Some a) = Inr (TIntermSymbol i name ty)
                      \<and> samplerCandidate ty \<and> \<not> isLinkerObject t path) visits)"
    by (simp_all add: tv0_def)
  from s have d: "distinct (map fst (m_samplerNameToSymbol tv))"
    by (simp add: strict_sorted_iff)
  define entries where "entries = m_samplerNameToSymbol tv"
  have "\<forall>(name, a) \<in> set entries. \<exists>i ty. getNode (sl_tree st0) (Some a) = Inr (TIntermSymbol i name ty)"
    using e by (fastforce simp: st0_def entries_def)
  from createReplacers_result[OF this] obtain st where
    c: "createReplacers entries st0 = Inr st"
    and len: "length (nodes (sl_tree st)) = length (nodes t) + 3 * length entries"
    and lb: "sl_layoutBinding st = length entries"
    and old: "\<forall>a < length (nodes t). nodes (sl_tree st) ! a = nodes t ! a"
    and nod: "\<forall>k < length entries. \<forall>name symbol i ty.
           entries ! k = (name, symbol)
           \<and> getNode t (Some symbol) = Inr (TIntermSymbol i name ty) \<longrightarrow>
           nodes (sl_tree st) ! (length (nodes t) + 3 * k) =
             TIntermSymbol (ids + 2 * k) (name @ ''Texture'') (newTextureType ty k)
         \<and> nodes (sl_tree st) ! (length (nodes t) + 3 * k + 1) =
             TIntermSymbol (ids + 2 * k + 1) name (newSamplerType ty k)
         \<and> nodes (sl_tree st) ! (length (nodes t) + 3 * k + 2) =
             TIntermAggregate EOpConstructTextureSampler
               [Some (length (nodes t) + 3 * k), Some (length (nodes t) + 3 * k + 1)]
               (constructTextureSamplerType ty)"
    and fnd: "\<forall>k < length entries.
             map_find (sl_nameToReplacement st) (fst (entries ! k)) =
               Some (Some (length (nodes t) + 3 * k + 2))
           \<and> map_find (sl_nameToNewTextureAndSampler st) (fst (entries ! k)) =
               Some (length (nodes t) + 3 * k, length (nodes t) + 3 * k + 1)"
    using d by (auto simp: st0_def entries_def)
  have each: "\<forall>idx < length entries.
          \<exists>name symbol i ty.
             entries ! idx = (name, symbol)
           \<and> getNode t (Some symbol) = Inr (TIntermSymbol i name ty) \<and> samplerCandidate ty
           \<and> map_find (sl_nameToNewTextureAndSampler st) name = Some (length (nodes t) + 3 * idx, length (nodes t) + 3 * idx + 1)
           \<and> map_index (sl_nameToReplacement st) name = (Some (length (nodes t) + 3 * idx + 2), sl_nameToReplacement st)
           \<and> getNode (sl_tree st) (Some (length (nodes t) + 3 * idx)) =
               Inr (TIntermSymbol (ids + 2 * idx) (name @ ''Texture'') (newTextureType ty idx))
           \<and> getNode (sl_tree st) (Some (length (nodes t) + 3 * idx + 1)) =
               Inr (TIntermSymbol (ids + 2 * idx + 1) name (newSamplerType ty idx))
           \<and> layoutBinding (getQualifier (newTextureType ty idx)) = idx
           \<and> layoutBinding (getQualifier (newSamplerType ty idx)) = idx
           \<and> getNode (sl_tree st) (Some (length (nodes t) + 3 * idx + 2)) =
               Inr (TIntermAggregate EOpConstructTextureSampler [Some (length (nodes t) + 3 * idx), Some (length (nodes t) + 3 * idx + 1)]
                      (constructTextureSamplerType ty))
           \<and> getBasicType (constructTextureSamplerType ty) = EbtSampler
           \<and> getSampler (constructTextureSamplerType ty) = (getSampler ty)\<lparr>combined := True\<rparr>
           \<and> (\<forall>u use parent op sq pty.
                 symbolName u use = Inr name
                 \<and> getNode u (Some parent) = Inr (TIntermAggregate op sq pty) \<longrightarrow>
                 replaceOne (sl_nameToReplacement st) (use, Some parent) u =
                   Inr (sl_nameToReplacement st, setNode parent
                         (TIntermAggregate op
                            (map (\<lambda>c. if c = Some use then Some (length (nodes t) + 3 * idx + 2) else c) sq) pty)
                         (u\<lparr>released := released u @ replicate (count_list sq (Some use)) use\<rparr>)))
           \<and> (\<forall>u use parent op r pty.
                 symbolName u use = Inr name
                 \<and> getNode u (Some parent) = Inr (TIntermBinary op (Some use) r pty) \<longrightarrow>
                 replaceOne (sl_nameToReplacement st) (use, Some parent) u =
                   Inr (sl_nameToReplacement st, setNode parent
                         (TIntermBinary op (Some (length (nodes t) + 3 * idx + 2)) r pty)
                         (u\<lparr>released := released u @ [use]\<rparr>)))
           \<and> (\<forall>u use parent op l pty.
                 symbolName u use = Inr name
                 \<and> getNode u (Some parent) = Inr (TIntermBinary op l (Some use) pty) \<and> l \<noteq> Some use \<longrightarrow>
                 replaceOne (sl_nameToReplacement st) (use, Some parent) u =
                   Inr (sl_nameToReplacement st, setNode parent
                         (TIntermBinary op l (Some (length (nodes t) + 3 * idx + 2)) pty)
                         (u\<lparr>released := released u @ [use]\<rparr>)))
           \<and> (\<forall>u use parent op pty.
                 symbolName u use = Inr name
                 \<and> getNode u (Some parent) = Inr (TIntermUnary op (Some use) pty) \<longrightarrow>
                 replaceOne (sl_nameToReplacement st) (use, Some parent) u =
                   Inr (sl_nameToReplacement st, setNode parent
                         (TIntermUnary op (Some (length (nodes t) + 3 * idx + 2)) pty)
                         (u\<lparr>released := released u @ [use]\<rparr>)))"
  proof (intro allI impI)
    fix idx assume i: "idx < length entries"
    obtain name symbol where en: "entries ! idx = (name, symbol)" by (cases "entries ! idx")
    with i have "(name, symbol) \<in> set entries" by (metis nth_mem)
    with e obtain i' ty where n: "getNode t (Some symbol) = Inr (TIntermSymbol i' name ty)"
      and cand: "samplerCandidate ty"
      by (auto simp: entries_def)
    from cand have bt: "getBasicType ty = EbtSampler" by (simp add: samplerCandidate_def)
    define L where "L = length (nodes t) + 3 * idx"
    from nod i en n have nn: "nodes (sl_tree st) ! L =
             TIntermSymbol (ids + 2 * idx) (name @ ''Texture'') (newTextureType ty idx)"
         "nodes (sl_tree st) ! (L + 1) = TIntermSymbol (ids + 2 * idx + 1) name (newSamplerType ty idx)"
         "nodes (sl_tree st) ! (L + 2) =
             TIntermAggregate EOpConstructTextureSampler [Some L, Some (L + 1)]
               (constructTextureSamplerType ty)"
      unfolding L_def by blast+
    from fnd i en have ff: "map_find (sl_nameToReplacement st) name = Some (Some (L + 2))"
      "map_find (sl_nameToNewTextureAndSampler st) name = Some (L, L + 1)"
      unfolding L_def by auto
    from len i have lt: "L + 2 < length (nodes (sl_tree st))" unfolding L_def by simp
    have g: "getNode (sl_tree st) (Some L) =
               Inr (TIntermSymbol (ids + 2 * idx) (name @ ''Texture'') (newTextureType ty idx))"
      "getNode (sl_tree st) (Some (L + 1)) =
               Inr (TIntermSymbol (ids + 2 * idx + 1) name (newSamplerType ty idx))"
      "getNode (sl_tree st) (Some (L + 2)) =
               Inr (TIntermAggregate EOpConstructTextureSampler [Some L, Some (L + 1)]
                      (constructTextureSamplerType ty))"
      using nn lt by (simp_all add: getNode_def)
    have mi: "map_index (sl_nameToReplacement st) name = (Some (L + 2), sl_nameToReplacement st)"
      using ff(1) by (simp add: map_index_def)
    have agg: "\<forall>u use parent op sq pty.
                 symbolName u use = Inr name
                 \<and> getNode u (Some parent) = Inr (TIntermAggregate op sq pty) \<longrightarrow>
                 replaceOne (sl_nameToReplacement st) (use, Some parent) u =
                   Inr (sl_nameToReplacement st, setNode parent
                         (TIntermAggregate op
                            (map (\<lambda>c. if c = Some use then Some (L + 2) else c) sq) pty)
                         (u\<lparr>released := released u @ replicate (count_list sq (Some use)) use\<rparr>))"
      using replaceOne_supported[OF _ _ mi] by blast
    have bl: "\<forall>u use parent op r pty.
                 symbolName u use = Inr name
                 \<and> getNode u (Some parent) = Inr (TIntermBinary op (Some use) r pty) \<longrightarrow>
                 replaceOne (sl_nameToReplacement st) (use, Some parent) u =
                   Inr (sl_nameToReplacement st, setNode parent
                         (TIntermBinary op (Some (L + 2)) r pty)
                         (u\<lparr>released := released u @ [use]\<rparr>))"
      using replaceOne_supported[OF _ _ mi] by blast
    have br: "\<forall>u use parent op l pty.
                 symbolName u use = Inr name
                 \<and> getNode u (Some parent) = Inr (TIntermBinary op l (Some use) pty) \<and> l \<noteq> Some use \<longrightarrow>
                 replaceOne (sl_nameToReplacement st) (use, Some parent) u =
                   Inr (sl_nameToReplacement st, setNode parent
                         (TIntermBinary op l (Some (L + 2)) pty)
                         (u\<lparr>released := released u @ [use]\<rparr>))"
      using replaceOne_supported[OF _ _ mi] by blast
    have un: "\<forall>u use parent op pty.
                 symbolName u use = Inr name
                 \<and> getNode u (Some parent) = Inr (TIntermUnary op (Some use) pty) \<longrightarrow>
                 replaceOne (sl_nameToReplacement st) (use, Some parent) u =
                   Inr (sl_nameToReplacement st, setNode parent
                         (TIntermUnary op (Some (L + 2)) pty)
                         (u\<lparr>released := released u @ [use]\<rparr>))"
      using replaceOne_supported[OF _ _ mi] by blast
    from en n cand ff(2) mi g splitter_types(1,2)[of ty idx] splitter_types(3,4)[OF bt] agg bl br un
    show "\<exists>name symbol i ty.
             entries ! idx = (name, symbol)
           \<and> getNode t (Some symbol) = Inr (TIntermSymbol i name ty) \<and> samplerCandidate ty
           \<and> map_find (sl_nameToNewTextureAndSampler st) name = Some (length (nodes t) + 3 * idx, length (nodes t) + 3 * idx + 1)
           \<and> map_index (sl_nameToReplacement st) name = (Some (length (nodes t) + 3 * idx + 2), sl_nameToReplacement st)
           \<and> getNode (sl_tree st) (Some (length (nodes t) + 3 * idx)) =
               Inr (TIntermSymbol (ids + 2 * idx) (name @ ''Texture'') (newTextureType ty idx))
           \<and> getNode (sl_tree st) (Some (length (nodes t) + 3 * idx + 1)) =
               Inr (TIntermSymbol (ids + 2 * idx + 1) name (newSamplerType ty idx))
           \<and> layoutBinding (getQualifier (newTextureType ty idx)) = idx
           \<and> layoutBinding (getQualifier (newSamplerType ty idx)) = idx
           \<and> getNode (sl_tree st) (Some (length (nodes t) + 3 * idx + 2)) =
               Inr (TIntermAggregate EOpConstructTextureSampler [Some (length (nodes t) + 3 * idx), Some (length (nodes t) + 3 * idx + 1)]
                      (constructTextureSamplerType ty))
           \<and> getBasicType (constructTextureSamplerType ty) = EbtSampler
           \<and> getSampler (constructTextureSamplerType ty) = (getSampler ty)\<lparr>combined := True\<rparr>
           \<and> (\<forall>u use parent op sq pty.
                 symbolName u use = Inr name
                 \<and> getNode u (Some parent) = Inr (TIntermAggregate op sq pty) \<longrightarrow>
                 replaceOne (sl_nameToReplacement st) (use, Some parent) u =
                   Inr (sl_nameToReplacement st, setNode parent
                         (TIntermAggregate op
                            (map (\<lambda>c. if c = Some use then Some (length (nodes t) + 3 * idx + 2) else c) sq) pty)
                         (u\<lparr>released := released u @ replicate (count_list sq (Some use)) use\<rparr>)))
           \<and> (\<forall>u use parent op r pty.
                 symbolName u use = Inr name
                 \<and> getNode u (Some parent) = Inr (TIntermBinary op (Some use) r pty) \<longrightarrow>
                 replaceOne (sl_nameToReplacement st) (use, Some parent) u =
                   Inr (sl_nameToReplacement st, setNode parent
                         (TIntermBinary op (Some (length (nodes t) + 3 * idx + 2)) r pty)
                         (u\<lparr>released := released u @ [use]\<rparr>)))
           \<and> (\<forall>u use parent op l pty.
                 symbolName u use = Inr name
                 \<and> getNode u (Some parent) = Inr (TIntermBinary op l (Some use) pty) \<and> l \<noteq> Some use \<longrightarrow>
                 replaceOne (sl_nameToReplacement st) (use, Some parent) u =
                   Inr (sl_nameToReplacement st, setNode parent
                         (TIntermBinary op l (Some (length (nodes t) + 3 * idx + 2)) pty)
                         (u\<lparr>released := released u @ [use]\<rparr>)))
           \<and> (\<forall>u use parent op pty.
                 symbolName u use = Inr name
                 \<and> getNode u (Some parent) = Inr (TIntermUnary op (Some use) pty) \<longrightarrow>
                 replaceOne (sl_nameToReplacement st) (use, Some parent) u =
                   Inr (sl_nameToReplacement st, setNode parent
                         (TIntermUnary op (Some (length (nodes t) + 3 * idx + 2)) pty)
                         (u\<lparr>released := released u @ [use]\<rparr>)))"
      unfolding L_def by (intro exI conjI)
  qed
  from tr f have t1: "traverse snd SamplerSplitterTraverser_visitSymbol visitUnaryDefault fuel [] (treeRoot t)
         (\<lparr>m_samplerNameToSymbol = [], m_samplerSymbolsToParents = []\<rparr>, t) = Some (Inr (tv, t))"
    by (simp add: tv0_def)
  from t1 s keys uses c lb len old each show ?thesis
    unfolding entries_def st0_def by (intro exI conjI)
qed

theorem texture_sampler_pairing_witness:
  "traverse snd SamplerSplitterTraverser_visitSymbol visitUnaryDefault 10 [] (treeRoot texTree)
     (\<lparr>m_samplerNameToSymbol = [], m_samplerSymbolsToParents = []\<rparr>, texTree)
     = Some (Inr (texTraverser, texTree))
   \<and> m_samplerNameToSymbol texTraverser = [(''tex'', 3)]
   \<and> m_samplerSymbolsToParents texTraverser = [(0, Some 2)]
   \<and> (\<exists>st. createReplacers [(''tex'', 3)]
              \<lparr>sl_layoutBinding = 0, sl_ids = 0, sl_nameToReplacement = [],
               sl_nameToNewTextureAndSampler = [], sl_tree = texTree\<rparr> = Inr st
        \<and> sl_layoutBinding st = 1
        \<and> map_find (sl_nameToNewTextureAndSampler st) ''tex'' = Some (6, 7)
        \<and> getNode (sl_tree st) (Some 6) =
            Inr (TIntermSymbol 0 ''texTexture'' (newTextureType sampler2DType 0))
        \<and> getNode (sl_tree st) (Some 7) =
            Inr (TIntermSymbol 1 ''tex'' (newSamplerType sampler2DType 0))
        \<and> layoutBinding (getQualifier (newTextureType sampler2DType 0)) = 0
        \<and> layoutBinding (getQualifier (newSamplerType sampler2DType 0)) = 0
        \<and> getNode (sl_tree st) (Some 8) =
            Inr (TIntermAggregate EOpConstructTextureSampler [Some 6, Some 7]
                   (constructTextureSamplerType sampler2DType))
        \<and> getSampler (constructTextureSamplerType sampler2DType) = getSampler sampler2DType
        \<and> replaceOne (sl_nameToReplacement st) (0, Some 2) (sl_tree st) =
            Inr (sl_nameToReplacement st,
                 setNode 2 (TIntermAggregate EOpTexture [Some 8, Some 1] (floatType 4 EvqTemporary))
                   ((sl_tree st)\<lparr>released := released (sl_tree st) @ [0]\<rparr>)))
   \<and> SamplerSplitterTraverser_Traverse 10 0 texTree = Some (Inr (2, splitTexTree))"
proof -
  from texture_sampler_pairing[OF texTree_visits, of 0] obtain tv st where
    t: "traverse snd SamplerSplitterTraverser_visitSymbol visitUnaryDefault 10 [] (treeRoot texTree)
         (\<lparr>m_samplerNameToSymbol = [], m_samplerSymbolsToParents = []\<rparr>, texTree) = Some (Inr (tv, texTree))"
    and c: "createReplacers (m_samplerNameToSymbol tv)
         \<lparr>sl_layoutBinding = 0, sl_ids = 0, sl_nameToReplacement = [],
          sl_nameToNewTextureAndSampler = [], sl_tree = texTree\<rparr> = Inr st"
    and lb: "sl_layoutBinding st = length (m_samplerNameToSymbol tv)"
    and len: "length (nodes (sl_tree st)) = length (nodes texTree) + 3 * length (m_samplerNameToSymbol tv)"
    and old: "\<forall>a < length (nodes texTree). nodes (sl_tree st) ! a = nodes texTree ! a"
    and each: "\<forall>idx < length (m_samplerNameToSymbol tv).
          \<exists>name symbol i ty.
             m_samplerNameToSymbol tv ! idx = (name, symbol)
           \<and> getNode texTree (Some symbol) = Inr (TIntermSymbol i name ty) \<and> samplerCandidate ty
           \<and> map_find (sl_nameToNewTextureAndSampler st) name = Some (length (nodes texTree) + 3 * idx, length (nodes texTree) + 3 * idx + 1)
           \<and> map_index (sl_nameToReplacement st) name = (Some (length (nodes texTree) + 3 * idx + 2), sl_nameToReplacement st)
           \<and> getNode (sl_tree st) (Some (length (nodes texTree) + 3 * idx)) =
               Inr (TIntermSymbol (0 + 2 * idx) (name @ ''Texture'') (newTextureType ty idx))
           \<and> getNode (sl_tree st) (Some (length (nodes texTree) + 3 * idx + 1)) =
               Inr (TIntermSymbol (0 + 2 * idx + 1) name (newSamplerType ty idx))
           \<and> layoutBinding (getQualifier (newTextureType ty idx)) = idx
           \<and> layoutBinding (getQualifier (newSamplerType ty idx)) = idx
           \<and> getNode (sl_tree st) (Some (length (nodes texTree) + 3 * idx + 2)) =
               Inr (TIntermAggregate EOpConstructTextureSampler [Some (length (nodes texTree) + 3 * idx), Some (length (nodes texTree) + 3 * idx + 1)]
                      (constructTextureSamplerType ty))
           \<and> getBasicType (constructTextureSamplerType ty) = EbtSampler
           \<and> getSampler (constructTextureSamplerType ty) = (getSampler ty)\<lparr>combined := True\<rparr>
           \<and> (\<forall>u use parent op sq pty.
                 symbolName u use = Inr name
                 \<and> getNode u (Some parent) = Inr (TIntermAggregate op sq pty) \<longrightarrow>
                 replaceOne (sl_nameToReplacement st) (use, Some parent) u =
                   Inr (sl_nameToReplacement st, setNode parent
                         (TIntermAggregate op
                            (map (\<lambda>c. if c = Some use then Some (length (nodes texTree) + 3 * idx + 2) else c) sq) pty)
                         (u\<lparr>released := released u @ replicate (count_list sq (Some use)) use\<rparr>)))
           \<and> (\<forall>u use parent op r pty.
                 symbolName u use = Inr name
                 \<and> getNode u (Some parent) = Inr (TIntermBinary op (Some use) r pty) \<longrightarrow>
                 replaceOne (sl_nameToReplacement st) (use, Some parent) u =
                   Inr (sl_nameToReplacement st, setNode parent
                         (TIntermBinary op (Some (length (nodes texTree) + 3 * idx + 2)) r pty)
                         (u\<lparr>released := released u @ [use]\<rparr>)))
           \<and> (\<forall>u use parent op l pty.
                 symbolName u use = Inr name
                 \<and> getNode u (Some parent) = Inr (TIntermBinary op l (Some use) pty) \<and> l \<noteq> Some use \<longrightarrow>
                 replaceOne (sl_nameToReplacement st) (use, Some parent) u =
                   Inr (sl_nameToReplacement st, setNode parent
                         (TIntermBinary op l (Some (length (nodes texTree) + 3 * idx + 2)) pty)
                         (u\<lparr>released := released u @ [use]\<rparr>)))
           \<and> (\<forall>u use parent op pty.
                 symbolName u use = Inr name
                 \<and> getNode u (Some parent) = Inr (TIntermUnary op (Some use) pty) \<longrightarrow>
                 replaceOne (sl_nameToReplacement st) (use, Some parent) u =
                   Inr (sl_nameToReplacement st, setNode parent
                         (TIntermUnary op (Some (length (nodes texTree) + 3 * idx + 2)) pty)
                         (u\<lparr>released := released u @ [use]\<rparr>)))"
    by (elim exE conjE)
  from t have tv: "tv = texTraverser" unfolding texTree_traverse by simp
  have m: "m_samplerNameToSymbol texTraverser = [(''tex'', 3)]"
    "m_samplerSymbolsToParents texTraverser = [(0, Some 2)]"
    by (simp_all add: texTraverser_def)
  have n: "length (nodes texTree) = 6" by (simp add: texTree_def)
  have "0 < length [(''tex'', 3::nat)]" by simp
  from each[unfolded tv m, rule_format, OF this] obtain name symbol i ty where
    r1: "[(''tex'', 3)] ! 0 = (name, symbol)"
    and r2: "getNode texTree (Some symbol) = Inr (TIntermSymbol i name ty)"
    and r4: "map_find (sl_nameToNewTextureAndSampler st) name = Some (length (nodes texTree) + 3 * 0, length (nodes texTree) + 3 * 0 + 1)"
    and r6: "getNode (sl_tree st) (Some (length (nodes texTree) + 3 * 0)) =
               Inr (TIntermSymbol (0 + 2 * 0) (name @ ''Texture'') (newTextureType ty 0))"
    and r7: "getNode (sl_tree st) (Some (length (nodes texTree) + 3 * 0 + 1)) =
               Inr (TIntermSymbol (0 + 2 * 0 + 1) name (newSamplerType ty 0))"
    and r8: "layoutBinding (getQualifier (newTextureType ty 0)) = 0"
    and r9: "layoutBinding (getQualifier (newSamplerType ty 0)) = 0"
    and r10: "getNode (sl_tree st) (Some (length (nodes texTree) + 3 * 0 + 2)) =
               Inr (TIntermAggregate EOpConstructTextureSampler [Some (length (nodes texTree) + 3 * 0), Some (length (nodes texTree) + 3 * 0 + 1)]
                      (constructTextureSamplerType ty))"
    and r12: "getSampler (constructTextureSamplerType ty) = (getSampler ty)\<lparr>combined := True\<rparr>"
    and r13: "(\<forall>u use parent op sq pty.
                 symbolName u use = Inr name
                 \<and> getNode u (Some parent) = Inr (TIntermAggregate op sq pty) \<longrightarrow>
                 replaceOne (sl_nameToReplacement st) (use, Some parent) u =
                   Inr (sl_nameToReplacement st, setNode parent
                         (TIntermAggregate op
                            (map (\<lambda>c. if c = Some use then Some (length (nodes texTree) + 3 * 0 + 2) else c) sq) pty)
                         (u\<lparr>released := released u @ replicate (count_list sq (Some use)) use\<rparr>)))"
    by (elim exE conjE)
  from r1 have ns: "name = ''tex''" "symbol = 3" by simp_all
  from r2 have ty: "ty = sampler2DType" unfolding ns by (simp add: texTree_def getNode_def)
  have sm: "(getSampler sampler2DType)\<lparr>combined := True\<rparr> = getSampler sampler2DType"
    by (simp add: sampler2DType_def)
  have u: "symbolName (sl_tree st) 0 = Inr ''tex''"
    "getNode (sl_tree st) (Some 2) =
       Inr (TIntermAggregate EOpTexture [Some 0, Some 1] (floatType 4 EvqTemporary))"
    using old[rule_format, of 0] old[rule_format, of 2] len
    by (simp_all add: symbolName_def getNode_def n) (simp_all add: texTree_def)
  have rep: "replaceOne (sl_nameToReplacement st) (0, Some 2) (sl_tree st) =
            Inr (sl_nameToReplacement st,
                 setNode 2 (TIntermAggregate EOpTexture [Some 8, Some 1] (floatType 4 EvqTemporary))
                   ((sl_tree st)\<lparr>released := released (sl_tree st) @ [0]\<rparr>))"
    using r13[unfolded ns n, rule_format, of "sl_tree st" 0 2 EOpTexture "[Some 0, Some 1]" "floatType 4 EvqTemporary"] u
    by simp
  have f: "map_find (sl_nameToNewTextureAndSampler st) ''tex'' = Some (6, 7)"
    "getNode (sl_tree st) (Some 6) =
            Inr (TIntermSymbol 0 ''texTexture'' (newTextureType sampler2DType 0))"
    "getNode (sl_tree st) (Some 7) =
            Inr (TIntermSymbol 1 ''tex'' (newSamplerType sampler2DType 0))"
    "layoutBinding (getQualifier (newTextureType sampler2DType 0)) = 0"
    "layoutBinding (getQualifier (newSamplerType sampler2DType 0)) = 0"
    "getNode (sl_tree st) (Some 8) =
            Inr (TIntermAggregate EOpConstructTextureSampler [Some 6, Some 7]
                   (constructTextureSamplerType sampler2DType))"
    "getSampler (constructTextureSamplerType sampler2DType) = getSampler sampler2DType"
    using r4 r6 r7 r8 r9 r10 r12 unfolding ns ty n by (simp_all add: sm)
  from lb have lb1: "sl_layoutBinding st = 1" unfolding tv m by simp
  from c have c1: "createReplacers [(''tex'', 3)]
              \<lparr>sl_layoutBinding = 0, sl_ids = 0, sl_nameToReplacement = [],
               sl_nameToNewTextureAndSampler = [], sl_tree = texTree\<rparr> = Inr st"
    unfolding tv m .
  have "\<exists>st. createReplacers [(''tex'', 3)]
              \<lparr>sl_layoutBinding = 0, sl_ids = 0, sl_nameToReplacement = [],
               sl_nameToNewTextureAndSampler = [], sl_tree = texTree\<rparr> = Inr st
        \<and> sl_layoutBinding st = 1
        \<and> map_find (sl_nameToNewTextureAndSampler st) ''tex'' = Some (6, 7)
        \<and> getNode (sl_tree st) (Some 6) =
            Inr (TIntermSymbol 0 ''texTexture'' (newTextureType sampler2DType 0))
        \<and> getNode (sl_tree st) (Some 7) =
            Inr (TIntermSymbol 1 ''tex'' (newSamplerType sampler2DType 0))
        \<and> layoutBinding (getQualifier (newTextureType sampler2DType 0)) = 0
        \<and> layoutBinding (getQualifier (newSamplerType sampler2DType 0)) = 0
        \<and> getNode (sl_tree st) (Some 8) =
            Inr (TIntermAggregate EOpConstructTextureSampler [Some 6, Some 7]
                   (constructTextureSamplerType sampler2DType))
        \<and> getSampler (constructTextureSamplerType sampler2DType) = getSampler sampler2DType
        \<and> replaceOne (sl_nameToReplacement st) (0, Some 2) (sl_tree st) =
            Inr (sl_nameToReplacement st,
                 setNode 2 (TIntermAggregate EOpTexture [Some 8, Some 1] (floatType 4 EvqTemporary))
                   ((sl_tree st)\<lparr>released := released (sl_tree st) @ [0]\<rparr>))"
    using c1 lb1 f rep by (intro exI[of _ st] conjI)
  with texTree_traverse m texTree_split show ?thesis by (intro conjI)
qed

section \<open>What the attribute binder collects and assigns\<close>

lemma uvTree_visits:
  "symbolVisits 10 uvTree =
     Some (Inr [([8, 3], 0), ([8, 3], 1), ([8, 3], 2), ([8, 7], 4), ([8, 7], 5), ([8, 7], 6)])"
  by (simp add: symbolVisits_def uvTree_def eval_nat_numeral getNode_def logVisit_def visitUnaryDefault_def)

lemma uvTree_traverse:
  "traverse snd VertexVaryingInTraverser_visitSymbol visitUnaryDefault 10 [] (treeRoot uvTree)
     (\<lparr>m_genericAttributesRunningCount = 0, m_varyingNameToSymbol = [],
       m_varyingSymbolsToParents = []\<rparr>, uvTree)
   = Some (Inr (uvTraverser, uvTree))"
  by (simp add: uvTree_def uvTraverser_def eval_nat_numeral getNode_def visitUnaryDefault_def
        VertexVaryingInTraverser_visitSymbol_def isLinkerObject_def getParentNode_def
        floatType_def zeroQualifier_def Let_def)

lemma uvTree_packed:
  "VertexVaryingInTraverser_Traverse True 10 0 [] uvTree =
     Some (Inr (3, [(''a_normal'', ''splat''), (''a_position'', ''position''), (''a_tangent'', ''uv'')],
                packedUvTree))"
  unfolding VertexVaryingInTraverser_Traverse_def uvTree_traverse
  apply (simp add: preprocessUVs_def varyingLoopStart_def uvTraverser_def Let_def)
  apply (simp add: uvTree_def packedUvTree_def createVaryingSymbol_def symbolType_def getNode_def
        GetVaryingLocationAndNewNameForName_def s_attribName_def Next_def addNode_def
        floatType_def attributeType_def isMatrix_def isVector_def setVector_def TType_of_public_def
        setBasicType_def zeroPublicType_def zeroQualifier_def clearLayout_def Let_def
        makeReplacements_def replaceOne_def symbolName_def map_index_def map_find_def
        RemoveAllTreeNodes_def setNode_def)
  done

lemma uvTree_table:
  "VertexVaryingInTraverser_Traverse False 10 0 [] uvTree =
     Some (Inr (3, [(''a_position'', ''position''), (''a_texcoord0'', ''uv''), (''splat'', ''splat'')],
                tableUvTree))"
  unfolding VertexVaryingInTraverser_Traverse_def uvTree_traverse
  apply (simp add: preprocessUVs_def varyingLoopStart_def uvTraverser_def Let_def isUVName_def)
  apply (simp add: uvTree_def tableUvTree_def createVaryingSymbol_def symbolType_def getNode_def
        GetVaryingLocationAndNewNameForName_def FIRST_GENERIC_ATTRIBUTE_LOCATION_def Next_def addNode_def
        floatType_def attributeType_def isMatrix_def isVector_def setVector_def TType_of_public_def
        setBasicType_def zeroPublicType_def zeroQualifier_def clearLayout_def Let_def
        makeReplacements_def replaceOne_def symbolName_def map_index_def map_find_def
        RemoveAllTreeNodes_def setNode_def)
  done

lemma binder_visit:
  assumes "getNode t (Some a) = Inr (TIntermSymbol i name ty)"
  shows "VertexVaryingInTraverser_visitSymbol path a (tv, t) =
     Inr (if storage (getQualifier ty) = EvqVaryingIn
          then (if isLinkerObject t path
                then tv\<lparr>m_varyingNameToSymbol := map_assign name a (m_varyingNameToSymbol tv),
                        m_varyingSymbolsToParents := m_varyingSymbolsToParents tv @ [(a, getParentNode path)]\<rparr>
                else tv\<lparr>m_varyingSymbolsToParents := m_varyingSymbolsToParents tv @ [(a, getParentNode path)]\<rparr>)
          else tv, t)"
  using assms
  by (simp add: VertexVaryingInTraverser_visitSymbol_def Let_def)

lemma binder_keeps_tree:
  assumes "VertexVaryingInTraverser_visitSymbol path a (x, t) = Inr (x', t')"
  shows "t' = t"
proof (cases "getNode t (Some a)")
  case (Inl e)
  with assms show ?thesis by (simp add: VertexVaryingInTraverser_visitSymbol_def)
next
  case (Inr n)
  show ?thesis
  proof (cases "\<exists>i name ty. n = TIntermSymbol i name ty")
    case True
    then obtain i name ty where "n = TIntermSymbol i name ty" by blast
    with Inr binder_visit[of t a i name ty path x] assms show ?thesis
      by (simp split: if_splits)
  next
    case False
    with Inr assms show ?thesis
      by (cases n) (simp_all add: VertexVaryingInTraverser_visitSymbol_def)
  qed
qed

lemma binder_fold:
  assumes "\<forall>(path, a) \<in> set visits. \<exists>i name ty. getNode t (Some a) = Inr (TIntermSymbol i name ty)"
  shows "\<exists>tv'. foldVisits VertexVaryingInTraverser_visitSymbol visits (tv, t) = Inr (tv', t)
     \<and> m_genericAttributesRunningCount tv' = m_genericAttributesRunningCount tv
     \<and> (sorted_wrt (<) (map fst (m_varyingNameToSymbol tv))
           \<longrightarrow> sorted_wrt (<) (map fst (m_varyingNameToSymbol tv')))
     \<and> ((\<forall>(k, a) \<in> set (m_varyingNameToSymbol tv).
            \<exists>i ty. getNode t (Some a) = Inr (TIntermSymbol i k ty))
           \<longrightarrow> (\<forall>(k, a) \<in> set (m_varyingNameToSymbol tv').
            \<exists>i ty. getNode t (Some a) = Inr (TIntermSymbol i k ty)))"
  using assms
proof (induction visits arbitrary: tv)
  case Nil
  show ?case by simp
next
  case (Cons v visits)
  obtain path a where v: "v = (path, a)" by (cases v)
  from Cons.prems obtain i name ty where n: "getNode t (Some a) = Inr (TIntermSymbol i name ty)"
    by (auto simp: v)
  define tv1 where "tv1 = (if storage (getQualifier ty) = EvqVaryingIn
          then (if isLinkerObject t path
                then tv\<lparr>m_varyingNameToSymbol := map_assign name a (m_varyingNameToSymbol tv),
                        m_varyingSymbolsToParents := m_varyingSymbolsToParents tv @ [(a, getParentNode path)]\<rparr>
                else tv\<lparr>m_varyingSymbolsToParents := m_varyingSymbolsToParents tv @ [(a, getParentNode path)]\<rparr>)
          else tv)"
  have step: "foldVisits VertexVaryingInTraverser_visitSymbol (v # visits) (tv, t) =
      foldVisits VertexVaryingInTraverser_visitSymbol visits (tv1, t)"
    by (simp add: v binder_visit[OF n] tv1_def)
  from Cons.prems have rest: "\<forall>(path, a) \<in> set visits. \<exists>i name ty. getNode t (Some a) = Inr (TIntermSymbol i name ty)"
    by simp
  from Cons.IH[OF rest, of tv1] obtain tv' where
    f: "foldVisits VertexVaryingInTraverser_visitSymbol visits (tv1, t) = Inr (tv', t)"
    and c: "m_genericAttributesRunningCount tv' = m_genericAttributesRunningCount tv1"
    and s: "sorted_wrt (<) (map fst (m_varyingNameToSymbol tv1))
           \<longrightarrow> sorted_wrt (<) (map fst (m_varyingNameToSymbol tv'))"
    and e: "(\<forall>(k, a) \<in> set (m_varyingNameToSymbol tv1).
            \<exists>i ty. getNode t (Some a) = Inr (TIntermSymbol i k ty))
           \<longrightarrow> (\<forall>(k, a) \<in> set (m_varyingNameToSymbol tv').
            \<exists>i ty. getNode t (Some a) = Inr (TIntermSymbol i k ty))"
    by blast
  have c1: "m_genericAttributesRunningCount tv1 = m_genericAttributesRunningCount tv"
    by (simp add: tv1_def)
  have s1: "sorted_wrt (<) (map fst (m_varyingNameToSymbol tv))
           \<longrightarrow> sorted_wrt (<) (map fst (m_varyingNameToSymbol tv1))"
    by (auto simp: tv1_def sorted_map_assign)
  have e1: "(\<forall>(k, a) \<in> set (m_varyingNameToSymbol tv).
            \<exists>i ty. getNode t (Some a) = Inr (TIntermSymbol i k ty))
           \<longrightarrow> (\<forall>(k, a) \<in> set (m_varyingNameToSymbol tv1).
            \<exists>i ty. getNode t (Some a) = Inr (TIntermSymbol i k ty))"
    using n entries_map_assign[of name a "m_varyingNameToSymbol tv"]
    by (auto simp: tv1_def)
  from s s1 have s2: "sorted_wrt (<) (map fst (m_varyingNameToSymbol tv))
           \<longrightarrow> sorted_wrt (<) (map fst (m_varyingNameToSymbol tv'))" by blast
  from e e1 have e2: "(\<forall>(k, a) \<in> set (m_varyingNameToSymbol tv).
            \<exists>i ty. getNode t (Some a) = Inr (TIntermSymbol i k ty))
           \<longrightarrow> (\<forall>(k, a) \<in> set (m_varyingNameToSymbol tv').
            \<exists>i ty. getNode t (Some a) = Inr (TIntermSymbol i k ty))" by blast
  from c c1 have c2: "m_genericAttributesRunningCount tv' = m_genericAttributesRunningCount tv" by simp
  from f c2 s2 e2 show ?case
    unfolding step by (intro exI[of _ tv'] conjI)
qed

lemma precountUVs_eq:
  "precountUVs m count = count + length (filter isUVName (map fst m))"
  by (induction m count rule: precountUVs.induct) simp_all

lemma GetVaryingLocationAndNewNameForName_count:
  assumes "GetVaryingLocationAndNewNameForName packed count name = Inr (r, count')"
  shows "count' = count + (if advancesCount packed name then 1 else 0)"
proof (cases packed)
  case True
  with assms show ?thesis
    by (simp add: GetVaryingLocationAndNewNameForName_def advancesCount_def split: if_splits)
next
  case False
  show ?thesis
  proof (cases "isTableName name")
    case True
    then have "count' = count"
      using assms False unfolding isTableName_def
      by (elim disjE) (simp_all add: GetVaryingLocationAndNewNameForName_def)
    with True False show ?thesis by (simp add: advancesCount_def)
  next
    case nt: False
    then have "GetVaryingLocationAndNewNameForName packed count name =
        Inr ((FIRST_GENERIC_ATTRIBUTE_LOCATION + count, name), Suc count)"
      using False by (simp add: GetVaryingLocationAndNewNameForName_def isTableName_def)
    with assms nt False show ?thesis by (simp add: advancesCount_def)
  qed
qed

lemma createVaryingSymbol_count:
  assumes "createVaryingSymbol packed (name, symbol) st = Inr st'"
  shows "vl_count st' = vl_count st + (if advancesCount packed name then 1 else 0)"
proof -
  from assms obtain ty where ty: "symbolType (vl_tree st) symbol = Inr ty"
    by (auto simp: createVaryingSymbol_def split: sum.splits)
  from assms ty obtain r count' where g: "GetVaryingLocationAndNewNameForName packed (vl_count st) name = Inr (r, count')"
    by (auto simp: createVaryingSymbol_def split: sum.splits)
  obtain location newName where r: "r = (location, newName)" by (cases r)
  from assms ty g r have "vl_count st' = count'"
    by (auto simp: createVaryingSymbol_def Let_def Next_def addNode_def)
  with GetVaryingLocationAndNewNameForName_count[OF g] show ?thesis by simp
qed

lemma createVaryingSymbols_count:
  assumes "createVaryingSymbols packed entries st = Inr st'"
  shows "vl_count st' = vl_count st + length (filter (advancesCount packed) (map fst entries))"
  using assms
proof (induction entries arbitrary: st)
  case Nil then show ?case by simp
next
  case (Cons e entries)
  obtain name symbol where e: "e = (name, symbol)" by (cases e)
  from Cons.prems obtain st1 where 1: "createVaryingSymbol packed (name, symbol) st = Inr st1"
    and 2: "createVaryingSymbols packed entries st1 = Inr st'"
    by (auto simp: e split: sum.splits)
  from Cons.IH[OF 2] createVaryingSymbol_count[OF 1] show ?case by (simp add: e)
qed

lemma advancesCount_simps:
  "advancesCount False = (\<lambda>n. \<not> isTableName n)"
  "advancesCount True = (\<lambda>n. True)"
  by (simp_all add: fun_eq_iff advancesCount_def)

text \<open>
  C8, as amended. The pre-scan of the UV coordinate names belongs to the fixed-table
  variant of the attribute binder, not to the capacity-constrained (packed) one. In the
  fixed-table variant the counter is advanced once per candidate whose name begins with
  \<open>uv\<close> before any slot is assigned, so that a name outside the table gets the slot
  \<open>FIRST_GENERIC_ATTRIBUTE_LOCATION\<close> plus the number of such names plus the number of
  earlier names outside the table. In the packed variant nothing is pre-scanned: the
  counter starts at 0 and the candidate at position \<open>k\<close> of the name map gets slot \<open>k\<close>
  and the \<open>k\<close>-th name of \<open>s_attribName\<close>.
\<close>

theorem uv_prescan_in_fixed_table_variant:
  assumes "symbolVisits fuel t = Some (Inr visits)"
  shows "\<exists>tv.
       traverse snd VertexVaryingInTraverser_visitSymbol visitUnaryDefault fuel [] (treeRoot t)
         (\<lparr>m_genericAttributesRunningCount = 0, m_varyingNameToSymbol = [],
           m_varyingSymbolsToParents = []\<rparr>, t) = Some (Inr (tv, t))
     \<and> m_genericAttributesRunningCount (preprocessUVs False tv) =
         length (filter isUVName (map fst (m_varyingNameToSymbol tv)))
     \<and> m_genericAttributesRunningCount (preprocessUVs True tv) = 0
     \<and> (\<forall>pre name symbol rest st ids names.
          m_varyingNameToSymbol tv = pre @ (name, symbol) # rest
          \<and> createVaryingSymbols False pre (varyingLoopStart (preprocessUVs False tv) ids names t) = Inr st
          \<and> \<not> isTableName name \<longrightarrow>
          GetVaryingLocationAndNewNameForName False (vl_count st) name =
            Inr ((FIRST_GENERIC_ATTRIBUTE_LOCATION
                    + length (filter isUVName (map fst (m_varyingNameToSymbol tv)))
                    + length (filter (\<lambda>n. \<not> isTableName n) (map fst pre)), name),
                 Suc (vl_count st)))
     \<and> (\<forall>pre name symbol rest st ids names.
          m_varyingNameToSymbol tv = pre @ (name, symbol) # rest
          \<and> createVaryingSymbols True pre (varyingLoopStart (preprocessUVs True tv) ids names t) = Inr st
          \<and> length pre < length s_attribName \<longrightarrow>
          GetVaryingLocationAndNewNameForName True (vl_count st) name =
            Inr ((length pre, s_attribName ! length pre), Suc (length pre)))"
proof -
  from assms obtain t0 where l: "traverse snd logVisit visitUnaryDefault fuel [] (treeRoot t) ([], t) =
      Some (Inr (visits, t0))"
    by (auto simp: symbolVisits_def split: option.splits sum.splits)
  from traverse_visits[where vs = VertexVaryingInTraverser_visitSymbol and n = fuel
      and path = "[]" and p = "treeRoot t" and log = "[]" and t = t and log' = visits and t' = t0,
      OF binder_keeps_tree] l
  have sym: "\<forall>(pa, a) \<in> set visits. \<exists>i name ty. getNode t (Some a) = Inr (TIntermSymbol i name ty)"
    and tr: "\<forall>x. traverse snd VertexVaryingInTraverser_visitSymbol visitUnaryDefault fuel []
         (treeRoot t) (x, t) = Some (foldVisits VertexVaryingInTraverser_visitSymbol visits (x, t))"
    by auto
  define tv0 where "tv0 = \<lparr>m_genericAttributesRunningCount = 0, m_varyingNameToSymbol = [],
           m_varyingSymbolsToParents = []\<rparr>"
  from binder_fold[OF sym, of tv0] obtain tv where
    f: "foldVisits VertexVaryingInTraverser_visitSymbol visits (tv0, t) = Inr (tv, t)"
    and c: "m_genericAttributesRunningCount tv = 0"
    by (auto simp: tv0_def)
  from tr f have 1: "traverse snd VertexVaryingInTraverser_visitSymbol visitUnaryDefault fuel [] (treeRoot t)
         (\<lparr>m_genericAttributesRunningCount = 0, m_varyingNameToSymbol = [],
           m_varyingSymbolsToParents = []\<rparr>, t) = Some (Inr (tv, t))"
    by (simp add: tv0_def)
  have 2: "m_genericAttributesRunningCount (preprocessUVs False tv) =
         length (filter isUVName (map fst (m_varyingNameToSymbol tv)))"
    using c by (simp add: preprocessUVs_def precountUVs_eq)
  have 3: "m_genericAttributesRunningCount (preprocessUVs True tv) = 0"
    using c by (simp add: preprocessUVs_def)
  have 4: "\<forall>pre name symbol rest st ids names.
          m_varyingNameToSymbol tv = pre @ (name, symbol) # rest
          \<and> createVaryingSymbols False pre (varyingLoopStart (preprocessUVs False tv) ids names t) = Inr st
          \<and> \<not> isTableName name \<longrightarrow>
          GetVaryingLocationAndNewNameForName False (vl_count st) name =
            Inr ((FIRST_GENERIC_ATTRIBUTE_LOCATION
                    + length (filter isUVName (map fst (m_varyingNameToSymbol tv)))
                    + length (filter (\<lambda>n. \<not> isTableName n) (map fst pre)), name),
                 Suc (vl_count st))"
  proof (intro allI impI, elim conjE)
    fix pre name symbol rest st ids names
    assume cr: "createVaryingSymbols False pre (varyingLoopStart (preprocessUVs False tv) ids names t) = Inr st"
      and nt: "\<not> isTableName name"
    from createVaryingSymbols_count[OF cr] 2
    have "vl_count st = length (filter isUVName (map fst (m_varyingNameToSymbol tv)))
        + length (filter (\<lambda>n. \<not> isTableName n) (map fst pre))"
      by (simp add: varyingLoopStart_def advancesCount_simps)
    moreover have "GetVaryingLocationAndNewNameForName False (vl_count st) name =
        Inr ((FIRST_GENERIC_ATTRIBUTE_LOCATION + vl_count st, name), Suc (vl_count st))"
      using nt by (simp add: GetVaryingLocationAndNewNameForName_def isTableName_def)
    ultimately show "GetVaryingLocationAndNewNameForName False (vl_count st) name =
            Inr ((FIRST_GENERIC_ATTRIBUTE_LOCATION
                    + length (filter isUVName (map fst (m_varyingNameToSymbol tv)))
                    + length (filter (\<lambda>n. \<not> isTableName n) (map fst pre)), name),
                 Suc (vl_count st))"
      by (simp add: add.assoc)
  qed
  have 5: "\<forall>pre name symbol rest st ids names.
          m_varyingNameToSymbol tv = pre @ (name, symbol) # rest
          \<and> createVaryingSymbols True pre (varyingLoopStart (preprocessUVs True tv) ids names t) = Inr st
          \<and> length pre < length s_attribName \<longrightarrow>
          GetVaryingLocationAndNewNameForName True (vl_count st) name =
            Inr ((length pre, s_attribName ! length pre), Suc (length pre))"
  proof (intro allI impI, elim conjE)
    fix pre name symbol rest st ids names
    assume cr: "createVaryingSymbols True pre (varyingLoopStart (preprocessUVs True tv) ids names t) = Inr st"
      and lt: "length pre < length s_attribName"
    from createVaryingSymbols_count[OF cr] 3
    have "vl_count st = length pre"
      by (simp add: varyingLoopStart_def advancesCount_simps)
    with lt show "GetVaryingLocationAndNewNameForName True (vl_count st) name =
            Inr ((length pre, s_attribName ! length pre), Suc (length pre))"
      by (simp add: GetVaryingLocationAndNewNameForName_def)
  qed
  from 1 2 3 4 5 show ?thesis by (intro exI[of _ tv] conjI)
qed

lemma uvTree_position_created:
  "\<exists>st. createVaryingSymbols packed [(''position'', 4)]
           (varyingLoopStart (preprocessUVs packed uvTraverser) 0 [] uvTree) = Inr st"
  by (cases packed)
     (simp_all add: createVaryingSymbol_def symbolType_def getNode_def uvTree_def varyingLoopStart_def
        preprocessUVs_def uvTraverser_def isUVName_def
        GetVaryingLocationAndNewNameForName_def s_attribName_def Next_def addNode_def Let_def)

theorem uv_prescan_in_fixed_table_variant_witness:
  "m_genericAttributesRunningCount (preprocessUVs False uvTraverser) = 1
   \<and> m_genericAttributesRunningCount (preprocessUVs True uvTraverser) = 0
   \<and> (\<exists>st. createVaryingSymbols False [(''position'', 4)]
              (varyingLoopStart (preprocessUVs False uvTraverser) 0 [] uvTree) = Inr st
         \<and> GetVaryingLocationAndNewNameForName False (vl_count st) ''splat'' =
             Inr ((11, ''splat''), Suc (vl_count st)))
   \<and> (\<exists>st. createVaryingSymbols True [(''position'', 4)]
              (varyingLoopStart (preprocessUVs True uvTraverser) 0 [] uvTree) = Inr st
         \<and> GetVaryingLocationAndNewNameForName True (vl_count st) ''splat'' =
             Inr ((1, ''a_normal''), 2))"
proof -
  from uv_prescan_in_fixed_table_variant[OF uvTree_visits] obtain tv where
    t: "traverse snd VertexVaryingInTraverser_visitSymbol visitUnaryDefault 10 [] (treeRoot uvTree)
         (\<lparr>m_genericAttributesRunningCount = 0, m_varyingNameToSymbol = [],
           m_varyingSymbolsToParents = []\<rparr>, uvTree) = Some (Inr (tv, uvTree))"
    and a: "m_genericAttributesRunningCount (preprocessUVs False tv) =
         length (filter isUVName (map fst (m_varyingNameToSymbol tv)))"
    and b: "m_genericAttributesRunningCount (preprocessUVs True tv) = 0"
    and c: "\<forall>pre name symbol rest st ids names.
          m_varyingNameToSymbol tv = pre @ (name, symbol) # rest
          \<and> createVaryingSymbols False pre (varyingLoopStart (preprocessUVs False tv) ids names uvTree) = Inr st
          \<and> \<not> isTableName name \<longrightarrow>
          GetVaryingLocationAndNewNameForName False (vl_count st) name =
            Inr ((FIRST_GENERIC_ATTRIBUTE_LOCATION
                    + length (filter isUVName (map fst (m_varyingNameToSymbol tv)))
                    + length (filter (\<lambda>n. \<not> isTableName n) (map fst pre)), name),
                 Suc (vl_count st))"
    and d: "\<forall>pre name symbol rest st ids names.
          m_varyingNameToSymbol tv = pre @ (name, symbol) # rest
          \<and> createVaryingSymbols True pre (varyingLoopStart (preprocessUVs True tv) ids names uvTree) = Inr st
          \<and> length pre < length s_attribName \<longrightarrow>
          GetVaryingLocationAndNewNameForName True (vl_count st) name =
            Inr ((length pre, s_attribName ! length pre), Suc (length pre))"
    by (elim exE conjE)
  from t have tv: "tv = uvTraverser" unfolding uvTree_traverse by simp
  have m: "m_varyingNameToSymbol uvTraverser = [(''position'', 4)] @ (''splat'', 5) # [(''uv'', 6)]"
    by (simp add: uvTraverser_def)
  have uv: "length (filter isUVName (map fst (m_varyingNameToSymbol uvTraverser))) = 1"
    by (simp add: uvTraverser_def isUVName_def)
  have nt: "\<not> isTableName ''splat''" "length (filter (\<lambda>n. \<not> isTableName n) (map fst [(''position'', 4::nat)])) = 0"
    by (simp_all add: isTableName_def)
  from uvTree_position_created[of False] obtain sf where
    sf: "createVaryingSymbols False [(''position'', 4)]
           (varyingLoopStart (preprocessUVs False uvTraverser) 0 [] uvTree) = Inr sf"
    by blast
  from uvTree_position_created[of True] obtain st where
    st: "createVaryingSymbols True [(''position'', 4)]
           (varyingLoopStart (preprocessUVs True uvTraverser) 0 [] uvTree) = Inr st"
    by blast
  from c[unfolded tv, rule_format, OF conjI[OF m conjI[OF sf nt(1)]]]
  have 3: "GetVaryingLocationAndNewNameForName False (vl_count sf) ''splat'' =
             Inr ((11, ''splat''), Suc (vl_count sf))"
    unfolding uv nt(2) FIRST_GENERIC_ATTRIBUTE_LOCATION_def by simp
  have lt: "length [(''position'', 4::nat)] < length s_attribName" by (simp add: s_attribName_def)
  from d[unfolded tv, rule_format, OF conjI[OF m conjI[OF st lt]]]
  have 4: "GetVaryingLocationAndNewNameForName True (vl_count st) ''splat'' = Inr ((1, ''a_normal''), 2)"
    by (simp add: s_attribName_def)
  from a have 1: "m_genericAttributesRunningCount (preprocessUVs False uvTraverser) = 1"
    unfolding tv uv .
  from b have 2: "m_genericAttributesRunningCount (preprocessUVs True uvTraverser) = 0"
    unfolding tv .
  from 1 2 sf 3 st 4 show ?thesis by blast
qed

text \<open>
  C8 as stated fails: in the packed variant \<open>uvTree\<close>, which has the candidate \<open>uv\<close>,
  starts the assignment with the counter at 0, and \<open>position\<close>, the first candidate of
  the name map, gets slot 0; a pre-scan would have advanced the counter to 1.
\<close>

theorem uv_prescan_in_fixed_table_variant_counterexample:
  "isUVName ''uv''
   \<and> traverse snd VertexVaryingInTraverser_visitSymbol visitUnaryDefault 10 [] (treeRoot uvTree)
       (\<lparr>m_genericAttributesRunningCount = 0, m_varyingNameToSymbol = [],
         m_varyingSymbolsToParents = []\<rparr>, uvTree) = Some (Inr (uvTraverser, uvTree))
   \<and> m_varyingNameToSymbol uvTraverser = [(''position'', 4), (''splat'', 5), (''uv'', 6)]
   \<and> m_genericAttributesRunningCount (preprocessUVs True uvTraverser) = 0
   \<and> VertexVaryingInTraverser_Traverse True 10 0 [] uvTree =
       Some (Inr (3, [(''a_normal'', ''splat''), (''a_position'', ''position''), (''a_tangent'', ''uv'')],
                  packedUvTree))
   \<and> getNode packedUvTree (Some 9) = Inr (TIntermSymbol 0 ''a_position'' (attributeType 3 0))
   \<and> layoutLocation (getQualifier (attributeType 3 0)) = 0"
  using uvTree_traverse uvTree_packed
  by (simp add: isUVName_def uvTraverser_def preprocessUVs_def packedUvTree_def getNode_def
        attributeType_def)

section \<open>The visits of the derivative sign inverter\<close>

lemma nestedDyTree_visits: "derivativeVisits 10 nestedDyTree = Some (Inr [2])"
  by (simp add: derivativeVisits_def nestedDyTree_def eval_nat_numeral getNode_def logDPdy_def
        visitSymbolDefault_def isDPdy_def)

lemma nestedDyTree_inverted:
  "InvertYDerivativeOperandsTraverser_Traverse 10 nestedDyTree = Some (Inr invertedNestedDyTree)"
  by (simp add: InvertYDerivativeOperandsTraverser_Traverse_def nestedDyTree_def invertedNestedDyTree_def
        eval_nat_numeral getNode_def InvertYDerivativeOperandsTraverser_visitUnary_def
        visitSymbolDefault_def isDPdy_def addNode_def setNode_def)

lemma dySumTree_visits: "derivativeVisits 10 dySumTree = Some (Inr [1, 3])"
  by (simp add: derivativeVisits_def dySumTree_def eval_nat_numeral getNode_def logDPdy_def
        visitSymbolDefault_def isDPdy_def)

lemma visitUnaryAll_append:
  "visitUnaryAll (xs @ ys) t =
     (case visitUnaryAll xs t of Inl e \<Rightarrow> Inl e | Inr t' \<Rightarrow> visitUnaryAll ys t')"
  by (induction xs arbitrary: t) (auto split: sum.splits)

lemma derivativeAt_iff:
  "derivativeAt t d \<longleftrightarrow>
     (d < length (nodes t) \<and> (\<exists>op x ty. nodes t ! d = TIntermUnary op (Some x) ty \<and> isDPdy op))"
  by (auto simp: derivativeAt_def split: TIntermNode.splits)

lemma sameUpToOperands_refl: "sameUpToOperands t t"
  by (simp add: sameUpToOperands_def)

text \<open>The inverter's \<open>visitUnary\<close> at a derivative, and what it keeps.\<close>

lemma visitUnary_derivative:
  assumes "d < length (nodes u)" "nodes u ! d = TIntermUnary op (Some x) ty" "isDPdy op"
  shows "InvertYDerivativeOperandsTraverser_visitUnary d u =
     Inr (False, setNode d (TIntermUnary op (Some (length (nodes u))) ty)
                   (u\<lparr>nodes := nodes u @ [TIntermUnary EOpNegative (Some x) defaultOperatorType]\<rparr>))"
  using assms
  by (simp add: InvertYDerivativeOperandsTraverser_visitUnary_def getNode_def addNode_def)

lemma visitUnary_other:
  assumes "d < length (nodes u)" "nodes u ! d = TIntermUnary op x ty" "\<not> isDPdy op"
  shows "InvertYDerivativeOperandsTraverser_visitUnary d u = Inr (True, u)"
  using assms
  by (simp add: InvertYDerivativeOperandsTraverser_visitUnary_def getNode_def)

lemma visitUnary_keeps_shape:
  assumes s: "sameUpToOperands t u" and d: "derivativeAt t d"
  shows "\<exists>u'. InvertYDerivativeOperandsTraverser_visitUnary d u = Inr (False, u')
            \<and> sameUpToOperands t u'"
proof -
  from d obtain op x ty where dt: "d < length (nodes t)" "nodes t ! d = TIntermUnary op (Some x) ty" "isDPdy op"
    by (auto simp: derivativeAt_iff)
  from s have le: "length (nodes t) \<le> length (nodes u)" by (simp add: sameUpToOperands_def)
  from s dt(1) have "nodes u ! d = nodes t ! d \<or> (derivativeAt t d \<and> derivativeAt u d)"
    by (simp add: sameUpToOperands_def)
  then have du: "derivativeAt u d"
  proof
    assume "nodes u ! d = nodes t ! d"
    with dt le show ?thesis by (simp add: derivativeAt_iff)
  qed simp
  then obtain op' x' ty' where u: "d < length (nodes u)" "nodes u ! d = TIntermUnary op' (Some x') ty'" "isDPdy op'"
    by (auto simp: derivativeAt_iff)
  define u' where "u' = setNode d (TIntermUnary op' (Some (length (nodes u))) ty')
                   (u\<lparr>nodes := nodes u @ [TIntermUnary EOpNegative (Some x') defaultOperatorType]\<rparr>)"
  have v: "InvertYDerivativeOperandsTraverser_visitUnary d u = Inr (False, u')"
    using visitUnary_derivative[OF u] by (simp add: u'_def)
  have "sameUpToOperands t u'"
    unfolding sameUpToOperands_def
  proof (intro conjI allI impI)
    show "length (nodes t) \<le> length (nodes u')" using le by (simp add: u'_def setNode_def)
  next
    fix a assume a: "a < length (nodes t)"
    show "nodes u' ! a = nodes t ! a \<or> (derivativeAt t a \<and> derivativeAt u' a)"
    proof (cases "a = d")
      case True
      have "derivativeAt u' d" using u by (simp add: derivativeAt_iff u'_def setNode_def)
      with d True show ?thesis by simp
    next
      case False
      with a le have n: "nodes u' ! a = nodes u ! a" "a < length (nodes u)"
        by (simp_all add: u'_def setNode_def nth_append)
      from s a have "nodes u ! a = nodes t ! a \<or> (derivativeAt t a \<and> derivativeAt u a)"
        by (simp add: sameUpToOperands_def)
      then show ?thesis
      proof
        assume "nodes u ! a = nodes t ! a" with n show ?thesis by simp
      next
        assume h: "derivativeAt t a \<and> derivativeAt u a"
        then have "derivativeAt u' a" using n by (simp add: derivativeAt_iff u'_def setNode_def)
        with h show ?thesis by simp
      qed
    qed
  qed
  with v show ?thesis by blast
qed

lemma same_node:
  assumes "sameUpToOperands t u" "a < length (nodes t)" "\<not> derivativeAt t a"
  shows "nodes u ! a = nodes t ! a" "a < length (nodes u)"
  using assms by (auto simp: sameUpToOperands_def)

text \<open>
  The sign inverter visits the derivative nodes that the logging traverser reaches in the
  original tree, whatever the operands of the derivatives have become in between.
\<close>

lemma invert_traverse_visits:
  "(traverse snd visitSymbolDefault logDPdy n path p (log, t) = Some (Inr (log', t0))
      \<and> sameUpToOperands t u \<longrightarrow>
      t0 = t \<and> (\<exists>ds u'. log' = log @ ds \<and> (\<forall>d \<in> set ds. derivativeAt t d)
         \<and> traverse id visitSymbolDefault InvertYDerivativeOperandsTraverser_visitUnary n path p u
             = Some (Inr u')
         \<and> visitUnaryAll ds u = Inr u' \<and> sameUpToOperands t u'))
   \<and> (traverseChildren snd visitSymbolDefault logDPdy n path a idx (log, t) = Some (Inr (log', t0))
      \<and> sameUpToOperands t u \<and> \<not> derivativeAt t a \<longrightarrow>
      t0 = t \<and> (\<exists>ds u'. log' = log @ ds \<and> (\<forall>d \<in> set ds. derivativeAt t d)
         \<and> traverseChildren id visitSymbolDefault InvertYDerivativeOperandsTraverser_visitUnary n path a idx u
             = Some (Inr u')
         \<and> visitUnaryAll ds u = Inr u' \<and> sameUpToOperands t u'))"
proof (induction n arbitrary: path p a idx log log' t0 u)
  case 0
  show ?case by simp
next
  case (Suc n)
  have tr: "traverse snd visitSymbolDefault logDPdy (Suc n) path p (log, t) = Some (Inr (log', t0))
      \<and> sameUpToOperands t u \<longrightarrow>
      t0 = t \<and> (\<exists>ds u'. log' = log @ ds \<and> (\<forall>d \<in> set ds. derivativeAt t d)
         \<and> traverse id visitSymbolDefault InvertYDerivativeOperandsTraverser_visitUnary (Suc n) path p u
             = Some (Inr u')
         \<and> visitUnaryAll ds u = Inr u' \<and> sameUpToOperands t u')"
  proof (intro impI, elim conjE)
    assume h: "traverse snd visitSymbolDefault logDPdy (Suc n) path p (log, t) = Some (Inr (log', t0))"
      and s: "sameUpToOperands t u"
    from h obtain node where node: "getNode t p = Inr node"
      by (auto split: sum.splits)
    then obtain pa where pa: "p = Some pa" "pa < length (nodes t)" "nodes t ! pa = node"
      by (auto simp: getNode_Inr_iff)
    show "t0 = t \<and> (\<exists>ds u'. log' = log @ ds \<and> (\<forall>d \<in> set ds. derivativeAt t d)
         \<and> traverse id visitSymbolDefault InvertYDerivativeOperandsTraverser_visitUnary (Suc n) path p u
             = Some (Inr u')
         \<and> visitUnaryAll ds u = Inr u' \<and> sameUpToOperands t u')"
    proof (cases "derivativeAt t pa")
      case True
      then obtain op x ty where n: "node = TIntermUnary op (Some x) ty" "isDPdy op"
        using pa by (auto simp: derivativeAt_iff)
      from h node n pa have l: "log' = log @ [pa]" "t0 = t"
        by (auto simp: logDPdy_def getNode_def)
      from visitUnary_keeps_shape[OF s True] obtain u' where
        v: "InvertYDerivativeOperandsTraverser_visitUnary pa u = Inr (False, u')"
        and s': "sameUpToOperands t u'"
        by blast
      from v obtain op' x' ty' where "getNode u (Some pa) = Inr (TIntermUnary op' x' ty')"
        by (auto simp: InvertYDerivativeOperandsTraverser_visitUnary_def
                 split: sum.splits TIntermNode.splits)
      with v have "traverse id visitSymbolDefault InvertYDerivativeOperandsTraverser_visitUnary (Suc n) path p u
             = Some (Inr u')"
        by (simp add: pa)
      moreover have "visitUnaryAll [pa] u = Inr u'" using v by simp
      ultimately show ?thesis using l True s' by (intro conjI exI[of _ "[pa]"] exI[of _ u']) simp_all
    next
      case False
      from same_node[OF s pa(2) False] pa have nu: "getNode u p = Inr node"
        by (simp add: getNode_def)
      show ?thesis
      proof (cases "(\<exists>i name ty. node = TIntermSymbol i name ty) \<or> (\<exists>v ty. node = TIntermConstantUnion v ty)")
        case True
        with h node pa have "log' = log" "t0 = t"
          by (auto simp: visitSymbolDefault_def)
        moreover have "traverse id visitSymbolDefault InvertYDerivativeOperandsTraverser_visitUnary (Suc n) path p u
             = Some (Inr u)"
          using True nu pa by (auto simp: visitSymbolDefault_def)
        ultimately show ?thesis using s by (intro conjI exI[of _ "[]"] exI[of _ u]) simp_all
      next
        case leaf: False
        have l: "traverse snd visitSymbolDefault logDPdy (Suc n) path p (log, t) =
            traverseChildren snd visitSymbolDefault logDPdy n (path @ [pa]) pa 0 (log, t)"
        proof (cases node)
          case (TIntermUnary op x ty)
          with False pa have "\<not> isDPdy op \<or> x = None" by (auto simp: derivativeAt_iff)
          moreover have "\<not> (isDPdy op \<and> x = None)"
            using h node TIntermUnary pa by (auto simp: logDPdy_def split: option.splits)
          ultimately have "\<not> isDPdy op" by blast
          then show ?thesis using node TIntermUnary pa by (simp add: logDPdy_def)
        qed (use node leaf pa in auto)
        have i: "traverse id visitSymbolDefault InvertYDerivativeOperandsTraverser_visitUnary (Suc n) path p u =
            traverseChildren id visitSymbolDefault InvertYDerivativeOperandsTraverser_visitUnary n (path @ [pa]) pa 0 u"
        proof (cases node)
          case (TIntermUnary op x ty)
          with False pa have "\<not> isDPdy op \<or> x = None" by (auto simp: derivativeAt_iff)
          moreover have "\<not> (isDPdy op \<and> x = None)"
            using h node TIntermUnary pa by (auto simp: logDPdy_def split: option.splits)
          ultimately have "\<not> isDPdy op" by blast
          then show ?thesis using nu TIntermUnary pa
            by (simp add: InvertYDerivativeOperandsTraverser_visitUnary_def)
        qed (use nu leaf pa in auto)
        from h have h': "traverseChildren snd visitSymbolDefault logDPdy n (path @ [pa]) pa 0 (log, t) =
            Some (Inr (log', t0))"
          unfolding l .
        from Suc.IH[of "path @ [pa]" p log log' t0 u pa 0] h' s False
        have "t0 = t \<and> (\<exists>ds u'. log' = log @ ds \<and> (\<forall>d \<in> set ds. derivativeAt t d)
         \<and> traverseChildren id visitSymbolDefault InvertYDerivativeOperandsTraverser_visitUnary n (path @ [pa]) pa 0 u
             = Some (Inr u')
         \<and> visitUnaryAll ds u = Inr u' \<and> sameUpToOperands t u')"
          by blast
        then show ?thesis unfolding i .
      qed
    qed
  qed
  have ch: "traverseChildren snd visitSymbolDefault logDPdy (Suc n) path a idx (log, t) = Some (Inr (log', t0))
      \<and> sameUpToOperands t u \<and> \<not> derivativeAt t a \<longrightarrow>
      t0 = t \<and> (\<exists>ds u'. log' = log @ ds \<and> (\<forall>d \<in> set ds. derivativeAt t d)
         \<and> traverseChildren id visitSymbolDefault InvertYDerivativeOperandsTraverser_visitUnary (Suc n) path a idx u
             = Some (Inr u')
         \<and> visitUnaryAll ds u = Inr u' \<and> sameUpToOperands t u')"
  proof (intro impI, elim conjE)
    assume h: "traverseChildren snd visitSymbolDefault logDPdy (Suc n) path a idx (log, t) = Some (Inr (log', t0))"
      and s: "sameUpToOperands t u" and nd: "\<not> derivativeAt t a"
    from h obtain node where node: "getNode t (Some a) = Inr node"
      by (auto split: sum.splits)
    then have a: "a < length (nodes t)" "nodes t ! a = node" by (auto simp: getNode_Inr_iff)
    from same_node[OF s a(1) nd] a have nu: "getNode u (Some a) = Inr node"
      by (simp add: getNode_def)
    show "t0 = t \<and> (\<exists>ds u'. log' = log @ ds \<and> (\<forall>d \<in> set ds. derivativeAt t d)
         \<and> traverseChildren id visitSymbolDefault InvertYDerivativeOperandsTraverser_visitUnary (Suc n) path a idx u
             = Some (Inr u')
         \<and> visitUnaryAll ds u = Inr u' \<and> sameUpToOperands t u')"
    proof (cases "idx < length (traversalChildren node)")
      case False
      with h node have "log' = log" "t0 = t" by auto
      moreover have "traverseChildren id visitSymbolDefault InvertYDerivativeOperandsTraverser_visitUnary (Suc n) path a idx u
             = Some (Inr u)"
        using nu False by simp
      ultimately show ?thesis using s by (intro conjI exI[of _ "[]"] exI[of _ u]) simp_all
    next
      case True
      obtain c skipped where cs: "traversalChildren node ! idx = (c, skipped)"
        by (cases "traversalChildren node ! idx")
      show ?thesis
      proof (cases c)
        case None
        with h node True cs have sk: "skipped"
          and l: "traverseChildren snd visitSymbolDefault logDPdy n path a (Suc idx) (log, t) = Some (Inr (log', t0))"
          by (auto split: if_splits)
        have i: "traverseChildren id visitSymbolDefault InvertYDerivativeOperandsTraverser_visitUnary (Suc n) path a idx u =
            traverseChildren id visitSymbolDefault InvertYDerivativeOperandsTraverser_visitUnary n path a (Suc idx) u"
          using nu True cs None sk by simp
        from Suc.IH[of path None log log' t0 u a "Suc idx"] l s nd
        have "t0 = t \<and> (\<exists>ds u'. log' = log @ ds \<and> (\<forall>d \<in> set ds. derivativeAt t d)
         \<and> traverseChildren id visitSymbolDefault InvertYDerivativeOperandsTraverser_visitUnary n path a (Suc idx) u
             = Some (Inr u')
         \<and> visitUnaryAll ds u = Inr u' \<and> sameUpToOperands t u')"
          by blast
        then show ?thesis unfolding i .
      next
        case (Some ca)
        from h node True cs Some obtain log1 t1 where
          l1: "traverse snd visitSymbolDefault logDPdy n path c (log, t) = Some (Inr (log1, t1))"
          and l2: "traverseChildren snd visitSymbolDefault logDPdy n path a (Suc idx) (log1, t1) = Some (Inr (log', t0))"
          by (auto split: option.splits sum.splits)
        from Suc.IH[of path c log log1 t1 u a idx] l1 s
        obtain ds1 u1 where 1: "t1 = t" "log1 = log @ ds1" "\<forall>d \<in> set ds1. derivativeAt t d"
          "traverse id visitSymbolDefault InvertYDerivativeOperandsTraverser_visitUnary n path c u = Some (Inr u1)"
          "visitUnaryAll ds1 u = Inr u1" "sameUpToOperands t u1"
          by blast
        from Suc.IH[of path c log1 log' t0 u1 a "Suc idx"] l2 1(1,6) nd
        obtain ds2 u2 where 2: "t0 = t" "log' = log1 @ ds2" "\<forall>d \<in> set ds2. derivativeAt t d"
          "traverseChildren id visitSymbolDefault InvertYDerivativeOperandsTraverser_visitUnary n path a (Suc idx) u1
             = Some (Inr u2)"
          "visitUnaryAll ds2 u1 = Inr u2" "sameUpToOperands t u2"
          by blast
        have "traverseChildren id visitSymbolDefault InvertYDerivativeOperandsTraverser_visitUnary (Suc n) path a idx u
             = Some (Inr u2)"
          using nu True cs Some 1(4) 2(4) by simp
        moreover have "visitUnaryAll (ds1 @ ds2) u = Inr u2"
          using 1(5) 2(5) by (simp add: visitUnaryAll_append)
        ultimately show ?thesis using 1 2
          by (intro conjI exI[of _ "ds1 @ ds2"] exI[of _ u2]) auto
      qed
    qed
  qed
  from tr ch show ?case by blast
qed

text \<open>What \<open>visitUnaryAll\<close> leaves behind when it is run on distinct derivatives.\<close>

lemma visitUnaryAll_result:
  assumes "length (nodes t) \<le> length (nodes u)"
    and "\<forall>d \<in> set ds. derivativeAt t d \<and> nodes u ! d = nodes t ! d"
    and "distinct ds"
  shows "\<exists>u'. visitUnaryAll ds u = Inr u'
    \<and> length (nodes u') = length (nodes u) + length ds
    \<and> treeRoot u' = treeRoot u
    \<and> (\<forall>a < length (nodes u). a \<notin> set ds \<longrightarrow> nodes u' ! a = nodes u ! a)
    \<and> (\<forall>k < length ds. \<exists>op x ty. isDPdy op
          \<and> nodes t ! (ds ! k) = TIntermUnary op (Some x) ty
          \<and> nodes u' ! (ds ! k) = TIntermUnary op (Some (length (nodes u) + k)) ty
          \<and> nodes u' ! (length (nodes u) + k) = TIntermUnary EOpNegative (Some x) defaultOperatorType)"
  using assms
proof (induction ds arbitrary: u)
  case Nil
  show ?case by simp
next
  case (Cons d rest)
  from Cons.prems(2) obtain op x ty where
    dt: "d < length (nodes t)" "nodes t ! d = TIntermUnary op (Some x) ty" "isDPdy op"
    and du: "nodes u ! d = nodes t ! d"
    by (auto simp: derivativeAt_iff)
  have dl: "d < length (nodes u)" using dt(1) Cons.prems(1) by simp
  define u1 where "u1 = setNode d (TIntermUnary op (Some (length (nodes u))) ty)
                   (u\<lparr>nodes := nodes u @ [TIntermUnary EOpNegative (Some x) defaultOperatorType]\<rparr>)"
  have v: "InvertYDerivativeOperandsTraverser_visitUnary d u = Inr (False, u1)"
    using visitUnary_derivative[OF dl _ dt(3), of x ty] du dt(2) by (simp add: u1_def)
  have l1: "length (nodes u1) = Suc (length (nodes u))" by (simp add: u1_def setNode_def)
  have r1: "treeRoot u1 = treeRoot u" by (simp add: u1_def setNode_def)
  have n1: "nodes u1 ! a = nodes u ! a" if "a < length (nodes u)" "a \<noteq> d" for a
    using that by (simp add: u1_def setNode_def nth_append)
  have nd: "nodes u1 ! d = TIntermUnary op (Some (length (nodes u))) ty"
    using dl by (simp add: u1_def setNode_def)
  have nn: "nodes u1 ! length (nodes u) = TIntermUnary EOpNegative (Some x) defaultOperatorType"
    using dl by (simp add: u1_def setNode_def)
  have rest_lt: "r < length (nodes t)" if "r \<in> set rest" for r
    using that Cons.prems(2) by (auto simp: derivativeAt_iff)
  have p1: "length (nodes t) \<le> length (nodes u1)" using Cons.prems(1) l1 by simp
  have p2: "\<forall>r \<in> set rest. derivativeAt t r \<and> nodes u1 ! r = nodes t ! r"
  proof
    fix r assume r: "r \<in> set rest"
    with Cons.prems(3) have "r \<noteq> d" by auto
    moreover from rest_lt[OF r] Cons.prems(1) have "r < length (nodes u)" by simp
    ultimately have "nodes u1 ! r = nodes u ! r" by (rule n1[rotated])
    with r Cons.prems(2) show "derivativeAt t r \<and> nodes u1 ! r = nodes t ! r" by simp
  qed
  from Cons.prems(3) have p3: "distinct rest" by simp
  from Cons.IH[OF p1 p2 p3] obtain u' where
    i1: "visitUnaryAll rest u1 = Inr u'"
    and i2: "length (nodes u') = length (nodes u1) + length rest"
    and i3: "treeRoot u' = treeRoot u1"
    and i4: "\<forall>a < length (nodes u1). a \<notin> set rest \<longrightarrow> nodes u' ! a = nodes u1 ! a"
    and i5: "\<forall>k < length rest. \<exists>op x ty. isDPdy op
          \<and> nodes t ! (rest ! k) = TIntermUnary op (Some x) ty
          \<and> nodes u' ! (rest ! k) = TIntermUnary op (Some (length (nodes u1) + k)) ty
          \<and> nodes u' ! (length (nodes u1) + k) = TIntermUnary EOpNegative (Some x) defaultOperatorType"
    by blast
  have dnr: "d \<notin> set rest" using Cons.prems(3) by simp
  have lnr: "length (nodes u) \<notin> set rest"
  proof
    assume "length (nodes u) \<in> set rest"
    from rest_lt[OF this] Cons.prems(1) show False by simp
  qed
  have c1: "visitUnaryAll (d # rest) u = Inr u'" using v i1 by simp
  have c2: "length (nodes u') = length (nodes u) + length (d # rest)" using i2 l1 by simp
  have c3: "treeRoot u' = treeRoot u" using i3 r1 by simp
  have c4: "\<forall>a < length (nodes u). a \<notin> set (d # rest) \<longrightarrow> nodes u' ! a = nodes u ! a"
  proof (intro allI impI)
    fix a assume a: "a < length (nodes u)" "a \<notin> set (d # rest)"
    then have "nodes u' ! a = nodes u1 ! a" using i4 l1 by simp
    also have "\<dots> = nodes u ! a" using a by (intro n1) simp_all
    finally show "nodes u' ! a = nodes u ! a" .
  qed
  have c5: "\<forall>k < length (d # rest). \<exists>op x ty. isDPdy op
          \<and> nodes t ! ((d # rest) ! k) = TIntermUnary op (Some x) ty
          \<and> nodes u' ! ((d # rest) ! k) = TIntermUnary op (Some (length (nodes u) + k)) ty
          \<and> nodes u' ! (length (nodes u) + k) = TIntermUnary EOpNegative (Some x) defaultOperatorType"
  proof (intro allI impI)
    fix k assume k: "k < length (d # rest)"
    show "\<exists>op x ty. isDPdy op
          \<and> nodes t ! ((d # rest) ! k) = TIntermUnary op (Some x) ty
          \<and> nodes u' ! ((d # rest) ! k) = TIntermUnary op (Some (length (nodes u) + k)) ty
          \<and> nodes u' ! (length (nodes u) + k) = TIntermUnary EOpNegative (Some x) defaultOperatorType"
    proof (cases k)
      case 0
      have "nodes u' ! d = nodes u1 ! d" using i4 dl l1 dnr by simp
      moreover have "nodes u' ! length (nodes u) = nodes u1 ! length (nodes u)"
        using i4 l1 lnr by simp
      ultimately show ?thesis using 0 dt nd nn by simp
    next
      case (Suc j)
      with k have "j < length rest" by simp
      with i5 obtain op' x' ty' where "isDPdy op'"
          "nodes t ! (rest ! j) = TIntermUnary op' (Some x') ty'"
          "nodes u' ! (rest ! j) = TIntermUnary op' (Some (length (nodes u1) + j)) ty'"
          "nodes u' ! (length (nodes u1) + j) = TIntermUnary EOpNegative (Some x') defaultOperatorType"
        by blast
      then show ?thesis using Suc l1 by simp
    qed
  qed
  from c1 c2 c3 c4 c5 show ?case by blast
qed

text \<open>
  C7, as amended. The sign inverter visits the derivatives with respect to the second screen
  axis (\<open>EOpDPdy\<close>, \<open>EOpDPdyFine\<close>, \<open>EOpDPdyCoarse\<close>) that the traversal reaches without
  passing through another such derivative: \<open>derivativeVisits\<close> lists them in order. When
  these are distinct nodes, the run succeeds and adds one node per visited derivative; the
  \<open>k\<close>-th visited derivative keeps its operator and type and its operand becomes the
  \<open>k\<close>-th new node, an \<open>EOpNegative\<close> of its former operand. No other node is changed: a
  derivative below the operand of a visited derivative keeps its operand unwrapped.
\<close>

theorem visited_derivatives_negated_once:
  assumes "derivativeVisits fuel t = Some (Inr ds)" and "distinct ds"
  shows "\<exists>t'. InvertYDerivativeOperandsTraverser_Traverse fuel t = Some (Inr t')
    \<and> length (nodes t') = length (nodes t) + length ds
    \<and> treeRoot t' = treeRoot t
    \<and> (\<forall>a < length (nodes t). a \<notin> set ds \<longrightarrow> nodes t' ! a = nodes t ! a)
    \<and> (\<forall>k < length ds. \<exists>op x ty. isDPdy op
          \<and> nodes t ! (ds ! k) = TIntermUnary op (Some x) ty
          \<and> nodes t' ! (ds ! k) = TIntermUnary op (Some (length (nodes t) + k)) ty
          \<and> nodes t' ! (length (nodes t) + k) = TIntermUnary EOpNegative (Some x) defaultOperatorType)"
proof -
  from assms(1) obtain t0 where
    l: "traverse snd visitSymbolDefault logDPdy fuel [] (treeRoot t) ([], t) = Some (Inr (ds, t0))"
    by (auto simp: derivativeVisits_def split: option.splits sum.splits)
  from invert_traverse_visits[of fuel "[]" "treeRoot t" "[]" t ds t0 t] l sameUpToOperands_refl[of t]
  obtain es u' where e: "ds = [] @ es" "\<forall>d \<in> set es. derivativeAt t d"
    "traverse id visitSymbolDefault InvertYDerivativeOperandsTraverser_visitUnary fuel [] (treeRoot t) t
       = Some (Inr u')"
    "visitUnaryAll es t = Inr u'"
    by blast
  then have ds: "es = ds" by simp
  have "\<forall>d \<in> set ds. derivativeAt t d \<and> nodes t ! d = nodes t ! d" using e(2) ds by simp
  from visitUnaryAll_result[OF le_refl this assms(2)] e(3,4) ds
  show ?thesis by (simp add: InvertYDerivativeOperandsTraverser_Traverse_def)
qed

theorem visited_derivatives_negated_once_witness:
  "derivativeVisits 10 dySumTree = Some (Inr [1, 3]) \<and> distinct [1, 3 :: nat]
   \<and> (\<exists>t'. InvertYDerivativeOperandsTraverser_Traverse 10 dySumTree = Some (Inr t')
        \<and> length (nodes t') = 9
        \<and> nodes t' ! 1 = TIntermUnary EOpDPdy (Some 7) (floatType 1 EvqTemporary)
        \<and> nodes t' ! 7 = TIntermUnary EOpNegative (Some 0) defaultOperatorType
        \<and> nodes t' ! 3 = TIntermUnary EOpDPdyFine (Some 8) (floatType 1 EvqTemporary)
        \<and> nodes t' ! 8 = TIntermUnary EOpNegative (Some 2) defaultOperatorType
        \<and> nodes t' ! 4 = TIntermBinary EOpAdd (Some 1) (Some 3) (floatType 1 EvqTemporary))"
proof -
  have d: "distinct [1, 3 :: nat]" by simp
  from visited_derivatives_negated_once[OF dySumTree_visits d] obtain t' where
    r: "InvertYDerivativeOperandsTraverser_Traverse 10 dySumTree = Some (Inr t')"
    and len: "length (nodes t') = length (nodes dySumTree) + length [1, 3 :: nat]"
    and keep: "\<forall>a < length (nodes dySumTree). a \<notin> set [1, 3 :: nat] \<longrightarrow> nodes t' ! a = nodes dySumTree ! a"
    and wrap: "\<forall>k < length [1, 3 :: nat]. \<exists>op x ty. isDPdy op
          \<and> nodes dySumTree ! ([1, 3] ! k) = TIntermUnary op (Some x) ty
          \<and> nodes t' ! ([1, 3] ! k) = TIntermUnary op (Some (length (nodes dySumTree) + k)) ty
          \<and> nodes t' ! (length (nodes dySumTree) + k) = TIntermUnary EOpNegative (Some x) defaultOperatorType"
    by blast
  have n: "length (nodes dySumTree) = 7" by (simp add: dySumTree_def)
  from len have c1: "length (nodes t') = 9" by (simp add: n)
  from wrap[rule_format, of 0] have
    c2: "nodes t' ! 1 = TIntermUnary EOpDPdy (Some 7) (floatType 1 EvqTemporary)"
    and c3: "nodes t' ! 7 = TIntermUnary EOpNegative (Some 0) defaultOperatorType"
    by (auto simp: n) (simp_all add: dySumTree_def)
  from wrap[rule_format, of 1] have
    c4: "nodes t' ! 3 = TIntermUnary EOpDPdyFine (Some 8) (floatType 1 EvqTemporary)"
    and c5: "nodes t' ! 8 = TIntermUnary EOpNegative (Some 2) defaultOperatorType"
    by (auto simp: n) (simp_all add: dySumTree_def)
  from keep[rule_format, of 4] have
    c6: "nodes t' ! 4 = TIntermBinary EOpAdd (Some 1) (Some 3) (floatType 1 EvqTemporary)"
    by (simp add: dySumTree_def)
  from dySumTree_visits d r c1 c2 c3 c4 c5 c6 show ?thesis by blast
qed

text \<open>
  In \<^verbatim>\<open>dFdy(dFdy(x))\<close> the run returns at the outer derivative: the tree has two
  derivative nodes and one negation afterwards, and the inner derivative still has the
  operand \<open>x\<close>.
\<close>

theorem visited_derivatives_negated_once_counterexample:
  "InvertYDerivativeOperandsTraverser_Traverse 10 nestedDyTree = Some (Inr invertedNestedDyTree)
   \<and> countUnary isDPdy nestedDyTree = 2
   \<and> countUnary isNegative invertedNestedDyTree = 1
   \<and> nodes nestedDyTree ! 1 = TIntermUnary EOpDPdy (Some 0) (floatType 1 EvqTemporary)
   \<and> nodes invertedNestedDyTree ! 1 = TIntermUnary EOpDPdy (Some 0) (floatType 1 EvqTemporary)
   \<and> nodes invertedNestedDyTree ! 0 = TIntermSymbol 1 ''x'' (floatType 1 EvqVaryingIn)"
proof -
  have "countUnary isDPdy nestedDyTree = 2"
    by (simp add: countUnary_def nestedDyTree_def isDPdy_def)
  moreover have "countUnary isNegative invertedNestedDyTree = 1"
    by (simp add: countUnary_def invertedNestedDyTree_def isNegative_def)
  moreover have "nodes nestedDyTree ! 1 = TIntermUnary EOpDPdy (Some 0) (floatType 1 EvqTemporary)"
    by (simp add: nestedDyTree_def)
  moreover have "nodes invertedNestedDyTree ! 1 = TIntermUnary EOpDPdy (Some 0) (floatType 1 EvqTemporary)"
    by (simp add: invertedNestedDyTree_def)
  moreover have "nodes invertedNestedDyTree ! 0 = TIntermSymbol 1 ''x'' (floatType 1 EvqVaryingIn)"
    by (simp add: invertedNestedDyTree_def)
  ultimately show ?thesis using nestedDyTree_inverted by simp
qed

end
